(* ===== verification/Prelude.thy ===== *)
theory Prelude
  imports "HOL-Library.Word" "HOL-Library.Monad_Syntax"
begin

unbundle bit_operations_syntax

section \<open>Shared types, bytes in memory, byte order\<close>

text \<open>
  What every component of the development shares: the C integer types as words, a byte memory
  (a list of bytes read and written at an offset, where an access outside the list is
  \<open>None\<close>), the little-endian layout of multi-byte fields and the byte-order conversions
  \<open>htons\<close>, \<open>htonl\<close>, \<open>htobe64\<close> of the sources. The host is little-endian, as the x86-64
  machines the project is built for. One lemma gives the bits of a loaded word
  (\<open>bit_word_of_le\<close>); the round trips between words and bytes follow from it.

  The collection \<open>layout_simps\<close> holds the facts that read and write fields at known
  offsets, \<open>word_bounds\<close> the facts that turn wrapping arithmetic into \<open>nat\<close> arithmetic.
\<close>

named_theorems layout_simps \<open>reading and writing fields of byte buffers\<close>
named_theorems word_bounds \<open>word arithmetic without wrap-around, as natural numbers\<close>

type_synonym u8 = "8 word"
type_synonym u16 = "16 word"
type_synonym u32 = "32 word"
type_synonym u64 = "64 word"
type_synonym bytes = "8 word list"

subsection \<open>Little-endian words\<close>

fun word_of_le :: "bytes \<Rightarrow> 'a::len word" where
  "word_of_le [] = 0"
| "word_of_le (b # bs) = push_bit 8 (word_of_le bs) OR ucast b"

fun le_bytes :: "nat \<Rightarrow> 'a::len word \<Rightarrow> bytes" where
  "le_bytes 0 w = []"
| "le_bytes (Suc n) w = ucast w # le_bytes n (drop_bit 8 w)"

lemma length_le_bytes [simp]: "length (le_bytes n w) = n"
  by (induction n arbitrary: w) auto

lemma bit_word_of_le:
  "bit (word_of_le bs :: 'a::len word) k \<longleftrightarrow>
     k < LENGTH('a) \<and> k < 8 * length bs \<and> bit (bs ! (k div 8)) (k mod 8)"
proof (induction bs arbitrary: k)
  case Nil
  then show ?case by simp
next
  case (Cons b bs)
  show ?case
  proof (cases "k < 8")
    case True
    then show ?thesis by (auto simp: bit_simps)
  next
    case False
    then have "k div 8 = Suc ((k - 8) div 8)" and "(k - 8) mod 8 = k mod 8"
      by (simp_all add: le_div_geq le_mod_geq)
    with False show ?thesis
      by (auto simp: bit_simps Cons.IH dest: bit_imp_le_length)
  qed
qed

lemma le_bytes_numeral:
  "le_bytes (numeral n) w = ucast w # le_bytes (pred_numeral n) (drop_bit 8 w)"
  by (simp add: numeral_eq_Suc)

lemma nth_le_bytes: "i < n \<Longrightarrow> le_bytes n w ! i = ucast (drop_bit (8 * i) w)"
proof (induction n arbitrary: w i)
  case 0
  then show ?case by simp
next
  case (Suc n)
  then show ?case
    by (cases i) (auto simp: add.commute)
qed

lemma word_of_le_bytes [simp]:
  fixes w :: "'a::len word"
  assumes "LENGTH('a) \<le> 8 * n"
  shows "word_of_le (le_bytes n w) = w"
proof (rule bit_word_eqI)
  fix k assume k: "k < LENGTH('a)"
  then have "k div 8 < n" using assms by (simp add: less_mult_imp_div_less mult.commute)
  with k assms show "bit (word_of_le (le_bytes n w) :: 'a word) k \<longleftrightarrow> bit w k"
    by (auto simp: bit_word_of_le nth_le_bytes bit_simps)
qed

lemma le_bytes_word_of_le:
  assumes "8 * length bs \<le> LENGTH('a::len)"
  shows "le_bytes (length bs) (word_of_le bs :: 'a word) = bs"
proof (rule nth_equalityI)
  fix i assume "i < length (le_bytes (length bs) (word_of_le bs :: 'a word))"
  then have i: "i < length bs" by simp
  show "le_bytes (length bs) (word_of_le bs :: 'a word) ! i = bs ! i"
  proof (rule bit_word_eqI)
    fix k assume "k < LENGTH(8)"
    then have k: "k < 8" by simp
    with i assms have "8 * i + k < LENGTH('a)" and "8 * i + k < 8 * length bs"
      by linarith+
    with i k show "bit (le_bytes (length bs) (word_of_le bs :: 'a word) ! i) k \<longleftrightarrow> bit (bs ! i) k"
      by (simp add: nth_le_bytes bit_simps bit_word_of_le)
  qed
qed simp

lemma word_of_le_eq_iff:
  fixes w :: "'a::len word"
  assumes "LENGTH('a) = 8 * length bs"
  shows "word_of_le bs = w \<longleftrightarrow> bs = le_bytes (length bs) w"
proof
  assume "word_of_le bs = w"
  then show "bs = le_bytes (length bs) w"
    using assms le_bytes_word_of_le [of bs, where 'a = 'a] by auto
next
  assume "bs = le_bytes (length bs) w"
  then have "word_of_le bs = (word_of_le (le_bytes (length bs) w) :: 'a word)"
    by (rule arg_cong)
  with assms show "word_of_le bs = w" by simp
qed

subsection \<open>Byte order\<close>

text \<open>The conversions between host order and network (big-endian) order swap the bytes.\<close>

definition htons :: "u16 \<Rightarrow> u16" where
  "htons w = word_of_le (rev (le_bytes 2 w))"

definition htonl :: "u32 \<Rightarrow> u32" where
  "htonl w = word_of_le (rev (le_bytes 4 w))"

definition htobe64 :: "u64 \<Rightarrow> u64" where
  "htobe64 w = word_of_le (rev (le_bytes 8 w))"

abbreviation ntohs :: "u16 \<Rightarrow> u16" where "ntohs \<equiv> htons"
abbreviation ntohl :: "u32 \<Rightarrow> u32" where "ntohl \<equiv> htonl"
abbreviation be64toh :: "u64 \<Rightarrow> u64" where "be64toh \<equiv> htobe64"

lemma rev_le_bytes_twice:
  fixes w :: "'a::len word"
  assumes "LENGTH('a) = 8 * n"
  shows "word_of_le (rev (le_bytes n (word_of_le (rev (le_bytes n w)) :: 'a word))) = w"
  using le_bytes_word_of_le [of "rev (le_bytes n w)", where 'a = 'a] assms by simp

lemma htons_htons [simp]: "htons (htons w) = w"
  unfolding htons_def by (rule rev_le_bytes_twice) simp

lemma htonl_htonl [simp]: "htonl (htonl w) = w"
  unfolding htonl_def by (rule rev_le_bytes_twice) simp

lemma htobe64_htobe64 [simp]: "htobe64 (htobe64 w) = w"
  unfolding htobe64_def by (rule rev_le_bytes_twice) simp

lemma htons_eq_iff: "htons v = w \<longleftrightarrow> v = htons w"
  by auto

lemma htonl_eq_iff: "htonl v = w \<longleftrightarrow> v = htonl w"
  by auto

lemma bit_swapped:
  fixes w :: "'a::len word"
  assumes "LENGTH('a) = 8 * n"
  shows "bit (word_of_le (rev (le_bytes n w)) :: 'a word) k \<longleftrightarrow>
     k < 8 * n \<and> bit w (8 * (n - Suc (k div 8)) + k mod 8)"
proof (cases "k < 8 * n")
  case True
  then have "k div 8 < n" by (simp add: less_mult_imp_div_less mult.commute)
  then have "rev (le_bytes n w) ! (k div 8) = ucast (drop_bit (8 * (n - Suc (k div 8))) w)"
    by (simp add: rev_nth nth_le_bytes)
  with True assms show ?thesis
    by (simp add: bit_word_of_le bit_simps)
next
  case False
  with assms show ?thesis by (simp add: bit_word_of_le)
qed

lemma bit_htonl:
  "bit (htonl w) k \<longleftrightarrow> k < 32 \<and> bit w (8 * (4 - Suc (k div 8)) + k mod 8)"
  unfolding htonl_def by (subst bit_swapped) simp_all

lemma htonl_AND: "htonl (v AND w) = htonl v AND htonl w"
  by (rule bit_word_eqI) (simp add: bit_htonl bit_simps)

subsection \<open>Byte memory\<close>

text \<open>
  A buffer is the list of its bytes. A load or a store that is not inside the buffer is a
  fault, \<open>None\<close>: the out-of-bounds access a C program would make.
\<close>

definition load_bytes :: "nat \<Rightarrow> bytes \<Rightarrow> nat \<Rightarrow> bytes option" where
  "load_bytes n mem i = (if i + n \<le> length mem then Some (take n (drop i mem)) else None)"

definition load8 :: "bytes \<Rightarrow> nat \<Rightarrow> u8 option" where
  "load8 mem i = (if i < length mem then Some (mem ! i) else None)"

definition load16 :: "bytes \<Rightarrow> nat \<Rightarrow> u16 option" where
  "load16 mem i = map_option word_of_le (load_bytes 2 mem i)"

definition load32 :: "bytes \<Rightarrow> nat \<Rightarrow> u32 option" where
  "load32 mem i = map_option word_of_le (load_bytes 4 mem i)"

definition load64 :: "bytes \<Rightarrow> nat \<Rightarrow> u64 option" where
  "load64 mem i = map_option word_of_le (load_bytes 8 mem i)"

definition store_bytes :: "bytes \<Rightarrow> nat \<Rightarrow> bytes \<Rightarrow> bytes option" where
  "store_bytes mem i vs =
     (if i + length vs \<le> length mem
      then Some (take i mem @ vs @ drop (i + length vs) mem) else None)"

lemmas load_defs = load_bytes_def load8_def load16_def load32_def load64_def

lemma load8_some [layout_simps]: "i < length mem \<Longrightarrow> load8 mem i = Some (mem ! i)"
  by (simp add: load8_def)

lemma load16_some [layout_simps]:
  "i + 2 \<le> length mem \<Longrightarrow> load16 mem i = Some (word_of_le (take 2 (drop i mem)))"
  by (simp add: load_defs)

lemma load32_some [layout_simps]:
  "i + 4 \<le> length mem \<Longrightarrow> load32 mem i = Some (word_of_le (take 4 (drop i mem)))"
  by (simp add: load_defs)

lemma load64_some [layout_simps]:
  "i + 8 \<le> length mem \<Longrightarrow> load64 mem i = Some (word_of_le (take 8 (drop i mem)))"
  by (simp add: load_defs)

text \<open>A field that was laid out at offset \<open>i\<close> is what a load at \<open>i\<close> returns.\<close>

lemma load_bytes_at: "length xs = i \<Longrightarrow> length bs = n \<Longrightarrow> load_bytes n (xs @ bs @ ys) i = Some bs"
  by (auto simp: load_bytes_def)

lemma load16_at: "length xs = i \<Longrightarrow> load16 (xs @ le_bytes 2 w @ ys) i = Some w"
  by (simp add: load16_def load_bytes_at)

lemma load32_at: "length xs = i \<Longrightarrow> load32 (xs @ le_bytes 4 w @ ys) i = Some w"
  by (simp add: load32_def load_bytes_at)

lemma load64_at: "length xs = i \<Longrightarrow> load64 (xs @ le_bytes 8 w @ ys) i = Some w"
  by (simp add: load64_def load_bytes_at)

lemma store_bytes_SomeD:
  "store_bytes mem i vs = Some mem' \<Longrightarrow> length mem' = length mem \<and> i + length vs \<le> length mem"
  by (auto simp: store_bytes_def split: if_splits)

subsection \<open>Words as natural numbers\<close>

lemma unat_add_no_wrap [word_bounds]:
  fixes a b :: "'a::len word"
  assumes "unat a + unat b < 2 ^ LENGTH('a)"
  shows "unat (a + b) = unat a + unat b"
  using assms by (simp add: unat_word_ariths)

lemma unat_mult_no_wrap [word_bounds]:
  fixes a b :: "'a::len word"
  assumes "unat a * unat b < 2 ^ LENGTH('a)"
  shows "unat (a * b) = unat a * unat b"
  using assms by (simp add: unat_word_ariths)

lemma unat_drop_bit_div: "unat (drop_bit n w) = unat w div 2 ^ n"
  unfolding unat_drop_bit_eq by (rule drop_bit_eq_div)

lemma unat_Suc_no_wrap [word_bounds]:
  fixes a :: "'a::len word"
  assumes "Suc (unat a) < 2 ^ LENGTH('a)"
  shows "unat (a + 1) = Suc (unat a)"
  using assms unat_add_no_wrap [of a 1] by (cases "LENGTH('a)") auto

lemma unat_ucast_up [word_bounds]:
  fixes w :: "'a::len word"
  assumes "LENGTH('a) \<le> LENGTH('b::len)"
  shows "unat (ucast w :: 'b word) = unat w"
proof -
  have "unat w < 2 ^ LENGTH('b)"
    using unsigned_less [of w] assms by (meson order_less_le_trans one_le_numeral power_increasing)
  then show ?thesis by (simp add: unsigned_ucast_eq take_bit_nat_eq_self)
qed

lemma unat_less: "unat (w :: 'a::len word) < 2 ^ LENGTH('a)"
  by (rule unsigned_less)

lemma unat_NOT: "unat (NOT w :: 'a::len word) = 2 ^ LENGTH('a) - 1 - unat w"
proof -
  have "NOT w = - 1 - w" by (simp add: not_eq_complement)
  then show ?thesis by (simp add: unat_sub unsigned_minus_1_eq_mask mask_eq_exp_minus_1)
qed

end
