(* ===== verification/Bpf_Maps.thy ===== *)
theory Bpf_Maps
  imports Prelude
begin

section \<open>The interface to the kernel's BPF maps\<close>

text \<open>
  FalconWall keeps its state in BPF maps, which are kernel objects: both the data plane
  (\<open>wall/fw_prog.c\<close>) and the control plane (\<open>wall/fw.cpp\<close>) reach them only through
  \<open>bpf_map_lookup_elem\<close>, \<open>bpf_map_update_elem\<close>, \<open>bpf_map_delete_elem\<close> and
  \<open>bpf_map_get_next_key\<close>. Their code is not part of the repository, so a map is a record
  of operations on an abstract state \<open>'m\<close>, a parameter of every definition that uses one,
  and the locales below state the documented behaviour clients may rely on:
  \<^item> \<open>bpf_map\<close>: a value written through a looked-up pointer or by a successful update is
    what the next lookup returns; an update may evict other keys (least-recently-used maps
    do) but never changes their values;
  \<^item> \<open>bpf_hash\<close>: deletion removes exactly the key, and fails exactly when it is absent;
  \<^item> \<open>bpf_room\<close>: a hash map that takes a number of entries without evicting any;
  \<^item> \<open>bpf_array\<close>: a successful update touches no other slot;
  \<^item> \<open>bpf_enum\<close>: \<open>get_next_key\<close> walks all keys;
  \<^item> \<open>bpf_lpm\<close>: a longest-prefix-match lookup finds something exactly when a stored prefix
    covers the key.
\<close>

text \<open>
  \<open>map_poke\<close> is a store through the pointer that a lookup inside the BPF program returned;
  a return code of 0 is success, anything else an error.
\<close>

record ('k, 'v, 'm) map_ops =
  map_lookup :: "'m \<Rightarrow> 'k \<Rightarrow> 'v option"
  map_poke :: "'m \<Rightarrow> 'k \<Rightarrow> 'v \<Rightarrow> 'm"
  map_update :: "'m \<Rightarrow> 'k \<Rightarrow> 'v \<Rightarrow> int \<times> 'm"
  map_delete :: "'m \<Rightarrow> 'k \<Rightarrow> int \<times> 'm"
  map_next_key :: "'m \<Rightarrow> 'k option \<Rightarrow> 'k option"

subsection \<open>Exact-match maps\<close>

locale bpf_map =
  fixes ops :: "('k, 'v, 'm) map_ops" and wf :: "'m \<Rightarrow> bool"
  assumes wf_poke: "wf m \<Longrightarrow> map_lookup ops m k \<noteq> None \<Longrightarrow> wf (map_poke ops m k v)"
    and wf_update: "wf m \<Longrightarrow> map_update ops m k v = (r, m') \<Longrightarrow> wf m'"
    and lookup_poke: "wf m \<Longrightarrow> map_lookup ops m k \<noteq> None \<Longrightarrow>
      map_lookup ops (map_poke ops m k v) = (map_lookup ops m)(k \<mapsto> v)"
    and lookup_update: "wf m \<Longrightarrow> map_update ops m k v = (0, m') \<Longrightarrow> map_lookup ops m' k = Some v"
    and lookup_update_failed: "wf m \<Longrightarrow> map_update ops m k v = (r, m') \<Longrightarrow> r \<noteq> 0 \<Longrightarrow>
      map_lookup ops m' k = map_lookup ops m k \<or> map_lookup ops m' k = None"
    and lookup_update_other: "wf m \<Longrightarrow> map_update ops m k v = (r, m') \<Longrightarrow> j \<noteq> k \<Longrightarrow>
      map_lookup ops m' j = map_lookup ops m j \<or> map_lookup ops m' j = None"
begin

lemma wf_snd_update: "wf m \<Longrightarrow> wf (snd (map_update ops m k v))"
  by (rule wf_update) (auto simp: prod_eq_iff)

text \<open>
  A property of single entries that the writer establishes for the entry it writes is kept by
  every write: an entry after the write is the new one or an old one.
\<close>

lemma poke_entries:
  assumes "wf m" and "map_lookup ops m k \<noteq> None" and "map_lookup ops (map_poke ops m k v) j = Some w"
  shows "(j = k \<and> w = v) \<or> (j \<noteq> k \<and> map_lookup ops m j = Some w)"
  using assms by (auto simp: lookup_poke split: if_splits)

lemma update_entries:
  assumes "wf m" and "map_update ops m k v = (r, m')" and "map_lookup ops m' j = Some w"
  shows "(j = k \<and> w = v) \<or> map_lookup ops m j = Some w"
proof (cases "j = k")
  case True
  with assms show ?thesis
    by (cases "r = 0") (auto dest: lookup_update lookup_update_failed)
next
  case False
  with assms show ?thesis by (auto dest: lookup_update_other)
qed

end

locale bpf_hash = bpf_map +
  assumes wf_delete: "wf m \<Longrightarrow> map_delete ops m k = (r, m') \<Longrightarrow> wf m'"
    and lookup_delete: "wf m \<Longrightarrow> map_delete ops m k = (r, m') \<Longrightarrow>
      map_lookup ops m' = (map_lookup ops m)(k := None)"
    and delete_succeeds: "wf m \<Longrightarrow> map_delete ops m k = (r, m') \<Longrightarrow>
      r = 0 \<longleftrightarrow> map_lookup ops m k \<noteq> None"
begin

lemma wf_snd_delete: "wf m \<Longrightarrow> wf (snd (map_delete ops m k))"
  by (rule wf_delete) (auto simp: prod_eq_iff)

lemma lookup_snd_delete:
  "wf m \<Longrightarrow> map_lookup ops (snd (map_delete ops m k)) = (map_lookup ops m)(k := None)"
  by (rule lookup_delete) (auto simp: prod_eq_iff)

lemma lookup_update_delete:
  assumes "wf m" and "map_update ops m k v = (0, m1)"
  obtains m2 where "map_delete ops m1 k = (0, m2)" and "map_lookup ops m2 k = None"
    and "\<And>j. j \<noteq> k \<Longrightarrow> map_lookup ops m2 j = map_lookup ops m1 j"
proof -
  obtain r m2 where d: "map_delete ops m1 k = (r, m2)" by (metis surj_pair)
  have "wf m1" using assms by (rule wf_update)
  then show ?thesis
    using that [of m2] d assms delete_succeeds [of m1 k r m2] lookup_delete [of m1 k r m2]
      lookup_update [of m k v m1] by auto
qed

end

text \<open>
  A hash map that holds at least \<open>cap\<close> entries: an update of a key that is there, or of a new
  key while fewer than \<open>cap\<close> are, succeeds and evicts nothing. A map declared with
  \<open>max_entries\<close> may keep this promise up to that number of entries; a kernel that starts to
  evict earlier keeps it for a smaller \<open>cap\<close>.
\<close>

locale bpf_room = bpf_hash +
  fixes cap :: nat
  assumes finite_dom: "wf m \<Longrightarrow> finite (dom (map_lookup ops m))"
    and update_room: "wf m \<Longrightarrow> map_lookup ops m k \<noteq> None \<or> card (dom (map_lookup ops m)) < cap \<Longrightarrow>
      map_update ops m k v = (r, m') \<Longrightarrow> r = 0 \<and> map_lookup ops m' = (map_lookup ops m)(k \<mapsto> v)"
begin

text \<open>A new key that belongs to a set which fits into the map together with the map's keys.\<close>

lemma update_new_key:
  assumes "wf m" and "map_lookup ops m k = None" and "k \<in> A" and "finite A"
    and "card (dom (map_lookup ops m) \<union> A) \<le> cap"
  shows "map_lookup ops (snd (map_update ops m k v)) = (map_lookup ops m)(k \<mapsto> v)"
proof -
  have "dom (map_lookup ops m) \<subset> dom (map_lookup ops m) \<union> A" using assms(2,3) by auto
  then have "card (dom (map_lookup ops m)) < card (dom (map_lookup ops m) \<union> A)"
    using finite_dom [OF assms(1)] assms(4) by (intro psubset_card_mono) simp_all
  with assms(5) have "card (dom (map_lookup ops m)) < cap" by simp
  with assms(1) update_room [of m k v "fst (map_update ops m k v)" "snd (map_update ops m k v)"]
  show ?thesis by simp
qed

end

locale bpf_array = bpf_map +
  assumes lookup_update_exact: "wf m \<Longrightarrow> map_update ops m k v = (0, m') \<Longrightarrow>
      map_lookup ops m' = (map_lookup ops m)(k \<mapsto> v)"
    and update_failed: "wf m \<Longrightarrow> map_update ops m k v = (r, m') \<Longrightarrow> r \<noteq> 0 \<Longrightarrow>
      map_lookup ops m' = map_lookup ops m"

subsection \<open>Enumeration\<close>

locale bpf_enum = bpf_hash +
  fixes keys :: "'c \<Rightarrow> 'a list"
  assumes keys_distinct: "wf m \<Longrightarrow> distinct (keys m)"
    and keys_dom: "wf m \<Longrightarrow> set (keys m) = dom (map_lookup ops m)"
    and first_key: "wf m \<Longrightarrow>
      map_next_key ops m None = (case keys m of [] \<Rightarrow> None | k # _ \<Rightarrow> Some k)"
    and next_key: "wf m \<Longrightarrow> i < length (keys m) \<Longrightarrow>
      map_next_key ops m (Some (keys m ! i)) =
        (if Suc i < length (keys m) then Some (keys m ! Suc i) else None)"

subsection \<open>Longest-prefix match\<close>

text \<open>
  The key of the CIDR map. \<open>lpm_data\<close> holds an IPv4 address as it lies in memory, in network
  order, so its leading bits are the high bits of \<open>ntohl\<close> of it.
\<close>

record lpm_key =
  prefix_len :: u32
  lpm_data :: u32

definition lpm_prefix :: "lpm_key \<Rightarrow> nat \<times> u32" where
  "lpm_prefix k = (unat (prefix_len k), drop_bit (32 - unat (prefix_len k)) (ntohl (lpm_data k)))"

definition lpm_covers :: "nat \<times> u32 \<Rightarrow> lpm_key \<Rightarrow> bool" where
  "lpm_covers p k = (fst p \<le> unat (prefix_len k) \<and> drop_bit (32 - fst p) (ntohl (lpm_data k)) = snd p)"

locale bpf_lpm =
  fixes ops :: "(lpm_key, 'v, 'm) map_ops" and wf :: "'m \<Rightarrow> bool"
    and prefixes :: "'m \<Rightarrow> (nat \<times> u32) set"
  assumes wf_update: "wf m \<Longrightarrow> map_update ops m k v = (r, m') \<Longrightarrow> wf m'"
    and wf_delete: "wf m \<Longrightarrow> map_delete ops m k = (r, m') \<Longrightarrow> wf m'"
    and lookup_match: "wf m \<Longrightarrow> map_lookup ops m k \<noteq> None \<longleftrightarrow> (\<exists>p \<in> prefixes m. lpm_covers p k)"
    and prefixes_update: "wf m \<Longrightarrow> map_update ops m k v = (r, m') \<Longrightarrow>
      prefixes m' = (if r = 0 then insert (lpm_prefix k) (prefixes m) else prefixes m)"
    and prefixes_delete: "wf m \<Longrightarrow> map_delete ops m k = (r, m') \<Longrightarrow>
      prefixes m' = prefixes m - {lpm_prefix k}"
    and delete_succeeds: "wf m \<Longrightarrow> map_delete ops m k = (r, m') \<Longrightarrow>
      r = 0 \<longleftrightarrow> lpm_prefix k \<in> prefixes m"
begin

lemma lookup_after_update:
  assumes "wf m" and "map_update ops m k v = (0, m')"
  shows "map_lookup ops m' q \<noteq> None \<longleftrightarrow> lpm_covers (lpm_prefix k) q \<or> map_lookup ops m q \<noteq> None"
proof -
  have "wf m'" using assms by (rule wf_update)
  then show ?thesis
    using assms by (simp add: lookup_match prefixes_update del: not_None_eq)
qed

lemma lookup_after_delete:
  assumes "wf m" and "map_delete ops m k = (r, m')"
  shows "map_lookup ops m' q \<noteq> None \<longleftrightarrow> (\<exists>p \<in> prefixes m. p \<noteq> lpm_prefix k \<and> lpm_covers p q)"
proof -
  have "wf m'" using assms by (rule wf_delete)
  then show ?thesis
    using assms by (auto simp: lookup_match prefixes_delete simp del: not_None_eq)
qed

end

end
