(* ===== verification/Data_Plane.thy ===== *)
theory Data_Plane
  imports Bpf_Maps
begin

section \<open>The XDP data plane (wall/fw\_prog.c)\<close>

text \<open>
  The BPF program that runs on every received frame: its maps, its constants and the whole of
  \<open>fw_prog\<close>, in the order of the source. A frame is the list of its bytes between
  \<open>ctx->data\<close> and \<open>ctx->data_end\<close>; \<open>now\<close> is what \<open>bpf_ktime_get_ns\<close> returns for
  this run and \<open>cpu\<close> the CPU it runs on. A run returns the XDP verdict and the new maps, or
  \<open>None\<close> for a read outside the frame.

  The lemmas show that no run reads outside the frame, that every run decides as the abstract
  policy \<open>fw_decide\<close> does, what the sliding window computes, and what each run keeps of the
  counters and of the per-address statistics.
\<close>

subsection \<open>Maps\<close>

record ip_stats =
  window_start :: u64
  prev_packets :: u64
  packets :: u64
  prev_bytes :: u64
  bytes :: u64
  syn :: u64
  udp :: u64
  icmp :: u64

record counters =
  rx :: u64
  dropped :: u64
  passed :: u64

text \<open>The five maps: their states, and the kernel's operations on each of them.\<close>

record ('b, 'r, 's, 'c, 'p) fw_maps =
  fw_blocklist :: 'b
  fw_range_drop :: 'r
  fw_ip_stats :: 's
  fw_config :: 'c
  fw_stats :: 'p

record ('b, 'r, 's, 'c, 'p) bpf_kernel =
  block_ops :: "(u32, u64, 'b) map_ops"
  range_ops :: "(lpm_key, u64, 'r) map_ops"
  stats_ops :: "(u32, ip_stats, 's) map_ops"
  config_ops :: "(u32, u64, 'c) map_ops"
  counter_ops :: "(nat \<times> u32, counters, 'p) map_ops"

datatype xdp_action = XDP_ABORTED | XDP_DROP | XDP_PASS | XDP_TX | XDP_REDIRECT

definition ETH_P_IP :: u16 where "ETH_P_IP = 0x0800"
definition IPPROTO_ICMP :: u8 where "IPPROTO_ICMP = 1"
definition IPPROTO_TCP :: u8 where "IPPROTO_TCP = 6"
definition IPPROTO_UDP :: u8 where "IPPROTO_UDP = 17"

definition CFG_ENABLED :: u32 where "CFG_ENABLED = 0"
definition CFG_PPS :: u32 where "CFG_PPS = 1"

definition WINDOW_NS :: u64 where "WINDOW_NS = push_bit 30 1"
definition FRAC_BITS :: nat where "FRAC_BITS = 10"

definition cfg :: "('b, 'r, 's, 'c, 'p) bpf_kernel \<Rightarrow> ('b, 'r, 's, 'c, 'p) fw_maps \<Rightarrow> u32 \<Rightarrow> u64" where
  "cfg K M i = (case map_lookup (config_ops K) (fw_config M) i of Some v \<Rightarrow> v | None \<Rightarrow> 0)"

text \<open>
  \<open>if (c) c->field++\<close>: the slot of the running CPU in the per-CPU array, when the lookup
  found it.
\<close>

definition count :: "('b, 'r, 's, 'c, 'p) bpf_kernel \<Rightarrow> nat \<Rightarrow> (counters \<Rightarrow> counters) \<Rightarrow>
    ('b, 'r, 's, 'c, 'p) fw_maps \<Rightarrow> ('b, 'r, 's, 'c, 'p) fw_maps" where
  "count K cpu f M =
     (case map_lookup (counter_ops K) (fw_stats M) (cpu, 0) of
        None \<Rightarrow> M
      | Some c \<Rightarrow> M\<lparr>fw_stats := map_poke (counter_ops K) (fw_stats M) (cpu, 0) (f c)\<rparr>)"

abbreviation count_rx where "count_rx K cpu \<equiv> count K cpu (\<lambda>c. c\<lparr>rx := rx c + 1\<rparr>)"
abbreviation count_dropped where "count_dropped K cpu \<equiv> count K cpu (\<lambda>c. c\<lparr>dropped := dropped c + 1\<rparr>)"
abbreviation count_passed where "count_passed K cpu \<equiv> count K cpu (\<lambda>c. c\<lparr>passed := passed c + 1\<rparr>)"

subsection \<open>Classification of the transport header\<close>

text \<open>
  The flags \<open>is_syn\<close>, \<open>is_udp\<close> and \<open>is_icmp\<close>. The IPv4 header starts at byte 14
  (protocol at 23), the TCP header without options at 34 (flags at 47, SYN is bit 1).
\<close>

definition classify :: "bytes \<Rightarrow> (bool \<times> bool \<times> bool) option" where
  "classify pkt = do {
     vihl \<leftarrow> load8 pkt 14;
     proto \<leftarrow> load8 pkt 23;
     if vihl AND 15 = 5 then
       if proto = IPPROTO_TCP then
         if 14 + 20 + 20 \<le> length pkt then do {
           flags \<leftarrow> load8 pkt 47;
           Some (bit flags 1, False, False)
         } else Some (False, False, False)
       else if proto = IPPROTO_UDP then Some (False, True, False)
       else if proto = IPPROTO_ICMP then Some (False, False, True)
       else Some (False, False, False)
     else Some (False, False, False)
   }"

subsection \<open>Sliding window\<close>

definition roll_window :: "u64 \<Rightarrow> ip_stats \<Rightarrow> ip_stats" where
  "roll_window now s =
     (if WINDOW_NS \<le> now - window_start s
      then s\<lparr>prev_packets := packets s, prev_bytes := bytes s, packets := 0, bytes := 0,
             syn := 0, udp := 0, icmp := 0, window_start := now\<rparr>
      else s)"

fun record_packet :: "u32 \<Rightarrow> bool \<times> bool \<times> bool \<Rightarrow> ip_stats \<Rightarrow> ip_stats" where
  "record_packet len (is_syn, is_udp, is_icmp) s =
     (let s = s\<lparr>packets := packets s + 1, bytes := bytes s + ucast len\<rparr>
      in if is_syn then s\<lparr>syn := syn s + 1\<rparr>
         else if is_udp then s\<lparr>udp := udp s + 1\<rparr>
         else if is_icmp then s\<lparr>icmp := icmp s + 1\<rparr>
         else s)"

definition window_slot :: "u64 \<Rightarrow> ip_stats \<Rightarrow> u64" where
  "window_slot now s = drop_bit 20 (now - window_start s)"

definition window_rate :: "u64 \<Rightarrow> ip_stats \<Rightarrow> u64" where
  "window_rate now s =
     drop_bit FRAC_BITS (prev_packets s * (1024 - window_slot now s) + push_bit 10 (packets s))"

fun new_stats :: "u64 \<Rightarrow> u32 \<Rightarrow> bool \<times> bool \<times> bool \<Rightarrow> ip_stats" where
  "new_stats now len (is_syn, is_udp, is_icmp) =
     (let n = \<lparr>window_start = now, prev_packets = 0, packets = 1, prev_bytes = 0,
               bytes = ucast len, syn = 0, udp = 0, icmp = 0\<rparr>
      in if is_syn then n\<lparr>syn := 1\<rparr>
         else if is_udp then n\<lparr>udp := 1\<rparr>
         else if is_icmp then n\<lparr>icmp := 1\<rparr>
         else n)"

text \<open>
  Step 4 of the program: the statistics of the source are updated in place, or created; the
  result of creating them is ignored, as in the source. The value is the rate.
\<close>

definition account :: "('b, 'r, 's, 'c, 'p) bpf_kernel \<Rightarrow> u64 \<Rightarrow> u32 \<Rightarrow> u32 \<Rightarrow> bool \<times> bool \<times> bool \<Rightarrow>
    ('b, 'r, 's, 'c, 'p) fw_maps \<Rightarrow> u64 \<times> ('b, 'r, 's, 'c, 'p) fw_maps" where
  "account K now src len cls M =
     (case map_lookup (stats_ops K) (fw_ip_stats M) src of
        Some s \<Rightarrow>
          (let s' = record_packet len cls (roll_window now s)
           in (window_rate now s', M\<lparr>fw_ip_stats := map_poke (stats_ops K) (fw_ip_stats M) src s'\<rparr>))
      | None \<Rightarrow>
          (1, M\<lparr>fw_ip_stats := snd (map_update (stats_ops K) (fw_ip_stats M) src (new_stats now len cls))\<rparr>))"

subsection \<open>The program\<close>

definition rate_limit :: "('b, 'r, 's, 'c, 'p) bpf_kernel \<Rightarrow> nat \<Rightarrow> u64 \<Rightarrow> bytes \<Rightarrow> u32 \<Rightarrow> u32 \<Rightarrow>
    ('b, 'r, 's, 'c, 'p) fw_maps \<Rightarrow> (xdp_action \<times> ('b, 'r, 's, 'c, 'p) fw_maps) option" where
  "rate_limit K cpu now pkt src len M = do {
     cls \<leftarrow> classify pkt;
     let (rate, M) = account K now src len cls M;
     let pps = cfg K M CFG_PPS;
     if pps > 0 \<and> rate > pps then Some (XDP_DROP, count_dropped K cpu M)
     else Some (XDP_PASS, count_passed K cpu M)
   }"

definition range_check :: "('b, 'r, 's, 'c, 'p) bpf_kernel \<Rightarrow> nat \<Rightarrow> u64 \<Rightarrow> bytes \<Rightarrow> u32 \<Rightarrow> u32 \<Rightarrow>
    ('b, 'r, 's, 'c, 'p) fw_maps \<Rightarrow> (xdp_action \<times> ('b, 'r, 's, 'c, 'p) fw_maps) option" where
  "range_check K cpu now pkt src len M =
     (case map_lookup (range_ops K) (fw_range_drop M) \<lparr>prefix_len = 32, lpm_data = src\<rparr> of
        Some _ \<Rightarrow> Some (XDP_DROP, count_dropped K cpu M)
      | None \<Rightarrow> rate_limit K cpu now pkt src len M)"

definition mitigate :: "('b, 'r, 's, 'c, 'p) bpf_kernel \<Rightarrow> nat \<Rightarrow> u64 \<Rightarrow> bytes \<Rightarrow> u32 \<Rightarrow> u32 \<Rightarrow>
    ('b, 'r, 's, 'c, 'p) fw_maps \<Rightarrow> (xdp_action \<times> ('b, 'r, 's, 'c, 'p) fw_maps) option" where
  "mitigate K cpu now pkt src len M =
     (case map_lookup (block_ops K) (fw_blocklist M) src of
        Some exp \<Rightarrow>
          if exp = 0 \<or> now \<le> exp then Some (XDP_DROP, count_dropped K cpu M)
          else range_check K cpu now pkt src len
                 (M\<lparr>fw_blocklist := snd (map_delete (block_ops K) (fw_blocklist M) src)\<rparr>)
      | None \<Rightarrow> range_check K cpu now pkt src len M)"

definition fw_prog :: "('b, 'r, 's, 'c, 'p) bpf_kernel \<Rightarrow> nat \<Rightarrow> u64 \<Rightarrow> bytes \<Rightarrow>
    ('b, 'r, 's, 'c, 'p) fw_maps \<Rightarrow> (xdp_action \<times> ('b, 'r, 's, 'c, 'p) fw_maps) option" where
  "fw_prog K cpu now pkt M =
     (if length pkt < 14 then Some (XDP_DROP, M)
      else do {
        let M = count_rx K cpu M;
        h_proto \<leftarrow> load16 pkt 12;
        if h_proto \<noteq> htons ETH_P_IP then Some (XDP_PASS, count_passed K cpu M)
        else if length pkt < 14 + 20 then Some (XDP_DROP, count_dropped K cpu M)
        else if cfg K M CFG_ENABLED = 0 then Some (XDP_PASS, count_passed K cpu M)
        else do {
          src \<leftarrow> load32 pkt 26;
          mitigate K cpu now pkt src (of_nat (length pkt)) M
        }
      })"

subsection \<open>No read outside the frame\<close>

lemma classify_some:
  assumes "34 \<le> length pkt"
  shows "\<exists>cls. classify pkt = Some cls"
  using assms by (auto simp: classify_def layout_simps)

lemma rate_limit_some:
  assumes "34 \<le> length pkt"
  shows "\<exists>a M'. rate_limit K cpu now pkt src len M = Some (a, M') \<and> a \<in> {XDP_DROP, XDP_PASS}"
proof -
  obtain cls where "classify pkt = Some cls" using classify_some [OF assms] by blast
  then show ?thesis by (auto simp: rate_limit_def Let_def split: prod.split)
qed

lemma mitigate_some:
  assumes "34 \<le> length pkt"
  shows "\<exists>a M'. mitigate K cpu now pkt src len M = Some (a, M') \<and> a \<in> {XDP_DROP, XDP_PASS}"
  using rate_limit_some [OF assms]
  by (auto simp: mitigate_def range_check_def split: option.split)

lemma fw_prog_some:
  "\<exists>a M'. fw_prog K cpu now pkt M = Some (a, M') \<and> a \<in> {XDP_DROP, XDP_PASS}"
  using mitigate_some [of pkt]
  by (auto simp: fw_prog_def layout_simps Let_def)

subsection \<open>The sliding-window estimate\<close>

lemma window_slot_le:
  assumes "now - window_start s < WINDOW_NS"
  shows "unat (window_slot now s) \<le> 1023"
proof -
  have "unat (now - window_start s) < 2 ^ 30"
    using assms by (simp add: word_less_nat_alt WINDOW_NS_def)
  then show ?thesis by (simp add: window_slot_def unat_drop_bit_div)
qed

definition counts_fit :: "ip_stats \<Rightarrow> bool" where
  "counts_fit s = (unat (prev_packets s) + unat (packets s) < 2 ^ 54)"

text \<open>Without wrap-around, the estimate is the current count plus the weighted previous one.\<close>

lemma unat_window_rate:
  assumes "now - window_start s < WINDOW_NS" and "counts_fit s"
  shows "unat (window_rate now s) =
    unat (packets s) + unat (prev_packets s) * (1024 - unat (window_slot now s)) div 1024"
proof -
  let ?w = "1024 - unat (window_slot now s)" and ?q = "unat (prev_packets s)" and ?p = "unat (packets s)"
  have slot: "unat (window_slot now s) \<le> 1023" using assms(1) by (rule window_slot_le)
  have w: "unat (1024 - window_slot now s) = ?w"
    using slot by (subst unat_sub) (simp_all add: word_le_nat_alt)
  have sum: "?q * ?w + ?p * 1024 < 2 ^ 64"
  proof -
    have "?q * ?w + ?p * 1024 \<le> (?q + ?p) * 1024" by (simp add: algebra_simps)
    also have "\<dots> < 2 ^ 64" using assms(2) by (simp add: counts_fit_def)
    finally show ?thesis .
  qed
  have q: "unat (prev_packets s * (1024 - window_slot now s)) = ?q * ?w"
    using sum w by (simp add: unat_mult_no_wrap)
  have p: "unat (push_bit 10 (packets s)) = ?p * 1024"
    using sum unat_mult_no_wrap [of "packets s" 1024] by (simp add: push_bit_eq_mult)
  have "unat (prev_packets s * (1024 - window_slot now s) + push_bit 10 (packets s)) = ?q * ?w + ?p * 1024"
    using sum q p by (simp add: unat_add_no_wrap)
  then show ?thesis by (simp add: window_rate_def FRAC_BITS_def unat_drop_bit_div)
qed

lemma roll_window_in_window: "now - window_start (roll_window now s) < WINDOW_NS"
  by (auto simp: roll_window_def WINDOW_NS_def not_le)

lemma record_packet_window [simp]:
  "window_start (record_packet len cls s) = window_start s"
  "prev_packets (record_packet len cls s) = prev_packets s"
  "prev_bytes (record_packet len cls s) = prev_bytes s"
  "packets (record_packet len cls s) = packets s + 1"
  "bytes (record_packet len cls s) = bytes s + ucast len"
  by (cases cls; simp add: Let_def)+

lemma window_slot_record [simp]: "window_slot now (record_packet len cls s) = window_slot now s"
  by (simp add: window_slot_def)

subsection \<open>The policy the program implements\<close>

text \<open>
  What a verdict means, without the program: the reason for it, decided from the bytes of the
  frame, the contents of the maps and exact arithmetic. \<open>source_estimate\<close> is the
  sliding-window estimate as a natural number, \<open>in_prefixes\<close> says that an address lies in one
  of a set of CIDR prefixes.
\<close>

datatype reason =
  Runt | Not_ipv4 | Truncated | Disabled | Blocked | In_range | Over_limit | Allowed

fun action_of :: "reason \<Rightarrow> xdp_action" where
  "action_of Not_ipv4 = XDP_PASS"
| "action_of Disabled = XDP_PASS"
| "action_of Allowed = XDP_PASS"
| "action_of _ = XDP_DROP"

definition frame_is_ipv4 :: "bytes \<Rightarrow> bool" where
  "frame_is_ipv4 pkt = (take 2 (drop 12 pkt) = [0x08, 0x00])"

definition frame_src :: "bytes \<Rightarrow> u32" where
  "frame_src pkt = word_of_le (take 4 (drop 26 pkt))"

definition banned :: "u64 option \<Rightarrow> u64 \<Rightarrow> bool" where
  "banned expiry now = (case expiry of None \<Rightarrow> False | Some e \<Rightarrow> e = 0 \<or> now \<le> e)"

definition in_prefixes :: "(nat \<times> u32) set \<Rightarrow> u32 \<Rightarrow> bool" where
  "in_prefixes P src = (\<exists>(l, p) \<in> P. l \<le> 32 \<and> drop_bit (32 - l) (ntohl src) = p)"

definition source_estimate :: "ip_stats option \<Rightarrow> u64 \<Rightarrow> nat" where
  "source_estimate entry now =
     (case entry of
        None \<Rightarrow> 1
      | Some s \<Rightarrow>
          (let age = unat (now - window_start s)
           in if 2 ^ 30 \<le> age then Suc (unat (packets s))
              else Suc (unat (packets s)) + unat (prev_packets s) * (1024 - age div 2 ^ 20) div 1024))"

text \<open>
  What a frame that reaches the rate limiter leaves in the statistics of its source: the class
  of the frame by its bytes (a header of 20 bytes and the protocol number; TCP counts only with
  a complete header whose SYN flag is set), and the entry written out field by field, for a
  source that is in its window, one whose window is over, and one without an entry.
\<close>

datatype l4_class = L4_syn | L4_udp | L4_icmp | L4_other

definition frame_class :: "bytes \<Rightarrow> l4_class" where
  "frame_class pkt =
     (if unat (pkt ! 14) mod 16 \<noteq> 5 then L4_other
      else if pkt ! 23 = 6 \<and> 54 \<le> length pkt \<and> odd (unat (pkt ! 47) div 2) then L4_syn
      else if pkt ! 23 = 17 then L4_udp
      else if pkt ! 23 = 1 then L4_icmp
      else L4_other)"

definition stats_after :: "u64 \<Rightarrow> bytes \<Rightarrow> ip_stats option \<Rightarrow> ip_stats" where
  "stats_after now pkt entry =
     (let len = word_of_nat (length pkt mod 2 ^ 32); one = (\<lambda>c. if frame_class pkt = c then 1 else 0)
      in case entry of
        None \<Rightarrow>
          \<lparr>window_start = now, prev_packets = 0, packets = 1, prev_bytes = 0, bytes = len,
           syn = one L4_syn, udp = one L4_udp, icmp = one L4_icmp\<rparr>
      | Some s \<Rightarrow>
          if unat (now - window_start s) < 2 ^ 30
          then \<lparr>window_start = window_start s,
                prev_packets = prev_packets s, packets = packets s + 1,
                prev_bytes = prev_bytes s, bytes = bytes s + len,
                syn = syn s + one L4_syn, udp = udp s + one L4_udp, icmp = icmp s + one L4_icmp\<rparr>
          else \<lparr>window_start = now, prev_packets = packets s, packets = 1,
                prev_bytes = bytes s, bytes = len,
                syn = one L4_syn, udp = one L4_udp, icmp = one L4_icmp\<rparr>)"

text \<open>The well-formedness of the five maps and what the range and statistics maps hold.\<close>

record ('b, 'r, 's, 'c, 'p) map_view =
  wf_block :: "'b \<Rightarrow> bool"
  wf_range :: "'r \<Rightarrow> bool"
  wf_stats :: "'s \<Rightarrow> bool"
  wf_config :: "'c \<Rightarrow> bool"
  wf_count :: "'p \<Rightarrow> bool"
  view_prefixes :: "'r \<Rightarrow> (nat \<times> u32) set"
  view_keys :: "'s \<Rightarrow> u32 list"

definition wf_maps :: "('b, 'r, 's, 'c, 'p) map_view \<Rightarrow> ('b, 'r, 's, 'c, 'p) fw_maps \<Rightarrow> bool" where
  "wf_maps V M = (wf_block V (fw_blocklist M) \<and> wf_range V (fw_range_drop M) \<and>
     wf_stats V (fw_ip_stats M) \<and> wf_config V (fw_config M) \<and> wf_count V (fw_stats M))"

abbreviation blocked_until where
  "blocked_until K M \<equiv> map_lookup (block_ops K) (fw_blocklist M)"

abbreviation stats_of where
  "stats_of K M \<equiv> map_lookup (stats_ops K) (fw_ip_stats M)"

abbreviation counters_of where
  "counters_of K M \<equiv> map_lookup (counter_ops K) (fw_stats M)"

definition fw_decide :: "('b, 'r, 's, 'c, 'p) bpf_kernel \<Rightarrow> ('b, 'r, 's, 'c, 'p) map_view \<Rightarrow>
    u64 \<Rightarrow> bytes \<Rightarrow> ('b, 'r, 's, 'c, 'p) fw_maps \<Rightarrow> reason" where
  "fw_decide K V now pkt M =
     (if length pkt < 14 then Runt
      else if \<not> frame_is_ipv4 pkt then Not_ipv4
      else if length pkt < 34 then Truncated
      else if cfg K M CFG_ENABLED = 0 then Disabled
      else if banned (blocked_until K M (frame_src pkt)) now then Blocked
      else if in_prefixes (view_prefixes V (fw_range_drop M)) (frame_src pkt) then In_range
      else if cfg K M CFG_PPS \<noteq> 0 \<and>
          unat (cfg K M CFG_PPS) < source_estimate (stats_of K M (frame_src pkt)) now then Over_limit
      else Allowed)"

lemma ethertype_is_ipv4:
  assumes "14 \<le> length pkt"
  shows "word_of_le (take 2 (drop 12 pkt)) = htons ETH_P_IP \<longleftrightarrow> frame_is_ipv4 pkt"
proof -
  have "le_bytes 2 (htons ETH_P_IP) = [0x08, 0x00]"
    by (simp add: htons_def ETH_P_IP_def le_bytes_numeral)
  then show ?thesis
    using assms by (subst word_of_le_eq_iff) (simp_all add: frame_is_ipv4_def)
qed

lemma cfg_frame [simp]:
  "cfg K (M\<lparr>fw_ip_stats := x\<rparr>) i = cfg K M i"
  "cfg K (M\<lparr>fw_blocklist := y\<rparr>) i = cfg K M i"
  "cfg K (M\<lparr>fw_stats := z\<rparr>) i = cfg K M i"
  by (simp_all add: cfg_def)

lemma count_frame [simp]:
  "fw_blocklist (count K cpu f M) = fw_blocklist M"
  "fw_range_drop (count K cpu f M) = fw_range_drop M"
  "fw_ip_stats (count K cpu f M) = fw_ip_stats M"
  "fw_config (count K cpu f M) = fw_config M"
  "cfg K (count K cpu f M) i = cfg K M i"
  by (simp_all add: count_def split: option.split)

lemma account_frame [simp]:
  "fw_blocklist (snd (account K now src len cls M)) = fw_blocklist M"
  "fw_range_drop (snd (account K now src len cls M)) = fw_range_drop M"
  "fw_config (snd (account K now src len cls M)) = fw_config M"
  "fw_stats (snd (account K now src len cls M)) = fw_stats M"
  "cfg K (snd (account K now src len cls M)) i = cfg K M i"
  by (simp_all add: account_def Let_def split: option.split)

definition estimates_fit :: "ip_stats option \<Rightarrow> bool" where
  "estimates_fit entry =
     (case entry of None \<Rightarrow> True | Some s \<Rightarrow> unat (prev_packets s) + unat (packets s) + 1 < 2 ^ 54)"

lemma account_rate:
  assumes "estimates_fit (stats_of K M src)"
  shows "unat (fst (account K now src len cls M)) = source_estimate (stats_of K M src) now"
proof (cases "stats_of K M src")
  case None
  then show ?thesis by (simp add: account_def source_estimate_def)
next
  case (Some s)
  let ?s = "record_packet len cls (roll_window now s)"
  have small: "unat (prev_packets s) + unat (packets s) + 1 < 2 ^ 54"
    using assms Some by (simp add: estimates_fit_def)
  then have inc: "unat (packets s + 1) = Suc (unat (packets s))"
    by (intro unat_Suc_no_wrap) simp
  have "now - window_start ?s < WINDOW_NS"
    using roll_window_in_window by simp
  moreover have "counts_fit ?s"
    using small inc by (simp add: counts_fit_def roll_window_def)
  ultimately have "unat (window_rate now ?s) =
      unat (packets ?s) + unat (prev_packets ?s) * (1024 - unat (window_slot now ?s)) div 1024"
    by (rule unat_window_rate)
  moreover have "WINDOW_NS \<le> now - window_start s \<longleftrightarrow> 2 ^ 30 \<le> unat (now - window_start s)"
    by (simp add: WINDOW_NS_def word_le_nat_alt)
  ultimately show ?thesis
    using Some inc
    by (simp add: account_def source_estimate_def roll_window_def window_slot_def Let_def
        unat_drop_bit_div)
qed

lemma source_estimate_ge: "Suc (unat (packets s)) \<le> source_estimate (Some s) now"
  by (simp add: source_estimate_def Let_def)

lemma source_estimate_in_window:
  assumes "unat (now - window_start s) < 2 ^ 30"
  shows "source_estimate (Some s) now \<le> Suc (unat (packets s)) + unat (prev_packets s)"
proof -
  have "q * (1024 - k) div 1024 \<le> q" for q k :: nat
    by (rule div_le_mono [of "q * (1024 - k)" "q * 1024" 1024, simplified])
  with assms show ?thesis by (simp add: source_estimate_def Let_def)
qed

text \<open>The flags and the two ways of writing an entry amount to \<open>stats_after\<close>.\<close>

lemma classify_frame_class:
  assumes "34 \<le> length pkt"
  shows "classify pkt =
    Some (frame_class pkt = L4_syn, frame_class pkt = L4_udp, frame_class pkt = L4_icmp)"
proof -
  have "pkt ! 14 AND 15 = take_bit 4 (pkt ! 14)" by (simp add: take_bit_eq_mask mask_eq_exp_minus_1)
  then have "pkt ! 14 AND 15 = 5 \<longleftrightarrow> unat (pkt ! 14) mod 16 = 5"
    by (simp add: word_unat_eq_iff take_bit_eq_mod unat_mod)
  moreover have "bit (pkt ! 47) 1 \<longleftrightarrow> odd (unat (pkt ! 47) div 2)"
    using bit_unsigned_iff [where 'a = nat, of "pkt ! 47" 1] by (simp add: bit_iff_odd)
  ultimately show ?thesis
    using assms
    by (auto simp: classify_def frame_class_def layout_simps IPPROTO_TCP_def IPPROTO_UDP_def IPPROTO_ICMP_def)
qed

lemma ucast_frame_len: "(ucast (of_nat n :: u32) :: u64) = word_of_nat (n mod 2 ^ 32)"
  by (simp add: word_unat_eq_iff unat_ucast_up unat_of_nat)

lemma record_packet_stats_after:
  assumes "34 \<le> length pkt" and "classify pkt = Some cls"
  shows "record_packet (of_nat (length pkt)) cls (roll_window now s) = stats_after now pkt (Some s)"
proof -
  have "WINDOW_NS \<le> now - window_start s \<longleftrightarrow> \<not> unat (now - window_start s) < 2 ^ 30"
    by (simp add: WINDOW_NS_def word_le_nat_alt not_less)
  then show ?thesis
    using assms(2) unfolding classify_frame_class [OF assms(1)]
    by (auto simp: stats_after_def roll_window_def ucast_frame_len Let_def)
qed

lemma new_stats_stats_after:
  assumes "34 \<le> length pkt" and "classify pkt = Some cls"
  shows "new_stats now (of_nat (length pkt)) cls = stats_after now pkt None"
  using assms(2) unfolding classify_frame_class [OF assms(1)]
  by (auto simp: stats_after_def ucast_frame_len Let_def)

subsection \<open>What every run keeps\<close>

text \<open>
  The shape of a run from \<open>mitigate\<close> on: some map changes that leave the counters alone, then
  one counter. \<open>tally\<close> is the counter a verdict moves.
\<close>

definition tally :: "xdp_action \<Rightarrow> counters \<Rightarrow> counters" where
  "tally a c = (if a = XDP_DROP then c\<lparr>dropped := dropped c + 1\<rparr> else c\<lparr>passed := passed c + 1\<rparr>)"

lemma tally_eqs [simp]:
  "tally XDP_DROP = (\<lambda>c. c\<lparr>dropped := dropped c + 1\<rparr>)"
  "tally XDP_PASS = (\<lambda>c. c\<lparr>passed := passed c + 1\<rparr>)"
  by (auto simp: tally_def fun_eq_iff)

definition drop_expired :: "('b, 'r, 's, 'c, 'p) bpf_kernel \<Rightarrow> u32 \<Rightarrow>
    ('b, 'r, 's, 'c, 'p) fw_maps \<Rightarrow> ('b, 'r, 's, 'c, 'p) fw_maps" where
  "drop_expired K src M =
     (case blocked_until K M src of
        None \<Rightarrow> M
      | Some _ \<Rightarrow> M\<lparr>fw_blocklist := snd (map_delete (block_ops K) (fw_blocklist M) src)\<rparr>)"

lemma drop_expired_frame [simp]:
  "fw_range_drop (drop_expired K src M) = fw_range_drop M"
  "fw_ip_stats (drop_expired K src M) = fw_ip_stats M"
  "fw_config (drop_expired K src M) = fw_config M"
  "fw_stats (drop_expired K src M) = fw_stats M"
  "cfg K (drop_expired K src M) i = cfg K M i"
  by (simp_all add: drop_expired_def split: option.split)

lemma mitigate_unfold:
  "mitigate K cpu now pkt src len M =
     (if banned (blocked_until K M src) now then Some (XDP_DROP, count_dropped K cpu M)
      else range_check K cpu now pkt src len (drop_expired K src M))"
  by (auto simp: mitigate_def banned_def drop_expired_def split: option.split)

lemma rate_limit_unfold:
  assumes "classify pkt = Some cls"
  shows "rate_limit K cpu now pkt src len M =
    (let a = (if cfg K M CFG_PPS \<noteq> 0 \<and> cfg K M CFG_PPS < fst (account K now src len cls M)
              then XDP_DROP else XDP_PASS)
     in Some (a, count K cpu (tally a) (snd (account K now src len cls M))))"
  using assms by (simp add: rate_limit_def Let_def case_prod_beta word_neq_0_conv)

text \<open>The three ways through \<open>mitigate\<close>: banned, in a dropped range, rate-limited or passed.\<close>

lemma mitigate_cases:
  assumes "mitigate K cpu now pkt src len M = Some (a, M')"
  obtains (banned) "banned (blocked_until K M src) now" "a = XDP_DROP" "M' = count K cpu (tally a) M"
  | (range) "\<not> banned (blocked_until K M src) now" "a = XDP_DROP"
      "map_lookup (range_ops K) (fw_range_drop M) \<lparr>prefix_len = 32, lpm_data = src\<rparr> \<noteq> None"
      "M' = count K cpu (tally a) (drop_expired K src M)"
  | (rate) cls where "\<not> banned (blocked_until K M src) now" "classify pkt = Some cls"
      "map_lookup (range_ops K) (fw_range_drop M) \<lparr>prefix_len = 32, lpm_data = src\<rparr> = None"
      "a = (if cfg K M CFG_PPS \<noteq> 0 \<and>
              cfg K M CFG_PPS < fst (account K now src len cls (drop_expired K src M))
            then XDP_DROP else XDP_PASS)"
      "M' = count K cpu (tally a) (snd (account K now src len cls (drop_expired K src M)))"
proof (cases "banned (blocked_until K M src) now")
  case True
  with assms banned show ?thesis by (simp add: mitigate_unfold)
next
  case unbanned: False
  show ?thesis
  proof (cases "map_lookup (range_ops K) (fw_range_drop M) \<lparr>prefix_len = 32, lpm_data = src\<rparr>")
    case (Some v)
    with assms unbanned range show ?thesis by (simp add: mitigate_unfold range_check_def)
  next
    case None
    with assms unbanned have r: "rate_limit K cpu now pkt src len (drop_expired K src M) = Some (a, M')"
      by (simp add: mitigate_unfold range_check_def)
    then obtain cls where cls: "classify pkt = Some cls"
      by (cases "classify pkt") (auto simp: rate_limit_def)
    from r None unbanned show ?thesis
      by (intro rate [of cls]) (auto simp: rate_limit_unfold [OF cls] Let_def cls split: if_splits)
  qed
qed

lemma fw_prog_cases:
  assumes "fw_prog K cpu now pkt M = Some (a, M')"
  obtains (runt) "length pkt < 14" "a = XDP_DROP" "M' = M"
  | (early) "14 \<le> length pkt" "M' = count K cpu (tally a) (count_rx K cpu M)"
      "a = (if frame_is_ipv4 pkt \<and> length pkt < 34 then XDP_DROP else XDP_PASS)"
      "\<not> frame_is_ipv4 pkt \<or> length pkt < 34 \<or> cfg K M CFG_ENABLED = 0"
  | (mitigated) "34 \<le> length pkt" "frame_is_ipv4 pkt" "cfg K M CFG_ENABLED \<noteq> 0"
      "mitigate K cpu now pkt (frame_src pkt) (of_nat (length pkt)) (count_rx K cpu M) = Some (a, M')"
  using assms ethertype_is_ipv4 [of pkt]
  by (auto simp: fw_prog_def Let_def layout_simps frame_src_def split: if_splits)

text \<open>
  The invariant of one source's statistics after at most \<open>n\<close> packets: the classified packets
  are among the packets of the window, and no count has passed \<open>n\<close>.
\<close>

definition stats_ok :: "nat \<Rightarrow> ip_stats \<Rightarrow> bool" where
  "stats_ok n s = (unat (syn s) + unat (udp s) + unat (icmp s) \<le> unat (packets s) \<and>
     unat (packets s) \<le> n \<and> unat (prev_packets s) \<le> n)"

lemma stats_ok_mono: "stats_ok n s \<Longrightarrow> n \<le> n' \<Longrightarrow> stats_ok n' s"
  by (auto simp: stats_ok_def)

lemma stats_ok_Suc: "stats_ok n s \<Longrightarrow> stats_ok (Suc n) s"
  by (erule stats_ok_mono) simp

lemma stats_ok_new: "0 < n \<Longrightarrow> stats_ok n (new_stats now len cls)"
  by (cases cls) (auto simp: stats_ok_def Let_def)

lemma stats_ok_roll: "stats_ok n s \<Longrightarrow> stats_ok n (roll_window now s)"
  by (auto simp: stats_ok_def roll_window_def)

lemma stats_ok_record:
  assumes "stats_ok n s" and "Suc n < 2 ^ 64"
  shows "stats_ok (Suc n) (record_packet len cls s)"
proof -
  have "unat (w + 1) = Suc (unat w)" if "unat w \<le> n" for w :: u64
    using that assms(2) by (intro unat_Suc_no_wrap) simp
  with assms show ?thesis by (cases cls) (auto simp: stats_ok_def Let_def)
qed

definition stats_inv :: "('b, 'r, 's, 'c, 'p) bpf_kernel \<Rightarrow> nat \<Rightarrow> ('b, 'r, 's, 'c, 'p) fw_maps \<Rightarrow> bool" where
  "stats_inv K n M = (\<forall>ip s. stats_of K M ip = Some s \<longrightarrow> stats_ok n s)"

definition counters_inv :: "('b, 'r, 's, 'c, 'p) bpf_kernel \<Rightarrow> ('b, 'r, 's, 'c, 'p) fw_maps \<Rightarrow> bool" where
  "counters_inv K M = (\<forall>cpu c. counters_of K M (cpu, 0) = Some c \<longrightarrow> rx c = dropped c + passed c)"

locale fw_kernel =
  blk: bpf_hash "block_ops K" "wf_block V" +
  rng: bpf_lpm "range_ops K" "wf_range V" "view_prefixes V" +
  sts: bpf_enum "stats_ops K" "wf_stats V" "view_keys V" +
  cfm: bpf_array "config_ops K" "wf_config V" +
  cnt: bpf_array "counter_ops K" "wf_count V"
  for K :: "('b, 'r, 's, 'c, 'p) bpf_kernel" and V :: "('b, 'r, 's, 'c, 'p) map_view"
begin

lemma range_lookup:
  assumes "wf_range V m"
  shows "map_lookup (range_ops K) m \<lparr>prefix_len = 32, lpm_data = src\<rparr> \<noteq> None \<longleftrightarrow>
    in_prefixes (view_prefixes V m) src"
  using rng.lookup_match [OF assms]
  by (simp add: in_prefixes_def lpm_covers_def case_prod_beta del: not_None_eq)

lemma counters_of_count:
  assumes "wf_maps V M"
  shows "counters_of K (count K cpu f M) =
    (case counters_of K M (cpu, 0) of
       None \<Rightarrow> counters_of K M
     | Some c \<Rightarrow> (counters_of K M)((cpu, 0) \<mapsto> f c))"
  using assms by (auto simp: count_def wf_maps_def cnt.lookup_poke split: option.split)

lemma wf_count_maps: "wf_maps V M \<Longrightarrow> wf_maps V (count K cpu f M)"
  by (auto simp: count_def wf_maps_def cnt.wf_poke split: option.split)

lemma wf_drop_expired: "wf_maps V M \<Longrightarrow> wf_maps V (drop_expired K src M)"
  by (auto simp: drop_expired_def wf_maps_def blk.wf_snd_delete split: option.split)

lemma wf_account: "wf_maps V M \<Longrightarrow> wf_maps V (snd (account K now src len cls M))"
  by (auto simp: account_def wf_maps_def Let_def sts.wf_poke sts.wf_snd_update split: option.split)

lemma mitigate_wf:
  assumes "mitigate K cpu now pkt src len M = Some (a, M')" and "wf_maps V M"
  shows "wf_maps V M'"
  using assms(1)
  by (cases rule: mitigate_cases)
    (simp_all add: assms(2) wf_count_maps wf_drop_expired wf_account)

lemma fw_prog_wf:
  assumes "fw_prog K cpu now pkt M = Some (a, M')" and "wf_maps V M"
  shows "wf_maps V M'"
  using assms(1)
proof (cases rule: fw_prog_cases)
  case mitigated
  with assms(2) show ?thesis by (blast intro: mitigate_wf wf_count_maps)
qed (simp_all add: assms(2) wf_count_maps)

lemma blocked_drop_expired:
  assumes "wf_maps V M"
  shows "blocked_until K (drop_expired K src M) = (blocked_until K M)(src := None)"
  using assms
  by (auto simp: drop_expired_def wf_maps_def blk.lookup_snd_delete fun_upd_idem split: option.split)

lemma mitigate_counters:
  assumes "mitigate K cpu now pkt src len M = Some (a, M')" and "wf_maps V M"
  shows "counters_of K M' = counters_of K (count K cpu (tally a) M)"
  using assms(1)
proof (cases rule: mitigate_cases)
  case range
  with assms(2) show ?thesis by (simp add: counters_of_count wf_drop_expired split: option.split)
next
  case (rate cls)
  with assms(2) show ?thesis by (simp add: counters_of_count wf_drop_expired wf_account split: option.split)
qed simp

lemma fw_prog_counters:
  assumes "fw_prog K cpu now pkt M = Some (a, M')" and "wf_maps V M"
  shows "counters_of K M' =
    (case counters_of K M (cpu, 0) of
       None \<Rightarrow> counters_of K M
     | Some c \<Rightarrow> if length pkt < 14 then counters_of K M
         else (counters_of K M)((cpu, 0) \<mapsto> tally a (c\<lparr>rx := rx c + 1\<rparr>)))"
  using assms(1)
proof (cases rule: fw_prog_cases)
  case runt
  then show ?thesis by (simp split: option.split)
next
  case early
  with assms(2) show ?thesis
    by (simp add: counters_of_count wf_count_maps not_less split: option.split)
next
  case mitigated
  with assms(2) show ?thesis
    by (simp add: mitigate_counters counters_of_count wf_count_maps split: option.split)
qed

lemma fw_prog_counters_inv:
  assumes "fw_prog K cpu now pkt M = Some (a, M')" and "wf_maps V M" and "counters_inv K M"
  shows "counters_inv K M'"
  using assms(3) unfolding counters_inv_def fw_prog_counters [OF assms(1,2)]
  by (auto simp: tally_def split: option.splits if_splits)

end

text \<open>
  The decision of a run and its effect on each map, for every kernel that keeps the promises of
  \<open>fw_kernel\<close>.
\<close>

context fw_kernel
begin

lemma mitigated_decide:
  assumes "34 \<le> length pkt" and "frame_is_ipv4 pkt" and "cfg K M CFG_ENABLED \<noteq> 0"
  shows "fw_decide K V now pkt M =
    (if banned (blocked_until K M (frame_src pkt)) now then Blocked
     else if in_prefixes (view_prefixes V (fw_range_drop M)) (frame_src pkt) then In_range
     else if cfg K M CFG_PPS \<noteq> 0 \<and>
         unat (cfg K M CFG_PPS) < source_estimate (stats_of K M (frame_src pkt)) now then Over_limit
     else Allowed)"
  using assms by (simp add: fw_decide_def)

lemma fw_prog_decides:
  assumes "wf_maps V M" and "estimates_fit (stats_of K M (frame_src pkt))"
  shows "\<exists>M'. fw_prog K cpu now pkt M = Some (action_of (fw_decide K V now pkt M), M')"
proof -
  obtain a M' where run: "fw_prog K cpu now pkt M = Some (a, M')"
    using fw_prog_some by blast
  moreover from run have "a = action_of (fw_decide K V now pkt M)"
  proof (cases rule: fw_prog_cases)
    case mitigated
    have wf: "wf_range V (fw_range_drop (count_rx K cpu M))"
      using assms(1) by (simp add: wf_maps_def)
    note decide = mitigated_decide [OF mitigated(1-3)]
    from mitigated(4) show ?thesis
    proof (cases rule: mitigate_cases)
      case (rate cls)
      have "unat (fst (account K now (frame_src pkt) (of_nat (length pkt)) cls
          (drop_expired K (frame_src pkt) (count_rx K cpu M)))) =
        source_estimate (stats_of K M (frame_src pkt)) now"
        using assms(2) by (subst account_rate) simp_all
      with rate show ?thesis
        using range_lookup [OF wf, of "frame_src pkt"]
        by (simp add: decide word_less_nat_alt del: not_None_eq)
    qed (use range_lookup [OF wf] in \<open>auto simp: decide simp del: not_None_eq\<close>)
  qed (auto simp: fw_decide_def)
  ultimately show ?thesis by blast
qed

text \<open>An expired ban is no ban: the run is the one on the maps without the entry.\<close>

lemma count_blocklist:
  "count K cpu f (M\<lparr>fw_blocklist := b\<rparr>) = (count K cpu f M)\<lparr>fw_blocklist := b\<rparr>"
  by (simp add: count_def split: option.split)

lemma drop_expired_count: "drop_expired K src (count K cpu f M) = count K cpu f (drop_expired K src M)"
  by (simp add: drop_expired_def count_blocklist split: option.split)

lemma fw_prog_without_expired:
  assumes "wf_maps V M" and "34 \<le> length pkt" and "frame_is_ipv4 pkt" and "cfg K M CFG_ENABLED \<noteq> 0"
    and "\<not> banned (blocked_until K M (frame_src pkt)) now"
  shows "fw_prog K cpu now pkt M = fw_prog K cpu now pkt (drop_expired K (frame_src pkt) M)"
proof -
  let ?src = "frame_src pkt" and ?M2 = "drop_expired K (frame_src pkt) M"
  have eq: "fw_prog K cpu now pkt N = mitigate K cpu now pkt ?src (of_nat (length pkt)) (count_rx K cpu N)"
    if "cfg K N CFG_ENABLED \<noteq> 0" for N
    using that assms(2,3) ethertype_is_ipv4 [of pkt]
    by (simp add: fw_prog_def Let_def layout_simps frame_src_def)
  have gone: "blocked_until K ?M2 ?src = None"
    by (simp add: blocked_drop_expired [OF assms(1)])
  then have "drop_expired K ?src (count_rx K cpu ?M2) = count_rx K cpu ?M2"
    by (simp add: drop_expired_def)
  with gone assms(4,5) show ?thesis
    by (simp add: eq mitigate_unfold banned_def drop_expired_count)
qed

lemma fw_prog_keeps:
  assumes "fw_prog K cpu now pkt M = Some (a, M')"
  shows "fw_config M' = fw_config M" and "fw_range_drop M' = fw_range_drop M"
  using assms by (cases rule: fw_prog_cases; auto elim!: mitigate_cases)+

lemma fw_prog_blocklist:
  assumes "fw_prog K cpu now pkt M = Some (a, M')" and "wf_maps V M"
  shows "blocked_until K M' =
    (if fw_decide K V now pkt M \<in> {In_range, Over_limit, Allowed}
     then (blocked_until K M)(frame_src pkt := None) else blocked_until K M)"
  using assms(1)
proof (cases rule: fw_prog_cases)
  case mitigated
  have "wf_maps V (count_rx K cpu M)" using assms(2) by (rule wf_count_maps)
  note del = blocked_drop_expired [OF this]
  from mitigated(4) show ?thesis
    by (cases rule: mitigate_cases) (auto simp: mitigated_decide [OF mitigated(1-3)] del)
qed (auto simp: fw_decide_def)

lemma stats_of_account:
  assumes "wf_maps V M" and "stats_of K M src = Some s"
  shows "stats_of K (snd (account K now src len cls M)) =
    (stats_of K M)(src \<mapsto> record_packet len cls (roll_window now s))"
  using assms sts.lookup_poke [of "fw_ip_stats M" src]
  by (simp add: account_def wf_maps_def Let_def)

lemma account_stats_inv:
  assumes "wf_maps V M" and "stats_inv K n M" and "Suc n < 2 ^ 64"
  shows "stats_inv K (Suc n) (snd (account K now src len cls M))"
proof (cases "stats_of K M src")
  case None
  let ?new = "map_update (stats_ops K) (fw_ip_stats M) src (new_stats now len cls)"
  have "(ip = src \<and> s = new_stats now len cls) \<or> stats_of K M ip = Some s"
    if "map_lookup (stats_ops K) (snd ?new) ip = Some s" for ip s
    using assms(1) that by (intro sts.update_entries) (auto simp: wf_maps_def prod_eq_iff)
  with None assms(2) show ?thesis
    by (fastforce simp: account_def stats_inv_def intro: stats_ok_new stats_ok_Suc)
next
  case (Some s)
  with assms(2) have "stats_ok (Suc n) (record_packet len cls (roll_window now s))"
    by (auto simp: stats_inv_def intro: stats_ok_record stats_ok_roll assms(3))
  with assms Some show ?thesis
    by (auto simp: stats_inv_def stats_of_account intro: stats_ok_Suc)
qed

lemma fw_prog_stats_inv:
  assumes "fw_prog K cpu now pkt M = Some (a, M')" and "wf_maps V M"
    and "stats_inv K n M" and "Suc n < 2 ^ 64"
  shows "stats_inv K (Suc n) M'"
proof -
  have same: "stats_inv K (Suc n) M2" if "fw_ip_stats M2 = fw_ip_stats M" for M2
    using that assms(3) by (auto simp: stats_inv_def intro: stats_ok_Suc)
  from assms(1) show ?thesis
  proof (cases rule: fw_prog_cases)
    case mitigated
    from mitigated(4) show ?thesis
    proof (cases rule: mitigate_cases)
      case (rate cls)
      let ?M1 = "drop_expired K (frame_src pkt) (count_rx K cpu M)"
      have "wf_maps V ?M1" by (intro wf_drop_expired wf_count_maps assms(2))
      moreover have "stats_inv K n ?M1" using assms(3) by (simp add: stats_inv_def)
      ultimately have "stats_inv K (Suc n)
          (snd (account K now (frame_src pkt) (of_nat (length pkt)) cls ?M1))"
        using assms(4) by (rule account_stats_inv)
      with rate show ?thesis by (simp add: stats_inv_def)
    qed (simp_all add: same)
  qed (simp_all add: same)
qed

text \<open>A frame that reaches the limiter leaves the statistics as \<open>account\<close> does.\<close>

lemma fw_prog_accounts:
  assumes "fw_prog K cpu now pkt M = Some (a, M')" and "wf_maps V M"
    and "fw_decide K V now pkt M \<in> {Over_limit, Allowed}"
  obtains cls where "34 \<le> length pkt" and "classify pkt = Some cls"
    and "fw_ip_stats M' = fw_ip_stats (snd (account K now (frame_src pkt) (of_nat (length pkt)) cls M))"
  using assms(1)
proof (cases rule: fw_prog_cases)
  case mitigated
  have rng: "wf_range V (fw_range_drop (count_rx K cpu M))"
    using assms(2) by (simp add: wf_maps_def)
  from mitigated(4) show ?thesis
  proof (cases rule: mitigate_cases)
    case (rate cls)
    have "fw_ip_stats M' = fw_ip_stats (snd (account K now (frame_src pkt) (of_nat (length pkt)) cls M))"
      using rate(5) by (simp add: account_def Let_def split: option.split)
    with that [of cls] mitigated(1) rate(2) show ?thesis by blast
  qed (use assms(3) range_lookup [OF rng] in
      \<open>auto simp: mitigated_decide [OF mitigated(1-3)] simp del: not_None_eq split: if_splits\<close>)
qed (use assms(3) in \<open>auto simp: fw_decide_def split: if_splits\<close>)

lemma fw_prog_stats_of:
  assumes "fw_prog K cpu now pkt M = Some (a, M')" and "wf_maps V M"
    and "fw_decide K V now pkt M \<in> {Over_limit, Allowed}" and "stats_of K M (frame_src pkt) = Some s"
  obtains cls where "classify pkt = Some cls"
    and "stats_of K M' = (stats_of K M)
      (frame_src pkt \<mapsto> record_packet (of_nat (length pkt)) cls (roll_window now s))"
  using assms(1-3)
proof (rule fw_prog_accounts)
  fix cls
  assume cls: "classify pkt = Some cls"
    "fw_ip_stats M' = fw_ip_stats (snd (account K now (frame_src pkt) (of_nat (length pkt)) cls M))"
  with stats_of_account [OF assms(2,4)] show ?thesis by (intro that [of cls]) simp_all
qed

lemma fw_prog_stats_tracked:
  assumes "fw_prog K cpu now pkt M = Some (a, M')" and "wf_maps V M"
    and "fw_decide K V now pkt M \<in> {Over_limit, Allowed}" and "stats_of K M (frame_src pkt) = Some s"
  shows "stats_of K M' = (stats_of K M)(frame_src pkt \<mapsto> stats_after now pkt (Some s))"
  using assms(1-3)
proof (rule fw_prog_accounts)
  fix cls
  assume "34 \<le> length pkt" and "classify pkt = Some cls"
    and "fw_ip_stats M' = fw_ip_stats (snd (account K now (frame_src pkt) (of_nat (length pkt)) cls M))"
  then show ?thesis
    using stats_of_account [OF assms(2,4)] record_packet_stats_after by simp
qed

lemma fw_prog_stats_untracked:
  assumes "fw_prog K cpu now pkt M = Some (a, M')" and "wf_maps V M"
    and "fw_decide K V now pkt M \<in> {Over_limit, Allowed}" and "stats_of K M (frame_src pkt) = None"
  shows "fw_ip_stats M' =
    snd (map_update (stats_ops K) (fw_ip_stats M) (frame_src pkt) (stats_after now pkt None))"
  using assms(1-3)
proof (rule fw_prog_accounts)
  fix cls
  assume "34 \<le> length pkt" and "classify pkt = Some cls"
    and "fw_ip_stats M' = fw_ip_stats (snd (account K now (frame_src pkt) (of_nat (length pkt)) cls M))"
  then show ?thesis
    using assms(4) new_stats_stats_after by (simp add: account_def)
qed

lemma stats_update_effect:
  assumes "wf_maps V M" and "map_update (stats_ops K) (fw_ip_stats M) ip s = (r, m)"
  shows "(r = 0 \<longrightarrow> map_lookup (stats_ops K) m ip = Some s) \<and>
    (\<forall>j. j \<noteq> ip \<longrightarrow> map_lookup (stats_ops K) m j = stats_of K M j \<or> map_lookup (stats_ops K) m j = None)"
proof -
  have "wf_stats V (fw_ip_stats M)" using assms(1) by (simp add: wf_maps_def)
  then show ?thesis
    using assms(2) by (auto dest: sts.lookup_update sts.lookup_update_other)
qed

lemma fw_prog_stats_kept:
  assumes "fw_prog K cpu now pkt M = Some (a, M')" and "wf_maps V M"
    and "fw_decide K V now pkt M \<notin> {Over_limit, Allowed}"
  shows "stats_of K M' = stats_of K M"
  using assms(1)
proof (cases rule: fw_prog_cases)
  case mitigated
  have rng: "wf_range V (fw_range_drop (count_rx K cpu M))"
    using assms(2) by (simp add: wf_maps_def)
  from mitigated(4) show ?thesis
  proof (cases rule: mitigate_cases)
    case (rate cls)
    with assms(3) range_lookup [OF rng, of "frame_src pkt"] show ?thesis
      by (simp add: mitigated_decide [OF mitigated(1-3)] del: not_None_eq split: if_splits)
  qed simp_all
qed simp_all

end

end
