(* ===== verification/C_Strings.thy ===== *)
theory C_Strings
  imports Prelude
begin

section \<open>The C library's number conversions\<close>

text \<open>
  What the programs use of the C library to read numbers from command-line strings:
  \<open>strtol\<close>, \<open>strtoull\<close> and \<open>strtoul\<close> in base 10, \<open>atoi\<close>, and the \<open>%d\<close> conversion of
  \<open>sscanf\<close>. A C string is the list of its characters before the terminating NUL. On the LP64
  platforms the project runs on, \<open>long\<close> has 64 bits, and the conversions saturate. \<open>dec\<close>
  prints a number in decimal; \<open>number_dec\<close> is the round trip between the two.
\<close>

text \<open>A line on standard output or standard error, without its final newline.\<close>

datatype message = Out string | Err string

definition code :: "char \<Rightarrow> nat" where
  "code c = of_char c"

definition is_space :: "char \<Rightarrow> bool" where
  "is_space c = (code c = 32 \<or> (9 \<le> code c \<and> code c \<le> 13))"

definition is_digit :: "char \<Rightarrow> bool" where
  "is_digit c = (48 \<le> code c \<and> code c \<le> 57)"

fun number_from :: "nat \<Rightarrow> string \<Rightarrow> nat" where
  "number_from acc [] = acc"
| "number_from acc (c # cs) =
     (if is_digit c then number_from (10 * acc + (code c - 48)) cs else acc)"

abbreviation number :: "string \<Rightarrow> nat" where
  "number \<equiv> number_from 0"

definition split_sign :: "string \<Rightarrow> bool \<times> string" where
  "split_sign s =
     (case s of
        [] \<Rightarrow> (False, [])
      | c # cs \<Rightarrow> if c = CHR ''-'' then (True, cs) else if c = CHR ''+'' then (False, cs) else (False, s))"

definition signed_number :: "string \<Rightarrow> int" where
  "signed_number s =
     (case split_sign (dropWhile is_space s) of
        (neg, ds) \<Rightarrow> if neg then - int (number ds) else int (number ds))"

definition strtol :: "string \<Rightarrow> int" where
  "strtol s = max (- (2 ^ 63)) (min (2 ^ 63 - 1) (signed_number s))"

definition strtoull :: "string \<Rightarrow> u64" where
  "strtoull s =
     (case split_sign (dropWhile is_space s) of
        (neg, ds) \<Rightarrow> if 2 ^ 64 \<le> number ds then - 1
          else if neg then - of_nat (number ds) else of_nat (number ds))"

abbreviation strtoul :: "string \<Rightarrow> u64" where
  "strtoul \<equiv> strtoull"

definition atoi :: "string \<Rightarrow> int" where
  "atoi s = sint (word_of_int (strtol s) :: 32 word)"

text \<open>
  \<open>sscanf\<close>'s \<open>%d\<close>: the number it reads, or \<open>None\<close> when there is no digit. A number that
  does not fit in an \<open>int\<close> is undefined behaviour in C, so the caller says what is stored.
\<close>

definition scan_int :: "(int \<Rightarrow> int) \<Rightarrow> string \<Rightarrow> int option" where
  "scan_int overflow s =
     (case split_sign (dropWhile is_space s) of
        (neg, ds) \<Rightarrow>
          (case ds of
             [] \<Rightarrow> None
           | c # _ \<Rightarrow> if is_digit c
               then (let v = (if neg then - int (number ds) else int (number ds))
                     in Some (if - (2 ^ 31) \<le> v \<and> v < 2 ^ 31 then v else overflow v))
               else None))"

fun dec :: "nat \<Rightarrow> string" where
  "dec n = (if n < 10 then [char_of (48 + n)] else dec (n div 10) @ [char_of (48 + n mod 10)])"

declare dec.simps [simp del]

lemma code_char_of [simp]: "(n::nat) < 256 \<Longrightarrow> code (char_of n) = n"
  by (simp add: code_def of_char_of)

lemma is_digit_char_of: "(n::nat) < 10 \<Longrightarrow> is_digit (char_of (48 + n))"
  by (simp add: is_digit_def)

lemma number_from_append:
  "\<forall>c \<in> set xs. is_digit c \<Longrightarrow> number_from a (xs @ ys) = number_from (number_from a xs) ys"
  by (induction xs arbitrary: a) auto

lemma dec_digits: "\<forall>c \<in> set (dec n). is_digit c"
proof (induction n rule: dec.induct)
  case (1 n)
  then show ?case by (subst dec.simps) (auto simp: is_digit_char_of)
qed

lemma dec_not_Nil: "dec n \<noteq> []"
  by (subst dec.simps) simp

lemma number_dec: "number (dec n) = n"
proof (induction n rule: dec.induct)
  case (1 n)
  show ?case
  proof (cases "n < 10")
    case True
    then show ?thesis by (subst dec.simps) (simp add: is_digit_char_of)
  next
    case False
    with "1.IH" have "number_from (number (dec (n div 10))) [char_of (48 + n mod 10)] = n"
      by (simp add: is_digit_char_of)
    with False show ?thesis
      by (subst dec.simps) (simp only: number_from_append [OF dec_digits] if_False)
  qed
qed

lemma digit_not_sign: "is_digit c \<Longrightarrow> c \<noteq> CHR ''-'' \<and> c \<noteq> CHR ''+'' \<and> \<not> is_space c"
  by (auto simp: is_digit_def is_space_def code_def)

lemma split_sign_dec: "split_sign (dropWhile is_space (dec n)) = (False, dec n)"
proof (cases "dec n")
  case Nil
  then show ?thesis by (simp add: dec_not_Nil)
next
  case (Cons c cs)
  then have "is_digit c" using dec_digits [of n] by simp
  from digit_not_sign [OF this] show ?thesis by (simp add: Cons split_sign_def)
qed

lemma strtol_dec: "n < 2 ^ 63 \<Longrightarrow> strtol (dec n) = int n"
  by (simp add: strtol_def signed_number_def split_sign_dec number_dec)

lemma strtoull_dec: "n < 2 ^ 64 \<Longrightarrow> strtoull (dec n) = of_nat n"
  by (simp add: strtoull_def split_sign_dec number_dec)

lemma scan_int_dec:
  assumes "n < 2 ^ 31"
  shows "scan_int overflow (dec n) = Some (int n)"
proof (cases "dec n")
  case Nil
  then show ?thesis by (simp add: dec_not_Nil)
next
  case (Cons c cs)
  then have "is_digit c" using dec_digits [of n] by simp
  with assms Cons show ?thesis
    using split_sign_dec [of n] number_dec [of n] by (simp add: scan_int_def)
qed

end
