(* ===== verification/Control_Plane.thy ===== *)
theory Control_Plane
  imports Data_Plane C_Strings
begin

section \<open>The control plane's map commands (wall/fw.cpp)\<close>

text \<open>
  The helpers of \<open>fw.cpp\<close> and the commands that open a pinned map, change it and exit:
  \<open>block\<close>, \<open>unblock\<close>, \<open>range\<close>, \<open>unrange\<close>, and the configuration and statistics
  helpers of \<open>ratelimit\<close>, \<open>enable\<close>, \<open>disable\<close> and \<open>stats\<close>. A command takes the words
  after its name and the maps, and returns its exit code, what it printed and the new maps.

  What comes from outside the repository is a field of \<open>sys\<close>: \<open>bpf_obj_get\<close> on a pinned
  path, the address conversions \<open>inet_pton\<close> and \<open>inet_ntop\<close>, the text of \<open>strerror\<close>, the
  number of CPUs (negative when libbpf cannot tell it), and what \<open>%d\<close> stores for a number that does not fit in an \<open>int\<close>.
\<close>

record sys =
  obj_get :: "string \<Rightarrow> int"
  inet_pton :: "string \<Rightarrow> u32 option"
  inet_ntop :: "u32 \<Rightarrow> string"
  strerror :: string
  num_possible_cpus :: int
  scan_overflow :: "int \<Rightarrow> int"

definition quoted :: "string \<Rightarrow> string" where
  "quoted s = CHR 0x27 # s @ [CHR 0x27]"

definition pin_dir :: string where "pin_dir = ''/sys/fs/bpf/falconwall''"
definition MAP_BLOCK :: string where "MAP_BLOCK = ''fw_blocklist''"
definition MAP_RANGE :: string where "MAP_RANGE = ''fw_range_drop''"
definition MAP_IPSTATS :: string where "MAP_IPSTATS = ''fw_ip_stats''"
definition MAP_CONFIG :: string where "MAP_CONFIG = ''fw_config''"
definition MAP_STATS :: string where "MAP_STATS = ''fw_stats''"

definition MAP_NAMES :: "string list" where
  "MAP_NAMES = [MAP_BLOCK, MAP_RANGE, MAP_IPSTATS, MAP_CONFIG, MAP_STATS]"

definition pin_path :: "string \<Rightarrow> string" where
  "pin_path name = pin_dir @ ''/'' @ name"

definition get_map :: "sys \<Rightarrow> string \<Rightarrow> int \<times> message list" where
  "get_map S name =
     (let fd = obj_get S (pin_path name)
      in (fd, if fd < 0 then [Err ''error: is the daemon running? (falconwall start <iface>)''] else []))"

text \<open>\<open>now_ns\<close> of a reading of the monotonic clock, seconds and nanoseconds.\<close>

definition now_ns :: "u64 \<times> u64 \<Rightarrow> u64" where
  "now_ns ts = fst ts * 1000000000 + snd ts"

definition parse_ip :: "sys \<Rightarrow> string \<Rightarrow> u32 option" where
  "parse_ip S s = inet_pton S s"

text \<open>
  \<open>sscanf(s, "%63[^/]/%d", ipstr, &pfx)\<close> with \<open>pfx = 32\<close> before: at most 63 characters up to
  a slash, and a number after it if there is one. \<open>None\<close> is a result below 1.
\<close>

definition scan_cidr :: "sys \<Rightarrow> string \<Rightarrow> (string \<times> int) option" where
  "scan_cidr S s =
     (let ipstr = take 63 (takeWhile (\<lambda>c. c \<noteq> CHR ''/'') s); rest = drop (length ipstr) s
      in if ipstr = [] then None
         else case rest of
           [] \<Rightarrow> Some (ipstr, 32)
         | c # cs \<Rightarrow>
             if c \<noteq> CHR ''/'' then Some (ipstr, 32)
             else (case scan_int (scan_overflow S) cs of
                     None \<Rightarrow> Some (ipstr, 32) | Some v \<Rightarrow> Some (ipstr, v)))"

definition cidr_mask :: "int \<Rightarrow> u32" where
  "cidr_mask pfx = (if pfx = 0 then 0 else htonl (push_bit (nat (32 - pfx)) 0xFFFFFFFF))"

definition parse_cidr :: "sys \<Rightarrow> string \<Rightarrow> lpm_key option" where
  "parse_cidr S s =
     (case scan_cidr S s of
        None \<Rightarrow> None
      | Some (ipstr, pfx) \<Rightarrow>
          if pfx < 0 \<or> pfx > 32 then None
          else (case parse_ip S ipstr of
                  None \<Rightarrow> None
                | Some ip \<Rightarrow> Some \<lparr>prefix_len = word_of_int pfx, lpm_data = ip AND cidr_mask pfx\<rparr>))"

definition ip_to_str :: "sys \<Rightarrow> u32 \<Rightarrow> string" where
  "ip_to_str S ip = inet_ntop S ip"

definition set_config :: "('b, 'r, 's, 'c, 'p) bpf_kernel \<Rightarrow> sys \<Rightarrow> u32 \<Rightarrow> u64 \<Rightarrow>
    ('b, 'r, 's, 'c, 'p) fw_maps \<Rightarrow> int \<times> message list \<times> ('b, 'r, 's, 'c, 'p) fw_maps" where
  "set_config K S idx val M =
     (case get_map S MAP_CONFIG of
        (fd, msgs) \<Rightarrow>
          if fd < 0 then (- 1, msgs, M)
          else (case map_update (config_ops K) (fw_config M) idx val of
                  (ret, m) \<Rightarrow>
                    if ret \<noteq> 0
                    then (- 1, [Err (''error: update config['' @ dec (unat idx) @ '']: '' @ strerror S)],
                          M\<lparr>fw_config := m\<rparr>)
                    else (0, [], M\<lparr>fw_config := m\<rparr>)))"

definition block_expiry :: "u64 \<Rightarrow> int \<Rightarrow> u64" where
  "block_expiry now sec = (if sec > 0 then now + word_of_int sec * 1000000000 else 0)"

definition block_ip :: "('b, 'r, 's, 'c, 'p) bpf_kernel \<Rightarrow> u64 \<Rightarrow> u32 \<Rightarrow> int \<Rightarrow>
    ('b, 'r, 's, 'c, 'p) fw_maps \<Rightarrow> int \<times> ('b, 'r, 's, 'c, 'p) fw_maps" where
  "block_ip K now ip sec M =
     (case map_update (block_ops K) (fw_blocklist M) ip (block_expiry now sec) of
        (ret, m) \<Rightarrow> (ret, M\<lparr>fw_blocklist := m\<rparr>))"

subsection \<open>Counters\<close>

definition add_counters :: "counters \<Rightarrow> counters \<Rightarrow> counters" where
  "add_counters t c = \<lparr>rx = rx t + rx c, dropped = dropped t + dropped c, passed = passed t + passed c\<rparr>"

definition zero_counters :: counters where
  "zero_counters = \<lparr>rx = 0, dropped = 0, passed = 0\<rparr>"

definition total_counters :: "counters list \<Rightarrow> counters" where
  "total_counters vals = foldl add_counters zero_counters vals"

text \<open>A userspace lookup in the per-CPU map returns the slots of all CPUs.\<close>

definition read_counters :: "('b, 'r, 's, 'c, 'p) bpf_kernel \<Rightarrow> nat \<Rightarrow> ('b, 'r, 's, 'c, 'p) fw_maps \<Rightarrow>
    counters" where
  "read_counters K ncpu M =
     (case those (map (\<lambda>i. counters_of K M (i, 0)) [0..<ncpu]) of
        None \<Rightarrow> zero_counters | Some vals \<Rightarrow> total_counters vals)"

definition show_counters :: "string \<Rightarrow> counters \<Rightarrow> string" where
  "show_counters sep t = ''rx='' @ dec (unat (rx t)) @ sep @ ''dropped='' @ dec (unat (dropped t)) @
     sep @ ''passed='' @ dec (unat (passed t))"

text \<open>
  \<open>None\<close> is the end of the process: for a negative number of CPUs \<open>new Counters[ncpu]\<close> throws
  \<open>std::bad_array_new_length\<close>, which nothing catches.
\<close>

definition print_stats :: "('b, 'r, 's, 'c, 'p) bpf_kernel \<Rightarrow> sys \<Rightarrow> ('b, 'r, 's, 'c, 'p) fw_maps \<Rightarrow>
    message list option" where
  "print_stats K S M =
     (case get_map S MAP_STATS of
        (fd, msgs) \<Rightarrow>
          if fd < 0 then Some msgs
          else if num_possible_cpus S < 0 then None
          else Some [Out (show_counters '' '' (read_counters K (nat (num_possible_cpus S)) M))])"

subsection \<open>Commands\<close>

text \<open>
  How each of the four map commands ends: open the pinned map, apply the operation, close the
  map, report.
\<close>

definition run_on_map :: "sys \<Rightarrow> string \<Rightarrow> ('m \<Rightarrow> int \<times> 'm) \<Rightarrow> string \<Rightarrow> 'm \<Rightarrow> int \<times> message list \<times> 'm" where
  "run_on_map S name op done M =
     (case get_map S name of
        (fd, msgs) \<Rightarrow>
          if fd < 0 then (1, msgs, M)
          else (case op M of
                  (ret, M') \<Rightarrow>
                    if ret \<noteq> 0 then (1, [Err (''error: '' @ strerror S)], M')
                    else (0, [Out done], M')))"

definition update_range :: "('b, 'r, 's, 'c, 'p) bpf_kernel \<Rightarrow> lpm_key \<Rightarrow> u64 \<Rightarrow> ('b, 'r, 's, 'c, 'p) fw_maps \<Rightarrow>
    int \<times> ('b, 'r, 's, 'c, 'p) fw_maps" where
  "update_range K k v M =
     (case map_update (range_ops K) (fw_range_drop M) k v of (ret, m) \<Rightarrow> (ret, M\<lparr>fw_range_drop := m\<rparr>))"

definition delete_range :: "('b, 'r, 's, 'c, 'p) bpf_kernel \<Rightarrow> lpm_key \<Rightarrow> ('b, 'r, 's, 'c, 'p) fw_maps \<Rightarrow>
    int \<times> ('b, 'r, 's, 'c, 'p) fw_maps" where
  "delete_range K k M =
     (case map_delete (range_ops K) (fw_range_drop M) k of (ret, m) \<Rightarrow> (ret, M\<lparr>fw_range_drop := m\<rparr>))"

definition delete_block :: "('b, 'r, 's, 'c, 'p) bpf_kernel \<Rightarrow> u32 \<Rightarrow> ('b, 'r, 's, 'c, 'p) fw_maps \<Rightarrow>
    int \<times> ('b, 'r, 's, 'c, 'p) fw_maps" where
  "delete_block K ip M =
     (case map_delete (block_ops K) (fw_blocklist M) ip of (ret, m) \<Rightarrow> (ret, M\<lparr>fw_blocklist := m\<rparr>))"

definition cmd_block :: "('b, 'r, 's, 'c, 'p) bpf_kernel \<Rightarrow> sys \<Rightarrow> u64 \<times> u64 \<Rightarrow> string list \<Rightarrow>
    ('b, 'r, 's, 'c, 'p) fw_maps \<Rightarrow> int \<times> message list \<times> ('b, 'r, 's, 'c, 'p) fw_maps" where
  "cmd_block K S ts argv M =
     (case argv of
        [] \<Rightarrow> (1, [Err ''usage: falconwall block <ip> [sec]''], M)
      | a # rest \<Rightarrow>
          (case parse_ip S a of
             None \<Rightarrow> (1, [Err (''error: bad ip '' @ quoted a)], M)
           | Some ip \<Rightarrow>
               (let sec = (case rest of [] \<Rightarrow> 0 | b # _ \<Rightarrow> strtol b)
                in run_on_map S MAP_BLOCK (block_ip K (now_ns ts) ip sec)
                     (''blocked '' @ a @ (if sec > 0 then '' temporarily'' else '' permanently'')) M)))"

definition cmd_unblock :: "('b, 'r, 's, 'c, 'p) bpf_kernel \<Rightarrow> sys \<Rightarrow> string list \<Rightarrow>
    ('b, 'r, 's, 'c, 'p) fw_maps \<Rightarrow> int \<times> message list \<times> ('b, 'r, 's, 'c, 'p) fw_maps" where
  "cmd_unblock K S argv M =
     (case argv of
        [] \<Rightarrow> (1, [Err ''usage: falconwall unblock <ip>''], M)
      | a # _ \<Rightarrow>
          (case parse_ip S a of
             None \<Rightarrow> (1, [Err (''error: bad ip '' @ quoted a)], M)
           | Some ip \<Rightarrow> run_on_map S MAP_BLOCK (delete_block K ip) (''unblocked '' @ a) M))"

definition cmd_range :: "('b, 'r, 's, 'c, 'p) bpf_kernel \<Rightarrow> sys \<Rightarrow> string list \<Rightarrow>
    ('b, 'r, 's, 'c, 'p) fw_maps \<Rightarrow> int \<times> message list \<times> ('b, 'r, 's, 'c, 'p) fw_maps" where
  "cmd_range K S argv M =
     (case argv of
        [] \<Rightarrow> (1, [Err ''usage: falconwall range <cidr>''], M)
      | a # _ \<Rightarrow>
          (case parse_cidr S a of
             None \<Rightarrow> (1, [Err (''error: bad cidr '' @ quoted a)], M)
           | Some k \<Rightarrow> run_on_map S MAP_RANGE (update_range K k 1) (''dropping '' @ a) M))"

definition cmd_unrange :: "('b, 'r, 's, 'c, 'p) bpf_kernel \<Rightarrow> sys \<Rightarrow> string list \<Rightarrow>
    ('b, 'r, 's, 'c, 'p) fw_maps \<Rightarrow> int \<times> message list \<times> ('b, 'r, 's, 'c, 'p) fw_maps" where
  "cmd_unrange K S argv M =
     (case argv of
        [] \<Rightarrow> (1, [Err ''usage: falconwall unrange <cidr>''], M)
      | a # _ \<Rightarrow>
          (case parse_cidr S a of
             None \<Rightarrow> (1, [Err (''error: bad cidr '' @ quoted a)], M)
           | Some k \<Rightarrow> run_on_map S MAP_RANGE (delete_range K k) (''stopped dropping '' @ a) M))"

text \<open>
  The branches of \<open>main\<close> for \<open>ratelimit\<close>, \<open>enable\<close> and \<open>disable\<close>: what \<open>set_config\<close>
  returns is ignored.
\<close>

definition cmd_ratelimit :: "('b, 'r, 's, 'c, 'p) bpf_kernel \<Rightarrow> sys \<Rightarrow> string list \<Rightarrow>
    ('b, 'r, 's, 'c, 'p) fw_maps \<Rightarrow> int \<times> message list \<times> ('b, 'r, 's, 'c, 'p) fw_maps" where
  "cmd_ratelimit K S argv M =
     (case argv of
        [] \<Rightarrow> (1, [Err ''usage: falconwall ratelimit <pps>''], M)
      | a # _ \<Rightarrow>
          (case set_config K S CFG_PPS (strtoull a) M of
             (_, msgs, M') \<Rightarrow>
               (0, msgs @ [Out (''rate limit set to '' @ dec (unat (strtoull a)) @ '' pps'')], M')))"

definition cmd_enable :: "('b, 'r, 's, 'c, 'p) bpf_kernel \<Rightarrow> sys \<Rightarrow>
    ('b, 'r, 's, 'c, 'p) fw_maps \<Rightarrow> int \<times> message list \<times> ('b, 'r, 's, 'c, 'p) fw_maps" where
  "cmd_enable K S M =
     (case set_config K S CFG_ENABLED 1 M of
        (_, msgs, M') \<Rightarrow> (0, msgs @ [Out ''mitigation enabled''], M'))"

definition cmd_disable :: "('b, 'r, 's, 'c, 'p) bpf_kernel \<Rightarrow> sys \<Rightarrow>
    ('b, 'r, 's, 'c, 'p) fw_maps \<Rightarrow> int \<times> message list \<times> ('b, 'r, 's, 'c, 'p) fw_maps" where
  "cmd_disable K S M =
     (case set_config K S CFG_ENABLED 0 M of
        (_, msgs, M') \<Rightarrow> (0, msgs @ [Out ''mitigation disabled''], M'))"

subsection \<open>What a command does, by its exit code\<close>

lemma run_on_map_cases:
  assumes "run_on_map S name op done M = (rc, msgs, M')"
  shows "(rc = 1 \<and> M' = M) \<or> (\<exists>ret. op M = (ret, M') \<and> rc = (if ret = 0 then 0 else 1))"
  using assms by (auto simp: run_on_map_def split: prod.splits if_splits)

lemma run_on_map_ok:
  assumes "run_on_map S name op done M = (0, msgs, M')"
  shows "op M = (0, M') \<and> msgs = [Out done] \<and> \<not> obj_get S (pin_path name) < 0"
  using assms by (auto simp: run_on_map_def get_map_def Let_def split: prod.splits if_splits)

lemma cmd_block_cases:
  assumes "cmd_block K S ts argv M = (rc, msgs, M')"
  obtains (kept) "rc = 1" "M' = M"
  | (run) a rest ip ret where "argv = a # rest" "inet_pton S a = Some ip"
      "block_ip K (now_ns ts) ip (case rest of [] \<Rightarrow> 0 | b # _ \<Rightarrow> strtol b) M = (ret, M')"
      "rc = (if ret = 0 then 0 else 1)"
  using assms
  by (fastforce simp: cmd_block_def parse_ip_def Let_def split: list.splits option.splits
      dest: run_on_map_cases)

lemma cmd_unblock_cases:
  assumes "cmd_unblock K S argv M = (rc, msgs, M')"
  obtains (kept) "rc = 1" "M' = M"
  | (run) a rest ip ret where "argv = a # rest" "inet_pton S a = Some ip"
      "delete_block K ip M = (ret, M')" "rc = (if ret = 0 then 0 else 1)"
  using assms
  by (fastforce simp: cmd_unblock_def parse_ip_def split: list.splits option.splits
      dest: run_on_map_cases)

lemma cmd_range_cases:
  assumes "cmd_range K S argv M = (rc, msgs, M')"
  obtains (kept) "rc = 1" "M' = M"
  | (run) a rest k ret where "argv = a # rest" "parse_cidr S a = Some k"
      "update_range K k 1 M = (ret, M')" "rc = (if ret = 0 then 0 else 1)"
  using assms
  by (fastforce simp: cmd_range_def split: list.splits option.splits dest: run_on_map_cases)

lemma cmd_unrange_cases:
  assumes "cmd_unrange K S argv M = (rc, msgs, M')"
  obtains (kept) "rc = 1" "M' = M"
  | (run) a rest k ret where "argv = a # rest" "parse_cidr S a = Some k"
      "delete_range K k M = (ret, M')" "rc = (if ret = 0 then 0 else 1)"
  using assms
  by (fastforce simp: cmd_unrange_def split: list.splits option.splits dest: run_on_map_cases)

lemmas map_command_defs = update_range_def delete_range_def delete_block_def

subsection \<open>CIDR notation\<close>

lemma ntohl_cidr_mask:
  assumes "0 \<le> pfx" and "pfx \<le> 32"
  shows "ntohl (cidr_mask pfx) = NOT (mask (32 - nat pfx))"
proof (cases "pfx = 0")
  case True
  have "NOT (mask 32) = (0 :: u32)" by (rule bit_word_eqI) (simp add: bit_simps)
  moreover have "htonl 0 = 0" by (rule bit_word_eqI) (simp add: bit_htonl)
  ultimately show ?thesis using True by (simp add: cidr_mask_def)
next
  case False
  have "(0xFFFFFFFF :: u32) = - 1" by simp
  then have "push_bit n (0xFFFFFFFF :: u32) = NOT (mask n)" for n
    by (simp only: push_bit_minus_one_eq_not_mask)
  then show ?thesis using False assms by (simp add: cidr_mask_def nat_diff_distrib)
qed

lemma drop_bit_masked: "drop_bit n (w AND NOT (mask n)) = drop_bit n (w :: 'a::len word)"
  by (rule bit_word_eqI) (auto simp: bit_simps dest: bit_imp_le_length)

lemma parse_cidr_Some:
  assumes "parse_cidr S s = Some k"
  obtains a pfx ip where "scan_cidr S s = Some (a, int pfx)" and "pfx \<le> 32" and "inet_pton S a = Some ip"
    and "unat (prefix_len k) = pfx" and "ntohl (lpm_data k) = ntohl ip AND NOT (mask (32 - pfx))"
    and "lpm_prefix k = (pfx, drop_bit (32 - pfx) (ntohl ip))"
proof -
  obtain a pfx ip where sc: "scan_cidr S s = Some (a, pfx)" and p: "0 \<le> pfx" "pfx \<le> 32"
    and ip: "inet_pton S a = Some ip"
    and k: "k = \<lparr>prefix_len = word_of_int pfx, lpm_data = ip AND cidr_mask pfx\<rparr>"
    using assms by (auto simp: parse_cidr_def parse_ip_def split: option.splits if_splits)
  have len: "unat (prefix_len k) = nat pfx"
    using p by (simp add: k unat_eq_nat_uint take_bit_int_eq_self uint_word_of_int_eq)
  have data: "ntohl (lpm_data k) = ntohl ip AND NOT (mask (32 - nat pfx))"
    using p by (simp add: k htonl_AND ntohl_cidr_mask)
  show ?thesis
    using that [of a "nat pfx" ip] sc p ip len data
    by (simp add: lpm_prefix_def drop_bit_masked nat_le_iff del: drop_bit_and)
qed

lemma parse_cidr_scanned:
  assumes "parse_cidr S s = Some k" and "scan_cidr S s = Some (a, int n)" and "inet_pton S a = Some ip"
  shows "n \<le> 32" and "unat (prefix_len k) = n" and "ntohl (lpm_data k) = ntohl ip AND NOT (mask (32 - n))"
    and "lpm_prefix k = (n, drop_bit (32 - n) (ntohl ip))"
proof -
  obtain b pfx jp where "scan_cidr S s = Some (b, int pfx)" "pfx \<le> 32" "inet_pton S b = Some jp"
    "unat (prefix_len k) = pfx" "ntohl (lpm_data k) = ntohl jp AND NOT (mask (32 - pfx))"
    "lpm_prefix k = (pfx, drop_bit (32 - pfx) (ntohl jp))"
    using assms(1) by (rule parse_cidr_Some)
  moreover from this assms(2,3) have "pfx = n" and "jp = ip" by auto
  ultimately show "n \<le> 32" and "unat (prefix_len k) = n"
    and "ntohl (lpm_data k) = ntohl ip AND NOT (mask (32 - n))"
    and "lpm_prefix k = (n, drop_bit (32 - n) (ntohl ip))" by simp_all
qed

text \<open>The addresses the stored prefix covers are those that agree with the given one on its length.\<close>

lemma parse_cidr_covers:
  assumes "parse_cidr S s = Some k"
  obtains a pfx ip where "scan_cidr S s = Some (a, int pfx)" and "pfx \<le> 32" and "inet_pton S a = Some ip"
    and "\<And>src. lpm_covers (lpm_prefix k) \<lparr>prefix_len = 32, lpm_data = src\<rparr> \<longleftrightarrow>
      drop_bit (32 - pfx) (ntohl src) = drop_bit (32 - pfx) (ntohl ip)"
proof -
  obtain a pfx ip where "scan_cidr S s = Some (a, int pfx)" "pfx \<le> 32" "inet_pton S a = Some ip"
    and "lpm_prefix k = (pfx, drop_bit (32 - pfx) (ntohl ip))"
    using assms by (rule parse_cidr_Some)
  then show ?thesis by (intro that) (auto simp: lpm_covers_def)
qed

lemma scan_cidr_printed:
  assumes "a \<noteq> []" and "CHR ''/'' \<notin> set a" and "length a \<le> 63" and "n < 2 ^ 31"
  shows "scan_cidr S (a @ ''/'' @ dec n) = Some (a, int n)"
proof -
  have "takeWhile (\<lambda>c. c \<noteq> CHR ''/'') (a @ ''/'' @ dec n) = a"
    using assms(2) by (subst takeWhile_append2) (auto simp: takeWhile_eq_Nil_iff)
  with assms show ?thesis by (simp add: scan_cidr_def scan_int_dec)
qed

lemma scan_cidr_plain:
  assumes "a \<noteq> []" and "CHR ''/'' \<notin> set a" and "length a \<le> 63"
  shows "scan_cidr S a = Some (a, 32)"
proof -
  have "takeWhile (\<lambda>c. c \<noteq> CHR ''/'') a = a" using assms(2) by (auto simp: takeWhile_eq_all_conv)
  with assms show ?thesis by (simp add: scan_cidr_def Let_def del: takeWhile_eq_all_conv)
qed

subsection \<open>Expiry times\<close>

lemma block_expiry_permanent: "sec \<le> 0 \<Longrightarrow> block_expiry now sec = 0"
  by (simp add: block_expiry_def)

lemma unat_block_expiry:
  assumes "0 < sec" and "unat now + nat sec * 1000000000 < 2 ^ 64"
  shows "unat (block_expiry now sec) = unat now + nat sec * 1000000000"
proof -
  obtain m where m: "sec = int m" using assms(1) by (metis less_imp_le nonneg_int_cases)
  then have "unat (word_of_int sec :: u64) = m"
    using assms(2) by (simp add: unat_of_nat)
  then have "unat (word_of_int sec * 1000000000 :: u64) = m * 1000000000"
    using assms(2) m by (subst unat_mult_no_wrap) simp_all
  with assms m show ?thesis
    by (simp add: block_expiry_def unat_add_no_wrap)
qed

subsection \<open>Counters over all CPUs\<close>

lemma total_counters_fields:
  "rx (foldl add_counters t vals) = rx t + sum_list (map rx vals)"
  "dropped (foldl add_counters t vals) = dropped t + sum_list (map dropped vals)"
  "passed (foldl add_counters t vals) = passed t + sum_list (map passed vals)"
  by (induction vals arbitrary: t) (simp_all add: add_counters_def add.assoc)

lemma those_map_Some: "\<forall>x \<in> set xs. f x = Some (g x) \<Longrightarrow> those (map f xs) = Some (map g xs)"
  by (induction xs) auto

lemma read_counters_sum:
  assumes "\<forall>i < n. counters_of K M (i, 0) = Some (c i)"
  shows "read_counters K n M =
    \<lparr>rx = \<Sum>i < n. rx (c i), dropped = \<Sum>i < n. dropped (c i), passed = \<Sum>i < n. passed (c i)\<rparr>"
proof -
  have vals: "those (map (\<lambda>i. counters_of K M (i, 0)) [0..<n]) = Some (map c [0..<n])"
    using assms by (intro those_map_Some) simp
  have "sum_list (map f (map c [0..<n])) = (\<Sum>i < n. f (c i))" for f :: "counters \<Rightarrow> u64"
    by (simp add: interv_sum_list_conv_sum_set_nat comp_def lessThan_atLeast0)
  with vals show ?thesis
    by (intro counters.equality)
      (simp_all add: read_counters_def total_counters_def total_counters_fields zero_counters_def
        del: map_map)
qed

lemma those_Some_nth: "those xs = Some ys \<Longrightarrow> xs = map Some ys"
  by (induction xs arbitrary: ys) (auto split: option.splits)

lemma total_counters_balanced:
  assumes "\<forall>c \<in> set vals. rx c = dropped c + passed c"
  shows "rx (total_counters vals) = dropped (total_counters vals) + passed (total_counters vals)"
  using assms unfolding total_counters_def total_counters_fields
  by (induction vals) (auto simp: zero_counters_def algebra_simps)

end
