(* ===== verification/Detectors.thy ===== *)
theory Detectors
  imports Data_Plane
begin

section \<open>Detector plugins (wall/detector.hpp, wall/detector.cpp)\<close>

text \<open>
  The statistics as userspace reads them, the \<open>Detector\<close> interface, the registry and the four
  built-in detectors. \<open>IpStats\<close> must mirror \<open>struct ip_stats\<close> of the BPF program byte for
  byte, since the map hands over the raw value: \<open>ip_stats_bytes\<close> is the layout the BPF
  program writes, \<open>IpStats_of_bytes\<close> what the C++ structure reads from it, and
  \<open>read_ip_stats_fields\<close> shows that they agree.

  The interface's contract is the locale \<open>detector_set\<close>: a decision depends on the counts of
  the current window only, and an address that sent nothing is never an offender. The registry
  of built-in detectors is an interpretation of it.
\<close>

record IpStats =
  window_start :: u64
  prev_packets :: u64
  packets :: u64
  prev_bytes :: u64
  bytes :: u64
  syn :: u64
  udp :: u64
  icmp :: u64

subsection \<open>The map value across the kernel boundary\<close>

definition ip_stats_bytes :: "ip_stats \<Rightarrow> bytes" where
  "ip_stats_bytes s =
     le_bytes 8 (ip_stats.window_start s) @ le_bytes 8 (ip_stats.prev_packets s) @
     le_bytes 8 (ip_stats.packets s) @ le_bytes 8 (ip_stats.prev_bytes s) @
     le_bytes 8 (ip_stats.bytes s) @ le_bytes 8 (ip_stats.syn s) @
     le_bytes 8 (ip_stats.udp s) @ le_bytes 8 (ip_stats.icmp s)"

definition IpStats_of_bytes :: "bytes \<Rightarrow> IpStats option" where
  "IpStats_of_bytes v = do {
     a \<leftarrow> load64 v 0; b \<leftarrow> load64 v 8; c \<leftarrow> load64 v 16; d \<leftarrow> load64 v 24;
     e \<leftarrow> load64 v 32; f \<leftarrow> load64 v 40; g \<leftarrow> load64 v 48; h \<leftarrow> load64 v 56;
     Some \<lparr>window_start = a, prev_packets = b, packets = c, prev_bytes = d,
           bytes = e, syn = f, udp = g, icmp = h\<rparr>
   }"

definition read_ip_stats :: "ip_stats \<Rightarrow> IpStats" where
  "read_ip_stats s = the (IpStats_of_bytes (ip_stats_bytes s))"

text \<open>
  Both sides agree: reading the bytes of a value gives the same eight fields, none lost, none
  swapped.
\<close>

lemma IpStats_of_ip_stats_bytes:
  "IpStats_of_bytes (ip_stats_bytes s) =
     Some \<lparr>window_start = ip_stats.window_start s, prev_packets = ip_stats.prev_packets s,
           packets = ip_stats.packets s, prev_bytes = ip_stats.prev_bytes s,
           bytes = ip_stats.bytes s, syn = ip_stats.syn s, udp = ip_stats.udp s,
           icmp = ip_stats.icmp s\<rparr>"
proof -
  let ?f = "le_bytes 8 :: u64 \<Rightarrow> bytes"
  have at: "load64 (concat (map ?f ws)) (8 * i) = Some (ws ! i)" if "i < length ws" for ws i
  proof -
    have "concat (map ?f ws) = concat (map ?f (take i ws)) @ ?f (ws ! i) @ concat (map ?f (drop (Suc i) ws))"
      by (subst id_take_nth_drop [OF that]) simp
    moreover have "length (concat (map ?f (take i ws))) = 8 * i"
      using that by (simp add: length_concat comp_def sum_list_triv)
    ultimately show ?thesis by (simp only: load64_at)
  qed
  let ?ws = "[ip_stats.window_start s, ip_stats.prev_packets s, ip_stats.packets s,
      ip_stats.prev_bytes s, ip_stats.bytes s, ip_stats.syn s, ip_stats.udp s, ip_stats.icmp s]"
  have "ip_stats_bytes s = concat (map ?f ?ws)"
    by (simp add: ip_stats_bytes_def)
  then show ?thesis
    using at [of 0 ?ws] at [of 1 ?ws] at [of 2 ?ws] at [of 3 ?ws] at [of 4 ?ws] at [of 5 ?ws]
      at [of 6 ?ws] at [of 7 ?ws]
    by (simp add: IpStats_of_bytes_def)
qed

lemma read_ip_stats_fields [simp]:
  "window_start (read_ip_stats s) = ip_stats.window_start s"
  "prev_packets (read_ip_stats s) = ip_stats.prev_packets s"
  "packets (read_ip_stats s) = ip_stats.packets s"
  "prev_bytes (read_ip_stats s) = ip_stats.prev_bytes s"
  "bytes (read_ip_stats s) = ip_stats.bytes s"
  "syn (read_ip_stats s) = ip_stats.syn s"
  "udp (read_ip_stats s) = ip_stats.udp s"
  "icmp (read_ip_stats s) = ip_stats.icmp s"
  by (simp_all add: read_ip_stats_def IpStats_of_ip_stats_bytes)

subsection \<open>The interface and the registry\<close>

text \<open>An object of a class derived from \<open>Detector\<close>: its two virtual functions.\<close>

record detector =
  det_name :: string
  det_match :: "u32 \<Rightarrow> IpStats \<Rightarrow> bool"

type_synonym registry = "detector list"

definition registry_add :: "detector \<Rightarrow> registry \<Rightarrow> registry" where
  "registry_add d r = r @ [d]"

subsection \<open>Built-in detectors\<close>

definition RateDetector :: detector where
  "RateDetector = \<lparr>det_name = ''rate'', det_match = (\<lambda>ip s. packets s > 10000)\<rparr>"

definition SynFloodDetector :: detector where
  "SynFloodDetector =
     \<lparr>det_name = ''synflood'', det_match = (\<lambda>ip s. packets s > 50 \<and> syn s * 10 > packets s * 8)\<rparr>"

definition UdpFloodDetector :: detector where
  "UdpFloodDetector = \<lparr>det_name = ''udpflood'', det_match = (\<lambda>ip s. udp s > 5000)\<rparr>"

definition IcmpFloodDetector :: detector where
  "IcmpFloodDetector = \<lparr>det_name = ''icmpflood'', det_match = (\<lambda>ip s. icmp s > 1000)\<rparr>"

text \<open>The registrar objects of \<open>detector.cpp\<close> run in the order of their definition.\<close>

definition registered :: registry where
  "registered =
     registry_add IcmpFloodDetector (registry_add UdpFloodDetector
       (registry_add SynFloodDetector (registry_add RateDetector [])))"

lemmas detector_defs =
  RateDetector_def SynFloodDetector_def UdpFloodDetector_def IcmpFloodDetector_def

lemma registered_list:
  "registered = [RateDetector, SynFloodDetector, UdpFloodDetector, IcmpFloodDetector]"
  by (simp add: registered_def registry_add_def)

text \<open>The first registered detector that matches, as the watch loop asks for it.\<close>

definition first_match :: "registry \<Rightarrow> u32 \<Rightarrow> IpStats \<Rightarrow> detector option" where
  "first_match r ip s = find (\<lambda>d. det_match d ip s) r"

locale detector_set =
  fixes detectors :: registry
  assumes window_only: "d \<in> set detectors \<Longrightarrow>
      packets s = packets t \<Longrightarrow> syn s = syn t \<Longrightarrow> udp s = udp t \<Longrightarrow> icmp s = icmp t \<Longrightarrow>
      det_match d ip s = det_match d ip' t"
    and quiet: "d \<in> set detectors \<Longrightarrow>
      packets s = 0 \<Longrightarrow> syn s = 0 \<Longrightarrow> udp s = 0 \<Longrightarrow> icmp s = 0 \<Longrightarrow> \<not> det_match d ip s"
begin

lemma first_match_quiet:
  assumes "packets s = 0" and "syn s = 0" and "udp s = 0" and "icmp s = 0"
  shows "first_match detectors ip s = None"
  using assms quiet by (auto simp: first_match_def find_None_iff)

lemma first_match_any_ip: "first_match detectors ip s = first_match detectors ip' s"
  unfolding first_match_def using window_only [of _ s s ip ip'] by (intro find_cong) auto

lemma first_match_member: "first_match detectors ip s = Some d \<Longrightarrow> d \<in> set detectors \<and> det_match d ip s"
  by (auto simp: first_match_def find_Some_iff)

lemma first_match_None: "first_match detectors ip s = None \<longleftrightarrow> (\<forall>d \<in> set detectors. \<not> det_match d ip s)"
  by (auto simp: first_match_def find_None_iff)

end

interpretation builtin: detector_set registered
  by unfold_locales (auto simp: registered_list detector_defs)

text \<open>
  What the built-in detectors detect, in exact arithmetic: the SYN share is compared without
  wrap-around whenever the SYN packets are among the packets and fewer than \<open>2 ^ 60\<close> of them.
\<close>

lemma synflood_share:
  assumes "unat (syn s) \<le> unat (packets s)" and "unat (packets s) < 2 ^ 60"
  shows "det_match SynFloodDetector ip s \<longleftrightarrow>
    50 < unat (packets s) \<and> 8 * unat (packets s) < 10 * unat (syn s)"
proof -
  have "unat (syn s * 10) = unat (syn s) * 10"
    using assms unat_mult_no_wrap [of "syn s" 10] by simp
  moreover have "unat (packets s * 8) = unat (packets s) * 8"
    using assms unat_mult_no_wrap [of "packets s" 8] by simp
  ultimately show ?thesis
    by (simp add: SynFloodDetector_def word_less_nat_alt mult.commute)
qed

lemma first_match_registered:
  assumes "unat (syn s) \<le> unat (packets s)" and "unat (packets s) < 2 ^ 60"
  shows "first_match registered ip s \<noteq> None \<longleftrightarrow>
    10000 < unat (packets s) \<or>
    (50 < unat (packets s) \<and> 8 * unat (packets s) < 10 * unat (syn s)) \<or>
    5000 < unat (udp s) \<or> 1000 < unat (icmp s)"
proof -
  have "first_match registered ip s \<noteq> None \<longleftrightarrow> (\<exists>d \<in> set registered. det_match d ip s)"
    by (auto simp: builtin.first_match_None)
  then show ?thesis
    using synflood_share [OF assms, of ip]
    by (auto simp: registered_list RateDetector_def UdpFloodDetector_def IcmpFloodDetector_def
        word_less_nat_alt)
qed

end
