(* ===== verification/Watch.thy ===== *)
theory Watch
  imports Control_Plane Detectors
begin

section \<open>The watch loop (cmd\_watch of wall/fw.cpp)\<close>

text \<open>
  \<open>falconwall watch\<close> walks the statistics map once per second and bans every address that a
  detector matches and that is not on the blocklist. \<open>watch_visit\<close> is the body of the inner
  loop, \<open>watch_scan\<close> the inner loop itself (it follows \<open>get_next_key\<close>, so it is a partial
  function: not returning is \<open>None\<close>), \<open>cmd_watch\<close> the command. Its outer loop runs once per
  element of \<open>rounds\<close>: the clock readings of that pass (one for each banned address) and what
  the rest of the system does to the maps while the command sleeps. The data plane does not run
  during a pass.

  The lemmas show that a pass returns, that it visits every address of the statistics map, that
  it bans no address without a matching detector, and exactly what the blocklist holds
  afterwards.
\<close>

type_synonym clock = "u32 \<Rightarrow> u64 \<times> u64"

definition watch_visit :: "('b, 'r, 's, 'c, 'p) bpf_kernel \<Rightarrow> sys \<Rightarrow> registry \<Rightarrow> int \<Rightarrow> clock \<Rightarrow> u32 \<Rightarrow>
    message list \<times> ('b, 'r, 's, 'c, 'p) fw_maps \<Rightarrow> message list \<times> ('b, 'r, 's, 'c, 'p) fw_maps" where
  "watch_visit K S ds ban_sec clock key acc =
     (case acc of
        (out, M) \<Rightarrow>
          (case stats_of K M key of
             None \<Rightarrow> acc
           | Some s \<Rightarrow>
               (case blocked_until K M key of
                  Some _ \<Rightarrow> acc
                | None \<Rightarrow>
                    (case first_match ds key (read_ip_stats s) of
                       None \<Rightarrow> acc
                     | Some d \<Rightarrow>
                         (case block_ip K (now_ns (clock key)) key ban_sec M of
                            (ret, M') \<Rightarrow>
                              (if ret = 0
                               then out @ [Out (''ban '' @ ip_to_str S key @ '' ('' @ det_name d @ '')'')]
                               else out, M'))))))"

partial_function (option) watch_scan :: "('b, 'r, 's, 'c, 'p) bpf_kernel \<Rightarrow> sys \<Rightarrow> registry \<Rightarrow> int \<Rightarrow>
    clock \<Rightarrow> u32 option \<Rightarrow> message list \<times> ('b, 'r, 's, 'c, 'p) fw_maps \<Rightarrow>
    (message list \<times> ('b, 'r, 's, 'c, 'p) fw_maps) option" where
  "watch_scan K S ds ban_sec clock ko acc =
     (case ko of
        None \<Rightarrow> Some acc
      | Some key \<Rightarrow>
          watch_scan K S ds ban_sec clock
            (map_next_key (stats_ops K) (fw_ip_stats (snd (watch_visit K S ds ban_sec clock key acc))) (Some key))
            (watch_visit K S ds ban_sec clock key acc))"

definition watch_pass :: "('b, 'r, 's, 'c, 'p) bpf_kernel \<Rightarrow> sys \<Rightarrow> registry \<Rightarrow> int \<Rightarrow> clock \<Rightarrow>
    ('b, 'r, 's, 'c, 'p) fw_maps \<Rightarrow> (message list \<times> ('b, 'r, 's, 'c, 'p) fw_maps) option" where
  "watch_pass K S ds ban_sec clock M =
     watch_scan K S ds ban_sec clock (map_next_key (stats_ops K) (fw_ip_stats M) None) ([], M)"

fun watch_rounds :: "('b, 'r, 's, 'c, 'p) bpf_kernel \<Rightarrow> sys \<Rightarrow> registry \<Rightarrow> int \<Rightarrow>
    (clock \<times> (('b, 'r, 's, 'c, 'p) fw_maps \<Rightarrow> ('b, 'r, 's, 'c, 'p) fw_maps)) list \<Rightarrow>
    ('b, 'r, 's, 'c, 'p) fw_maps \<Rightarrow> (message list \<times> ('b, 'r, 's, 'c, 'p) fw_maps) option" where
  "watch_rounds K S ds ban_sec [] M = Some ([], M)"
| "watch_rounds K S ds ban_sec ((clock, sleep) # rs) M = do {
     (out, M) \<leftarrow> watch_pass K S ds ban_sec clock M;
     (out', M) \<leftarrow> watch_rounds K S ds ban_sec rs (sleep M);
     Some (out @ out', M)
   }"

definition cmd_watch :: "('b, 'r, 's, 'c, 'p) bpf_kernel \<Rightarrow> sys \<Rightarrow> registry \<Rightarrow>
    (clock \<times> (('b, 'r, 's, 'c, 'p) fw_maps \<Rightarrow> ('b, 'r, 's, 'c, 'p) fw_maps)) list \<Rightarrow> string list \<Rightarrow>
    ('b, 'r, 's, 'c, 'p) fw_maps \<Rightarrow> (int \<times> message list \<times> ('b, 'r, 's, 'c, 'p) fw_maps) option" where
  "cmd_watch K S ds rounds argv M =
     (let ban_sec = (case argv of [] \<Rightarrow> 60 | a # _ \<Rightarrow> strtol a);
          (stats_fd, msgs) = get_map S MAP_IPSTATS;
          (block_fd, msgs') = get_map S MAP_BLOCK
      in if stats_fd < 0 \<or> block_fd < 0 then Some (1, msgs @ msgs', M)
         else do {
           let sec = (if ban_sec < 0 then CHR ''-'' # dec (nat (- ban_sec)) else dec (nat ban_sec));
           let head = Out (''watching with '' @ dec (length ds) @ '' detectors, ban='' @ sec @ ''s'') #
             map (\<lambda>d. Out (''  - '' @ det_name d)) ds;
           (out, M) \<leftarrow> watch_rounds K S ds ban_sec rounds M;
           Some (0, head @ out, M)
         })"

subsection \<open>A pass over the statistics map\<close>

text \<open>An address that some detector wants banned, by its current statistics.\<close>

definition matched :: "('b, 'r, 's, 'c, 'p) bpf_kernel \<Rightarrow> registry \<Rightarrow> ('b, 'r, 's, 'c, 'p) fw_maps \<Rightarrow>
    u32 \<Rightarrow> bool" where
  "matched K ds M ip =
     (case stats_of K M ip of None \<Rightarrow> False | Some s \<Rightarrow> first_match ds ip (read_ip_stats s) \<noteq> None)"

lemma block_ip_frame:
  "fw_ip_stats (snd (block_ip K now ip sec M)) = fw_ip_stats M"
  "fw_range_drop (snd (block_ip K now ip sec M)) = fw_range_drop M"
  "fw_config (snd (block_ip K now ip sec M)) = fw_config M"
  "fw_stats (snd (block_ip K now ip sec M)) = fw_stats M"
  by (simp_all add: block_ip_def split: prod.split)

lemma watch_visit_maps:
  "snd (watch_visit K S ds ban_sec clock key (out, M)) =
     (if matched K ds M key \<and> blocked_until K M key = None
      then snd (block_ip K (now_ns (clock key)) key ban_sec M) else M)"
  by (auto simp: watch_visit_def matched_def split: option.split prod.split)

lemma watch_visit_frame:
  "fw_ip_stats (snd (watch_visit K S ds ban_sec clock key acc)) = fw_ip_stats (snd acc)"
  "fw_range_drop (snd (watch_visit K S ds ban_sec clock key acc)) = fw_range_drop (snd acc)"
  "fw_config (snd (watch_visit K S ds ban_sec clock key acc)) = fw_config (snd acc)"
  "fw_stats (snd (watch_visit K S ds ban_sec clock key acc)) = fw_stats (snd acc)"
  by (cases acc; simp add: watch_visit_maps block_ip_frame)+

abbreviation watch_visits where
  "watch_visits K S ds ban_sec clock \<equiv> foldl (\<lambda>acc key. watch_visit K S ds ban_sec clock key acc)"

lemma watch_visits_frame:
  "fw_ip_stats (snd (watch_visits K S ds ban_sec clock acc keys)) = fw_ip_stats (snd acc)"
  "fw_range_drop (snd (watch_visits K S ds ban_sec clock acc keys)) = fw_range_drop (snd acc)"
  "fw_config (snd (watch_visits K S ds ban_sec clock acc keys)) = fw_config (snd acc)"
  "fw_stats (snd (watch_visits K S ds ban_sec clock acc keys)) = fw_stats (snd acc)"
  by (induction keys arbitrary: acc) (simp_all add: watch_visit_frame)

lemma matched_frame: "fw_ip_stats M = fw_ip_stats M' \<Longrightarrow> matched K ds M = matched K ds M'"
  by (simp add: matched_def fun_eq_iff)

context fw_kernel
begin

lemma watch_scan_suffix:
  assumes "wf_stats V (fw_ip_stats (snd acc))" and "view_keys V (fw_ip_stats (snd acc)) = pre @ suf"
  shows "watch_scan K S ds ban_sec clock (case suf of [] \<Rightarrow> None | k # _ \<Rightarrow> Some k) acc =
    Some (watch_visits K S ds ban_sec clock acc suf)"
  using assms
proof (induction suf arbitrary: pre acc)
  case Nil
  then show ?case by (simp add: watch_scan.simps)
next
  case (Cons k suf)
  let ?acc = "watch_visit K S ds ban_sec clock k acc"
  have same: "fw_ip_stats (snd ?acc) = fw_ip_stats (snd acc)" by (rule watch_visit_frame)
  have "map_next_key (stats_ops K) (fw_ip_stats (snd acc)) (Some k) =
      (case suf of [] \<Rightarrow> None | k' # _ \<Rightarrow> Some k')"
    using sts.next_key [OF Cons.prems(1), of "length pre"] Cons.prems(2)
    by (cases suf) (simp_all add: nth_append)
  moreover have "watch_scan K S ds ban_sec clock (case suf of [] \<Rightarrow> None | k' # _ \<Rightarrow> Some k') ?acc =
      Some (watch_visits K S ds ban_sec clock ?acc suf)"
    using Cons.IH [of ?acc "pre @ [k]"] Cons.prems by (simp add: same)
  ultimately show ?case
    by (subst watch_scan.simps) (simp add: same)
qed

lemma watch_pass_visits:
  assumes "wf_maps V M"
  shows "watch_pass K S ds ban_sec clock M =
    Some (watch_visits K S ds ban_sec clock ([], M) (view_keys V (fw_ip_stats M)))"
proof -
  have "wf_stats V (fw_ip_stats (snd ([], M)))" using assms by (simp add: wf_maps_def)
  then show ?thesis
    using watch_scan_suffix [of "([], M)" "[]"] sts.first_key [of "fw_ip_stats M"]
    by (simp add: watch_pass_def)
qed

lemma matched_key:
  assumes "wf_maps V M" and "matched K ds M ip"
  shows "ip \<in> set (view_keys V (fw_ip_stats M))"
  using assms sts.keys_dom [of "fw_ip_stats M"] by (auto simp: matched_def wf_maps_def split: option.splits)

lemma wf_block_ip: "wf_maps V M \<Longrightarrow> wf_maps V (snd (block_ip K now ip sec M))"
  using blk.wf_snd_update [of "fw_blocklist M"]
  by (auto simp: block_ip_def wf_maps_def case_prod_beta)

lemma wf_watch_visit:
  "wf_maps V (snd acc) \<Longrightarrow> wf_maps V (snd (watch_visit K S ds ban_sec clock key acc))"
  by (cases acc) (simp add: watch_visit_maps wf_block_ip)

lemma wf_watch_visits:
  "wf_maps V (snd acc) \<Longrightarrow> wf_maps V (snd (watch_visits K S ds ban_sec clock acc keys))"
  by (induction keys arbitrary: acc) (simp_all add: wf_watch_visit)

text \<open>No ban without a matching detector: an entry after the pass is old, or a ban of the pass.\<close>

lemma block_ip_entries:
  assumes "wf_maps V M" and "blocked_until K (snd (block_ip K now ip sec M)) j = Some e"
  shows "(j = ip \<and> e = block_expiry now sec) \<or> blocked_until K M j = Some e"
  using assms by (intro blk.update_entries) (auto simp: block_ip_def wf_maps_def case_prod_beta prod_eq_iff)

lemma watch_visits_sound:
  assumes "wf_maps V (snd acc)"
    and "blocked_until K (snd (watch_visits K S ds ban_sec clock acc keys)) ip = Some e"
  shows "blocked_until K (snd acc) ip = Some e \<or>
    (matched K ds (snd acc) ip \<and> e = block_expiry (now_ns (clock ip)) ban_sec)"
  using assms
proof (induction keys arbitrary: acc)
  case Nil
  then show ?case by simp
next
  case (Cons key keys)
  let ?acc = "watch_visit K S ds ban_sec clock key acc"
  have "matched K ds (snd ?acc) = matched K ds (snd acc)"
    by (rule matched_frame) (rule watch_visit_frame)
  with Cons.IH [of ?acc] Cons.prems wf_watch_visit
  have "blocked_until K (snd ?acc) ip = Some e \<or>
      (matched K ds (snd acc) ip \<and> e = block_expiry (now_ns (clock ip)) ban_sec)"
    by simp
  then show ?case
    using Cons.prems(1) block_ip_entries [of "snd acc" "now_ns (clock key)" key ban_sec ip e]
    by (cases acc) (auto simp: watch_visit_maps split: if_splits)
qed

end

text \<open>
  The kernel with a blocklist that holds \<open>cap\<close> entries without evicting. While the listed and
  the matched addresses together fit, a pass bans exactly the matched addresses it does not
  find on the list.
\<close>

locale fw_kernel_room = fw_kernel K V + room: bpf_room "block_ops K" "wf_block V" cap
  for K :: "('b, 'r, 's, 'c, 'p) bpf_kernel" and V :: "('b, 'r, 's, 'c, 'p) map_view" and cap :: nat
begin

lemma finite_matched:
  assumes "wf_maps V M"
  shows "finite {ip. matched K ds M ip}"
  by (rule finite_subset [of _ "set (view_keys V (fw_ip_stats M))"]) (use matched_key [OF assms] in auto)

lemma watch_visit_exact:
  assumes "wf_maps V (snd acc)"
    and "card (dom (blocked_until K (snd acc)) \<union> {ip. matched K ds (snd acc) ip}) \<le> cap"
  shows "blocked_until K (snd (watch_visit K S ds ban_sec clock key acc)) =
    (if matched K ds (snd acc) key \<and> blocked_until K (snd acc) key = None
     then (blocked_until K (snd acc))(key \<mapsto> block_expiry (now_ns (clock key)) ban_sec)
     else blocked_until K (snd acc))"
proof -
  have "wf_block V (fw_blocklist (snd acc))" using assms(1) by (simp add: wf_maps_def)
  note room.update_new_key [OF this _ _ finite_matched [OF assms(1)] assms(2), of key
      "block_expiry (now_ns (clock key)) ban_sec"]
  then show ?thesis
    by (cases acc) (auto simp: watch_visit_maps block_ip_def case_prod_beta)
qed

lemma watch_visits_exact:
  assumes "wf_maps V (snd acc)"
    and "card (dom (blocked_until K (snd acc)) \<union> {ip. matched K ds (snd acc) ip}) \<le> cap"
  shows "blocked_until K (snd (watch_visits K S ds ban_sec clock acc keys)) ip =
    (if ip \<in> set keys \<and> matched K ds (snd acc) ip \<and> blocked_until K (snd acc) ip = None
     then Some (block_expiry (now_ns (clock ip)) ban_sec) else blocked_until K (snd acc) ip)"
  using assms
proof (induction keys arbitrary: acc)
  case Nil
  then show ?case by simp
next
  case (Cons key keys)
  let ?acc = "watch_visit K S ds ban_sec clock key acc"
  have m: "matched K ds (snd ?acc) = matched K ds (snd acc)"
    by (rule matched_frame) (rule watch_visit_frame)
  note one = watch_visit_exact [OF Cons.prems, of S ban_sec clock key]
  have "dom (blocked_until K (snd ?acc)) \<union> {ip. matched K ds (snd ?acc) ip} =
      dom (blocked_until K (snd acc)) \<union> {ip. matched K ds (snd acc) ip}"
    by (auto simp: m one)
  then show ?case
    using Cons.IH [of ?acc] Cons.prems wf_watch_visit [OF Cons.prems(1)] by (auto simp: m one)
qed

lemma watch_pass_bans:
  assumes "wf_maps V M" and "card (dom (blocked_until K M) \<union> {ip. matched K ds M ip}) \<le> cap"
  obtains out M' where "watch_pass K S ds ban_sec clock M = Some (out, M')"
    and "blocked_until K M' = (\<lambda>ip. if matched K ds M ip \<and> blocked_until K M ip = None
      then Some (block_expiry (now_ns (clock ip)) ban_sec) else blocked_until K M ip)"
proof -
  obtain out M' where r: "watch_visits K S ds ban_sec clock ([], M) (view_keys V (fw_ip_stats M)) = (out, M')"
    by fastforce
  have "blocked_until K M' = (\<lambda>ip. if matched K ds M ip \<and> blocked_until K M ip = None
      then Some (block_expiry (now_ns (clock ip)) ban_sec) else blocked_until K M ip)"
    using watch_visits_exact [of "([], M)" ds S ban_sec clock "view_keys V (fw_ip_stats M)"] assms
      matched_key [OF assms(1)] by (auto simp: r)
  with r show ?thesis
    using watch_pass_visits [OF assms(1)] by (intro that [of out M']) simp_all
qed

end

end
