(* ===== verification/Lifecycle.thy ===== *)
theory Lifecycle
  imports Watch
begin

section \<open>Starting, stopping and dispatching (cmd\_start and main of wall/fw.cpp)\<close>

text \<open>
  \<open>cmd_start\<close> loads the BPF object, attaches the program (native mode first, generic mode as
  a fallback), pins the maps, enables mitigation, prints counters until a signal arrives and
  takes everything down again. The outcomes of the calls into libbpf and the kernel are the
  fields of \<open>host\<close>; the command is the list of the effects it has, with its exit code and the
  maps, and \<open>ticks\<close> are the maps it sees in each turn of its loop before the signal. The maps
  are those of the object that it loads; a signal that kills the process instead of ending the
  loop is not modelled.

  When libbpf reports a negative number of CPUs, the array of counters cannot be allocated and
  an uncaught exception ends the process: the effect \<open>Abort\<close> and \<open>abort_status\<close>, what a
  shell reports for it.

  \<open>resources\<close> are what the command holds outside its process; \<open>after\<close> applies an effect to
  them. The lemmas compute what is left of them on every path of the command.
\<close>

datatype attach_mode = DRV_MODE | SKB_MODE

record host =
  if_nametoindex :: "string \<Rightarrow> int"
  object_opens :: "string \<Rightarrow> bool"
  object_loads :: bool
  has_program :: bool
  xdp_attach :: "attach_mode \<Rightarrow> int"
  xdp_detach :: "attach_mode \<Rightarrow> int"
  has_map :: "string \<Rightarrow> bool"
  unlink_before :: "string \<Rightarrow> int"
  pin_result :: "string \<Rightarrow> int"
  unlink_at_end :: "string \<Rightarrow> int"
  stats_map_fd :: int

text \<open>The effects; for a call whose result the code ignores, the result is part of the effect.\<close>

datatype effect =
    Open_object string
  | Load_object
  | Close_object
  | Attach int attach_mode
  | Detach int attach_mode int
  | Mkdir string
  | Unlink string int
  | Pin string
  | Print message
  | Abort

definition abort_status :: int where "abort_status = 134"

definition FW_OBJ_PATH :: string where "FW_OBJ_PATH = ''./fw_prog.o''"

definition usage :: "message list" where
  "usage = map Out
     [''FalconWall XDP DDoS Mitigator'',
      '''',
      ''Usage:'',
      ''  falconwall start <iface> [-o obj]   load + attach + pin + live stats'',
      ''  falconwall watch [sec]              run detector plugins, auto-ban (default 60s)'',
      ''  falconwall block <ip> [sec]         block an IP (sec=0 or omitted = permanent)'',
      ''  falconwall unblock <ip>             unblock an IP'',
      ''  falconwall range <cidr>             drop a subnet (e.g. 10.0.0.0/8)'',
      ''  falconwall unrange <cidr>           remove a dropped subnet'',
      ''  falconwall ratelimit <pps>          per-IP rate limit (0 = off)'',
      ''  falconwall enable                   enable mitigation'',
      ''  falconwall disable                  disable mitigation'',
      ''  falconwall stats                    print counters once'']"

fun start_args :: "string list \<Rightarrow> string \<times> string \<Rightarrow> string \<times> string" where
  "start_args [] (ifname, obj) = (ifname, obj)"
| "start_args [a] (ifname, obj) = (if ifname = [] then a else ifname, obj)"
| "start_args (a # b # rest) (ifname, obj) =
     (if a = ''-o'' then start_args rest (ifname, b)
      else start_args (b # rest) (if ifname = [] then a else ifname, obj))"

text \<open>Pinning one map: a missing map and a failed pin are warnings.\<close>

definition pin_map :: "host \<Rightarrow> sys \<Rightarrow> string \<Rightarrow> effect list" where
  "pin_map E S name =
     (if \<not> has_map E name then [Print (Err (''warning: map '' @ quoted name @ '' missing''))]
      else if pin_result E name \<noteq> 0
      then [Unlink (pin_path name) (unlink_before E name),
            Print (Err (''warning: pin '' @ quoted name @ '' failed: '' @ strerror S))]
      else [Unlink (pin_path name) (unlink_before E name), Pin (pin_path name)])"

definition tick_line :: "('b, 'r, 's, 'c, 'p) bpf_kernel \<Rightarrow> host \<Rightarrow> sys \<Rightarrow> ('b, 'r, 's, 'c, 'p) fw_maps \<Rightarrow>
    effect" where
  "tick_line K E S M =
     Print (Out (CHR 0x0D # show_counters ''  ''
       (if stats_map_fd E \<ge> 0 then read_counters K (nat (num_possible_cpus S)) M else zero_counters) @ ''     ''))"

definition start_attached :: "('b, 'r, 's, 'c, 'p) bpf_kernel \<Rightarrow> host \<Rightarrow> sys \<Rightarrow> string \<Rightarrow> int \<Rightarrow>
    attach_mode \<Rightarrow> ('b, 'r, 's, 'c, 'p) fw_maps list \<Rightarrow> ('b, 'r, 's, 'c, 'p) fw_maps \<Rightarrow>
    int \<times> effect list \<times> ('b, 'r, 's, 'c, 'p) fw_maps" where
  "start_attached K E S ifname ifindex flags ticks M =
     (case set_config K S CFG_ENABLED 1 M of
        (_, msgs, M') \<Rightarrow>
          (let up =
             Print (Out (if flags = SKB_MODE then ''attached in SKB (generic) mode''
                         else ''attached in DRV (native) mode'')) #
             Mkdir pin_dir # concat (map (pin_map E S) MAP_NAMES) @
             map Print msgs @
             [Print (Out (''running on '' @ ifname @ [CHR 0x20, CHR 0xE2, CHR 0x80, CHR 0x94] @ '' Ctrl+C to stop''))]
           in if num_possible_cpus S < 0 then (abort_status, up @ [Abort], M')
              else
                (0,
                 up @ map (tick_line K E S) ticks @
                 Print (Out (CHR 0x0A # ''stopping...'')) # Detach ifindex flags (xdp_detach E flags) #
                 map (\<lambda>name. Unlink (pin_path name) (unlink_at_end E name)) MAP_NAMES @ [Close_object],
                 M')))"

definition cmd_start :: "('b, 'r, 's, 'c, 'p) bpf_kernel \<Rightarrow> host \<Rightarrow> sys \<Rightarrow>
    ('b, 'r, 's, 'c, 'p) fw_maps list \<Rightarrow> string list \<Rightarrow> ('b, 'r, 's, 'c, 'p) fw_maps \<Rightarrow>
    int \<times> effect list \<times> ('b, 'r, 's, 'c, 'p) fw_maps" where
  "cmd_start K E S ticks argv M =
     (case start_args argv ('''', FW_OBJ_PATH) of
        (ifname, obj) \<Rightarrow>
          if ifname = [] then (1, map Print usage, M)
          else if if_nametoindex E ifname = 0
          then (1, [Print (Err (''error: no such interface '' @ quoted ifname))], M)
          else if \<not> object_opens E obj
          then (1, [Print (Err (''error: open '' @ quoted obj @ '' failed''))], M)
          else if \<not> object_loads E
          then (1, [Open_object obj, Print (Err ''error: load failed''), Close_object], M)
          else if \<not> has_program E
          then (1, [Open_object obj, Load_object,
                    Print (Err (''error: no '' @ quoted ''fw_prog'' @ '' section in object'')), Close_object], M)
          else if xdp_attach E DRV_MODE = 0 then
            (case start_attached K E S ifname (if_nametoindex E ifname) DRV_MODE ticks M of
               (rc, fx, M') \<Rightarrow>
                 (rc, [Open_object obj, Load_object, Attach (if_nametoindex E ifname) DRV_MODE] @ fx, M'))
          else if xdp_attach E SKB_MODE = 0 then
            (case start_attached K E S ifname (if_nametoindex E ifname) SKB_MODE ticks M of
               (rc, fx, M') \<Rightarrow>
                 (rc, [Open_object obj, Load_object, Attach (if_nametoindex E ifname) SKB_MODE] @ fx, M'))
          else (1, [Open_object obj, Load_object,
                    Print (Err (''error: attach failed: '' @ strerror S)), Close_object], M))"

subsection \<open>Dispatch\<close>

definition printed :: "int \<times> message list \<times> 'm \<Rightarrow> (int \<times> effect list \<times> 'm) option" where
  "printed r = (case r of (rc, msgs, M) \<Rightarrow> Some (rc, map Print msgs, M))"

definition wall_main :: "('b, 'r, 's, 'c, 'p) bpf_kernel \<Rightarrow> host \<Rightarrow> sys \<Rightarrow> registry \<Rightarrow>
    (clock \<times> (('b, 'r, 's, 'c, 'p) fw_maps \<Rightarrow> ('b, 'r, 's, 'c, 'p) fw_maps)) list \<Rightarrow>
    ('b, 'r, 's, 'c, 'p) fw_maps list \<Rightarrow> u64 \<times> u64 \<Rightarrow> string list \<Rightarrow>
    ('b, 'r, 's, 'c, 'p) fw_maps \<Rightarrow> (int \<times> effect list \<times> ('b, 'r, 's, 'c, 'p) fw_maps) option" where
  "wall_main K E S ds rounds ticks ts argv M =
     (case argv of
        _ # cmd # v \<Rightarrow>
          if cmd = ''start'' then Some (cmd_start K E S ticks v M)
          else if cmd = ''watch'' then Option.bind (cmd_watch K S ds rounds v M) printed
          else if cmd = ''block'' then printed (cmd_block K S ts v M)
          else if cmd = ''unblock'' then printed (cmd_unblock K S v M)
          else if cmd = ''range'' then printed (cmd_range K S v M)
          else if cmd = ''unrange'' then printed (cmd_unrange K S v M)
          else if cmd = ''ratelimit'' then printed (cmd_ratelimit K S v M)
          else if cmd = ''enable'' then printed (cmd_enable K S M)
          else if cmd = ''disable'' then printed (cmd_disable K S M)
          else if cmd = ''stats'' then
            (case print_stats K S M of
               None \<Rightarrow> Some (abort_status, [Abort], M)
             | Some msgs \<Rightarrow> Some (0, map Print msgs, M))
          else if cmd = ''help'' \<or> cmd = ''-h'' \<or> cmd = ''--help'' then Some (0, map Print usage, M)
          else Some (1, map Print usage, M)
      | _ \<Rightarrow> Some (1, map Print usage, M))"

subsection \<open>Resources\<close>

text \<open>
  An interface has one program per mode, so attaching replaces one that is there. The objects
  are counted from opening to closing; the kernel takes those of an aborted process.
\<close>

record resources =
  attached :: "(int \<times> attach_mode) set"
  objects :: nat
  pins :: "string set"

fun after :: "effect \<Rightarrow> resources \<Rightarrow> resources" where
  "after (Open_object _) r = r\<lparr>objects := Suc (objects r)\<rparr>"
| "after Close_object r = r\<lparr>objects := objects r - 1\<rparr>"
| "after (Attach i m) r = r\<lparr>attached := insert (i, m) (attached r)\<rparr>"
| "after (Detach i m ret) r = (if ret = 0 then r\<lparr>attached := attached r - {(i, m)}\<rparr> else r)"
| "after (Unlink p ret) r = (if ret = 0 then r\<lparr>pins := pins r - {p}\<rparr> else r)"
| "after (Pin p) r = r\<lparr>pins := insert p (pins r)\<rparr>"
| "after _ r = r"

abbreviation after_all :: "effect list \<Rightarrow> resources \<Rightarrow> resources" where
  "after_all fx r \<equiv> fold after fx r"

text \<open>The paths that pinning removes and makes, and those that the end of the command removes.\<close>

definition repinned :: "host \<Rightarrow> string list \<Rightarrow> string set \<Rightarrow> string set" where
  "repinned E names P =
     P - {pin_path n | n. n \<in> set names \<and> has_map E n \<and> unlink_before E n = 0} \<union>
     {pin_path n | n. n \<in> set names \<and> has_map E n \<and> pin_result E n = 0}"

definition unpinned :: "host \<Rightarrow> string list \<Rightarrow> string set" where
  "unpinned E names = {pin_path n | n. n \<in> set names \<and> unlink_at_end E n = 0}"

lemma after_prints [simp]: "after_all (map Print msgs) r = r"
  by (induction msgs) auto

lemma after_ticks [simp]: "after_all (map (tick_line K E S) ticks) r = r"
  by (induction ticks) (auto simp: tick_line_def)

lemma after_unlinks:
  "after_all (map (\<lambda>name. Unlink (pin_path name) (unlink_at_end E name)) names) r =
     r\<lparr>pins := pins r - unpinned E names\<rparr>"
proof (induction names arbitrary: r)
  case (Cons name names)
  have "unpinned E (name # names) =
      (if unlink_at_end E name = 0 then {pin_path name} else {}) \<union> unpinned E names"
    by (auto simp: unpinned_def)
  with Cons.IH show ?case by (simp add: Diff_eq Int_assoc)
qed (simp add: unpinned_def)

lemma pin_path_inj [simp]: "pin_path a = pin_path b \<longleftrightarrow> a = b"
  by (simp add: pin_path_def)

lemma after_pin_maps:
  "distinct names \<Longrightarrow>
     after_all (concat (map (pin_map E S) names)) r = r\<lparr>pins := repinned E names (pins r)\<rparr>"
proof (induction names arbitrary: r)
  case (Cons name names)
  have "after_all (pin_map E S name) r = r\<lparr>pins := repinned E [name] (pins r)\<rparr>"
    by (auto simp: pin_map_def repinned_def)
  moreover have "repinned E names (repinned E [name] (pins r)) = repinned E (name # names) (pins r)"
    using Cons.prems by (auto simp: repinned_def)
  ultimately show ?case using Cons by simp
qed (simp add: repinned_def)

lemma distinct_map_names: "distinct MAP_NAMES"
  by (simp add: MAP_NAMES_def MAP_BLOCK_def MAP_RANGE_def MAP_IPSTATS_def MAP_CONFIG_def MAP_STATS_def)

text \<open>What is left after the attachment: everything when the process aborted, else what the
  ignored results of the cleanup left.\<close>

lemma start_attached_leaves:
  assumes "start_attached K E S ifname i flags ticks M = (rc, fx, M')"
  shows "if num_possible_cpus S < 0
    then rc = abort_status \<and> after_all fx r = r\<lparr>pins := repinned E MAP_NAMES (pins r)\<rparr>
    else rc = 0 \<and> after_all fx r =
      \<lparr>attached = if xdp_detach E flags = 0 then attached r - {(i, flags)} else attached r,
       objects = objects r - 1,
       pins = repinned E MAP_NAMES (pins r) - unpinned E MAP_NAMES\<rparr>"
  using assms
  by (auto simp: start_attached_def Let_def after_unlinks after_pin_maps [OF distinct_map_names]
      split: prod.splits if_splits)

text \<open>
  The interface and the mode in which the command attaches the program, if it gets that far.
\<close>

definition start_target :: "host \<Rightarrow> string list \<Rightarrow> (int \<times> attach_mode) option" where
  "start_target E argv =
     (case start_args argv ('''', FW_OBJ_PATH) of
        (ifname, obj) \<Rightarrow>
          if ifname \<noteq> [] \<and> if_nametoindex E ifname \<noteq> 0 \<and> object_opens E obj \<and> object_loads E \<and> has_program E
          then map_option (Pair (if_nametoindex E ifname)) (find (\<lambda>m. xdp_attach E m = 0) [DRV_MODE, SKB_MODE])
          else None)"

text \<open>
  The resources when the command is over, with the program attached as \<open>(i, mode)\<close>: an abort
  leaves what was put up, a normal end what the cleanup could not remove.
\<close>

definition start_leaves :: "host \<Rightarrow> sys \<Rightarrow> int \<times> attach_mode \<Rightarrow> resources \<Rightarrow> int \<times> resources" where
  "start_leaves E S target r =
     (if num_possible_cpus S < 0
      then (abort_status,
        \<lparr>attached = insert target (attached r), objects = Suc (objects r),
         pins = repinned E MAP_NAMES (pins r)\<rparr>)
      else (0,
        \<lparr>attached = if xdp_detach E (snd target) = 0 then attached r - {target} else insert target (attached r),
         objects = objects r,
         pins = repinned E MAP_NAMES (pins r) - unpinned E MAP_NAMES\<rparr>))"

lemma start_attached_total:
  assumes "start_attached K E S ifname i mode ticks M = (rc, fx, M')"
  shows "(rc, after_all fx (r\<lparr>objects := Suc (objects r), attached := insert (i, mode) (attached r)\<rparr>)) =
    start_leaves E S (i, mode) r"
  using start_attached_leaves [OF assms, of "r\<lparr>objects := Suc (objects r), attached := insert (i, mode) (attached r)\<rparr>"]
  by (auto simp: start_leaves_def split: if_splits)

lemma cmd_start_leaves:
  assumes "cmd_start K E S ticks argv M = (rc, fx, M')"
  shows "(rc, after_all fx r) =
    (case start_target E argv of None \<Rightarrow> (1, r) | Some target \<Rightarrow> start_leaves E S target r)"
  using assms
  by (auto simp: cmd_start_def start_target_def simp flip: start_attached_total
      split: prod.splits if_splits)

end
