(* ===== verification/Wall_System.thy ===== *)
theory Wall_System
  imports Lifecycle
begin

section \<open>The data plane and the control plane together\<close>

text \<open>
  The two halves of the mitigator share nothing but the maps. \<open>fw_run\<close> runs the data plane on
  a sequence of frames; \<open>wall_reach\<close> is the state machine of the whole system, in which frames
  arrive and commands are given in any order (one step at a time: the BPF program's unlocked
  updates from several CPUs at once are not modelled). The invariants of the counters and of
  the statistics hold in every reachable state, for every kernel that keeps the promises of
  \<open>fw_kernel\<close>.
\<close>

subsection \<open>Sequences of frames\<close>

type_synonym arrival = "nat \<times> u64 \<times> bytes"

fun fw_run :: "('b, 'r, 's, 'c, 'p) bpf_kernel \<Rightarrow> arrival list \<Rightarrow> ('b, 'r, 's, 'c, 'p) fw_maps \<Rightarrow>
    (xdp_action list \<times> ('b, 'r, 's, 'c, 'p) fw_maps) option" where
  "fw_run K [] M = Some ([], M)"
| "fw_run K ((cpu, now, pkt) # es) M = do {
     (a, M) \<leftarrow> fw_prog K cpu now pkt M;
     (as, M) \<leftarrow> fw_run K es M;
     Some (a # as, M)
   }"

definition ipv4_from :: "u32 \<Rightarrow> bytes \<Rightarrow> bool" where
  "ipv4_from ip pkt = (34 \<le> length pkt \<and> frame_is_ipv4 pkt \<and> frame_src pkt = ip)"

lemma fw_prog_banned:
  assumes "ipv4_from ip pkt" and "cfg K M CFG_ENABLED \<noteq> 0" and "banned (blocked_until K M ip) now"
  shows "fw_prog K cpu now pkt M = Some (XDP_DROP, count_dropped K cpu (count_rx K cpu M))"
  using assms ethertype_is_ipv4 [of pkt]
  by (simp add: fw_prog_def ipv4_from_def layout_simps mitigate_unfold frame_src_def Let_def)

lemma fw_prog_in_range:
  assumes "ipv4_from ip pkt" and "cfg K M CFG_ENABLED \<noteq> 0"
    and "map_lookup (range_ops K) (fw_range_drop M) \<lparr>prefix_len = 32, lpm_data = ip\<rparr> \<noteq> None"
  shows "\<exists>M'. fw_prog K cpu now pkt M = Some (XDP_DROP, M')"
  using assms ethertype_is_ipv4 [of pkt]
  by (auto simp: fw_prog_def ipv4_from_def layout_simps mitigate_unfold range_check_def
      frame_src_def Let_def split: option.split)

subsection \<open>The commands and the maps\<close>

lemma set_config_frame:
  "set_config K S idx val M = (rc, msgs, M') \<Longrightarrow>
     fw_blocklist M' = fw_blocklist M \<and> fw_range_drop M' = fw_range_drop M \<and>
     fw_ip_stats M' = fw_ip_stats M \<and> fw_stats M' = fw_stats M"
  by (auto simp: set_config_def split: prod.splits if_splits)

lemmas command_defs = cmd_ratelimit_def cmd_enable_def cmd_disable_def

text \<open>
  What a command does to the maps it does not manage: nothing. \<open>safe_change\<close> is the change a
  command may make, and it keeps the maps well-formed.
\<close>

definition safe_change :: "('b, 'r, 's, 'c, 'p) map_view \<Rightarrow> ('b, 'r, 's, 'c, 'p) fw_maps \<Rightarrow>
    ('b, 'r, 's, 'c, 'p) fw_maps \<Rightarrow> bool" where
  "safe_change V M M' = (fw_stats M' = fw_stats M \<and> fw_ip_stats M' = fw_ip_stats M \<and>
     (wf_maps V M \<longrightarrow> wf_maps V M'))"

lemma safe_change_refl: "safe_change V M M"
  by (simp add: safe_change_def)

context fw_kernel
begin

lemma set_config_safe: "set_config K S idx val M = (rc, msgs, M') \<Longrightarrow> safe_change V M M'"
  using cfm.wf_update [of "fw_config M" idx val]
  by (auto simp: set_config_def safe_change_def wf_maps_def split: prod.splits if_splits)

lemma cmd_block_safe: "cmd_block K S ts argv M = (rc, msgs, M') \<Longrightarrow> safe_change V M M'"
proof (erule cmd_block_cases)
  fix a rest ip ret
  assume "block_ip K (now_ns ts) ip (case rest of [] \<Rightarrow> 0 | b # _ \<Rightarrow> strtol b) M = (ret, M')"
  then have "M' = snd (block_ip K (now_ns ts) ip (case rest of [] \<Rightarrow> 0 | b # _ \<Rightarrow> strtol b) M)"
    by simp
  then show ?thesis by (simp add: safe_change_def block_ip_frame wf_block_ip)
qed (simp add: safe_change_refl)

lemma cmd_unblock_safe: "cmd_unblock K S argv M = (rc, msgs, M') \<Longrightarrow> safe_change V M M'"
  by (erule cmd_unblock_cases)
    (auto simp: safe_change_def wf_maps_def map_command_defs dest: blk.wf_delete split: prod.splits)

lemma cmd_range_safe: "cmd_range K S argv M = (rc, msgs, M') \<Longrightarrow> safe_change V M M'"
  by (erule cmd_range_cases)
    (auto simp: safe_change_def wf_maps_def map_command_defs dest: rng.wf_update split: prod.splits)

lemma cmd_unrange_safe: "cmd_unrange K S argv M = (rc, msgs, M') \<Longrightarrow> safe_change V M M'"
  by (erule cmd_unrange_cases)
    (auto simp: safe_change_def wf_maps_def map_command_defs dest: rng.wf_delete split: prod.splits)

lemma config_command_safe:
  "cmd_ratelimit K S argv M = (rc, msgs, M') \<Longrightarrow> safe_change V M M'"
  "cmd_enable K S M = (rc, msgs, M') \<Longrightarrow> safe_change V M M'"
  "cmd_disable K S M = (rc, msgs, M') \<Longrightarrow> safe_change V M M'"
  by (auto simp: command_defs safe_change_refl dest: set_config_safe split: list.splits prod.splits)

lemma cmd_start_safe: "cmd_start K E S ticks argv M = (rc, fx, M') \<Longrightarrow> safe_change V M M'"
  by (auto simp: cmd_start_def start_attached_def Let_def safe_change_refl dest: set_config_safe
      split: prod.splits if_splits)

lemma watch_pass_safe:
  assumes "watch_pass K S ds sec clock M = Some (out, M')" and "wf_maps V M"
  shows "safe_change V M M'"
proof -
  have "M' = snd (watch_visits K S ds sec clock ([], M) (view_keys V (fw_ip_stats M)))"
    using assms by (simp add: watch_pass_visits prod_eq_iff)
  then show ?thesis
    using wf_watch_visits [of "([], M)"] by (simp add: safe_change_def watch_visits_frame)
qed

end

subsection \<open>The state machine\<close>

text \<open>
  A step is a frame on some CPU at some time, or a run of \<open>falconwall\<close> with any arguments; a
  \<open>watch\<close> makes one pass per step. \<open>n\<close> counts the frames so far.
\<close>

inductive wall_reach :: "('b, 'r, 's, 'c, 'p) bpf_kernel \<Rightarrow> host \<Rightarrow> sys \<Rightarrow> registry \<Rightarrow>
    ('b, 'r, 's, 'c, 'p) fw_maps \<Rightarrow> nat \<Rightarrow> ('b, 'r, 's, 'c, 'p) fw_maps \<Rightarrow> bool"
  for K E S ds M0 where
  initial: "wall_reach K E S ds M0 0 M0"
| frame: "wall_reach K E S ds M0 n M \<Longrightarrow> fw_prog K cpu now pkt M = Some (a, M') \<Longrightarrow>
    wall_reach K E S ds M0 (Suc n) M'"
| command: "wall_reach K E S ds M0 n M \<Longrightarrow>
    wall_main K E S ds [(clock, \<lambda>M. M)] ticks ts argv M = Some (rc, fx, M') \<Longrightarrow>
    wall_reach K E S ds M0 n M'"

definition fresh_maps :: "('b, 'r, 's, 'c, 'p) bpf_kernel \<Rightarrow> ('b, 'r, 's, 'c, 'p) fw_maps \<Rightarrow> bool" where
  "fresh_maps K M = (stats_of K M = (\<lambda>_. None) \<and>
     (\<forall>cpu c. counters_of K M (cpu, 0) = Some c \<longrightarrow> c = zero_counters))"

lemma fresh_counters_inv: "fresh_maps K M \<Longrightarrow> counters_inv K M"
  by (fastforce simp: fresh_maps_def counters_inv_def zero_counters_def)

lemma fresh_stats_inv: "fresh_maps K M \<Longrightarrow> stats_inv K n M"
  by (simp add: fresh_maps_def stats_inv_def)

lemma printed_Some: "printed r = Some (rc, fx, M') \<longleftrightarrow> (\<exists>msgs. r = (rc, msgs, M') \<and> fx = map Print msgs)"
  by (auto simp: printed_def split: prod.splits)

lemma cmd_watch_one_pass:
  assumes "cmd_watch K S ds [(clock, \<lambda>M. M)] argv M = Some (rc, msgs, M')"
  shows "M' = M \<or> (\<exists>sec out. watch_pass K S ds sec clock M = Some (out, M'))"
  using assms
  by (auto simp: cmd_watch_def Let_def bind_eq_Some_conv split: prod.splits if_splits)

context fw_kernel
begin

lemma cmd_watch_safe:
  assumes "cmd_watch K S ds [(clock, \<lambda>M. M)] argv M = Some (rc, msgs, M')" and "wf_maps V M"
  shows "safe_change V M M'"
  using cmd_watch_one_pass [OF assms(1)] watch_pass_safe assms(2) by (auto simp: safe_change_refl)

lemma wall_main_safe:
  assumes "wall_main K E S ds [(clock, \<lambda>M. M)] ticks ts argv M = Some (rc, fx, M')" and "wf_maps V M"
  shows "safe_change V M M'"
  using assms
  by (auto simp: wall_main_def printed_Some bind_eq_Some_conv safe_change_refl
      split: list.splits if_splits option.splits
      dest: cmd_start_safe cmd_watch_safe cmd_block_safe cmd_unblock_safe cmd_range_safe
        cmd_unrange_safe config_command_safe)

text \<open>The invariants of every reachable state.\<close>

lemma wall_reach_inv:
  assumes "wall_reach K E S ds M0 n M" and "wf_maps V M0" and "fresh_maps K M0" and "n < 2 ^ 64"
  shows "wf_maps V M \<and> counters_inv K M \<and> stats_inv K n M"
  using assms(1,4)
proof (induction rule: wall_reach.induct)
  case initial
  then show ?case using assms(2,3) by (simp add: fresh_counters_inv fresh_stats_inv)
next
  case (frame n M cpu now pkt a M')
  then have "wf_maps V M \<and> counters_inv K M \<and> stats_inv K n M" by simp
  with frame.hyps(2) frame.prems show ?case
    by (blast intro: fw_prog_wf fw_prog_counters_inv fw_prog_stats_inv)
next
  case (command n M clock ticks ts argv rc fx M')
  then have "wf_maps V M \<and> counters_inv K M \<and> stats_inv K n M" by simp
  moreover from this command.hyps(2) have "safe_change V M M'" by (blast intro: wall_main_safe)
  ultimately show ?case by (auto simp: safe_change_def counters_inv_def stats_inv_def)
qed

text \<open>
  A ban holds: while the clock has not passed its expiry, whatever frames arrive, every IPv4
  frame of the banned address is dropped and the entry stays.
\<close>

lemma fw_prog_keeps_ban:
  assumes "fw_prog K cpu now pkt M = Some (a, M')" and "wf_maps V M"
    and "blocked_until K M ip = Some e" and "e = 0 \<or> now \<le> e"
  shows "blocked_until K M' ip = Some e"
proof (cases "frame_src pkt = ip")
  case True
  with assms(3,4) have "banned (blocked_until K M (frame_src pkt)) now"
    by (simp add: banned_def)
  then have "fw_decide K V now pkt M \<notin> {In_range, Over_limit, Allowed}"
    by (auto simp: fw_decide_def)
  with assms show ?thesis by (simp add: fw_prog_blocklist)
next
  case False
  with assms show ?thesis by (simp add: fw_prog_blocklist)
qed

lemma fw_run_banned:
  assumes "wf_maps V M" and "cfg K M CFG_ENABLED \<noteq> 0" and "blocked_until K M ip = Some e"
    and "\<forall>(cpu, now, pkt) \<in> set es. e = 0 \<or> now \<le> e"
  shows "\<exists>as M'. fw_run K es M = Some (as, M') \<and> blocked_until K M' ip = Some e \<and>
    list_all2 (\<lambda>(cpu, now, pkt) a. ipv4_from ip pkt \<longrightarrow> a = XDP_DROP) es as"
  using assms
proof (induction es arbitrary: M)
  case Nil
  then show ?case by simp
next
  case (Cons ev es)
  obtain cpu now pkt where ev: "ev = (cpu, now, pkt)" by (cases ev)
  obtain a M1 where run: "fw_prog K cpu now pkt M = Some (a, M1)" using fw_prog_some by blast
  have time: "e = 0 \<or> now \<le> e" using Cons.prems(4) by (simp add: ev)
  have "wf_maps V M1" and "cfg K M1 CFG_ENABLED \<noteq> 0" and "blocked_until K M1 ip = Some e"
    using run Cons.prems fw_prog_wf fw_prog_keeps fw_prog_keeps_ban [OF run _ _ time]
    by (auto simp: cfg_def)
  with Cons.IH [of M1] Cons.prems(4) obtain as M2 where
    "fw_run K es M1 = Some (as, M2)" "blocked_until K M2 ip = Some e"
    "list_all2 (\<lambda>(cpu, now, pkt) a. ipv4_from ip pkt \<longrightarrow> a = XDP_DROP) es as"
    by auto
  moreover have "a = XDP_DROP" if "ipv4_from ip pkt"
    using fw_prog_banned [OF that, of K M now cpu] Cons.prems(2,3) time run
    by (simp add: banned_def)
  ultimately show ?case using run by (simp add: ev)
qed

text \<open>
  The rate limit over a window: of the frames a source sends while its window lasts, at most as
  many pass as the limit leaves, since dropped frames are counted too.
\<close>

lemma fw_prog_limited:
  assumes "wf_maps V M" and "cfg K M CFG_ENABLED \<noteq> 0" and "cfg K M CFG_PPS \<noteq> 0"
    and "stats_of K M ip = Some s" and "ipv4_from ip pkt" and "now - ip_stats.window_start s < WINDOW_NS"
    and "estimates_fit (Some s)"
  obtains a M' where "fw_prog K cpu now pkt M = Some (a, M')"
    and "a = XDP_PASS \<longrightarrow> unat (ip_stats.packets s) < unat (cfg K M CFG_PPS)"
    and "a = XDP_DROP \<and> stats_of K M' ip = Some s \<or>
      (\<exists>cls. stats_of K M' ip = Some (record_packet (of_nat (length pkt)) cls s))"
proof -
  have src: "frame_src pkt = ip" using assms(5) by (simp add: ipv4_from_def)
  let ?d = "fw_decide K V now pkt M"
  have "\<exists>M'. fw_prog K cpu now pkt M = Some (action_of ?d, M')"
    using assms by (intro fw_prog_decides) (simp_all add: src)
  then obtain M' where run: "fw_prog K cpu now pkt M = Some (action_of ?d, M')" by blast
  have d: "?d \<in> {Blocked, In_range, Over_limit, Allowed}"
    using assms(2,5) by (auto simp: fw_decide_def ipv4_from_def)
  have "unat (ip_stats.packets s) < unat (cfg K M CFG_PPS)" if "?d = Allowed"
    using that assms(3,4) src source_estimate_ge [of s now]
    by (auto simp: fw_decide_def split: if_splits)
  with d have pass: "action_of ?d = XDP_PASS \<longrightarrow> unat (ip_stats.packets s) < unat (cfg K M CFG_PPS)"
    by auto
  have roll: "roll_window now s = s" using assms(6) by (simp add: roll_window_def)
  show ?thesis
  proof (cases "?d \<in> {Over_limit, Allowed}")
    case True
    then obtain cls where "stats_of K M' = (stats_of K M)
        (frame_src pkt \<mapsto> record_packet (of_nat (length pkt)) cls (roll_window now s))"
      using fw_prog_stats_of [OF run assms(1)] assms(4) src by metis
    then have "stats_of K M' ip = Some (record_packet (of_nat (length pkt)) cls s)"
      by (simp add: src roll)
    then show ?thesis by (blast intro: that [OF run pass])
  next
    case False
    with run assms(1,4) have "stats_of K M' ip = Some s" by (simp add: fw_prog_stats_kept)
    moreover have "action_of ?d = XDP_DROP" using d False by auto
    ultimately show ?thesis by (blast intro: that [OF run pass])
  qed
qed

lemma fw_run_limited:
  assumes "wf_maps V M" and "cfg K M CFG_ENABLED \<noteq> 0" and "cfg K M CFG_PPS \<noteq> 0"
    and "stats_of K M ip = Some s"
    and "\<forall>(cpu, now, pkt) \<in> set es. ipv4_from ip pkt \<and> now - ip_stats.window_start s < WINDOW_NS"
    and "unat (ip_stats.prev_packets s) + unat (ip_stats.packets s) + length es < 2 ^ 54"
  shows "\<exists>as M'. fw_run K es M = Some (as, M') \<and>
    count_list as XDP_PASS \<le> unat (cfg K M CFG_PPS) - unat (ip_stats.packets s)"
  using assms
proof (induction es arbitrary: M s)
  case Nil
  then show ?case by simp
next
  case (Cons ev es)
  obtain cpu now pkt where ev: "ev = (cpu, now, pkt)" by (cases ev)
  have "estimates_fit (Some s)" using Cons.prems(6) by (simp add: estimates_fit_def)
  then obtain a M1 where run: "fw_prog K cpu now pkt M = Some (a, M1)"
    and pass: "a = XDP_PASS \<longrightarrow> unat (ip_stats.packets s) < unat (cfg K M CFG_PPS)"
    and st: "a = XDP_DROP \<and> stats_of K M1 ip = Some s \<or>
      (\<exists>cls. stats_of K M1 ip = Some (record_packet (of_nat (length pkt)) cls s))"
    using fw_prog_limited [of M ip s pkt now cpu] Cons.prems ev by auto
  have cfg: "cfg K M1 = cfg K M" using fw_prog_keeps [OF run] by (auto simp: cfg_def)
  have wf: "wf_maps V M1" using run Cons.prems(1) by (rule fw_prog_wf)
  have inc: "unat (ip_stats.packets s + 1) = Suc (unat (ip_stats.packets s))"
    using Cons.prems(6) by (intro unat_Suc_no_wrap) simp
  from st consider (kept) "a = XDP_DROP" "stats_of K M1 ip = Some s"
    | (new) cls where "stats_of K M1 ip = Some (record_packet (of_nat (length pkt)) cls s)" by blast
  then show ?case
  proof cases
    case kept
    then show ?thesis
      using Cons.IH [of M1 s] Cons.prems wf run by (auto simp: cfg ev)
  next
    case new
    then show ?thesis
      using Cons.IH [of M1 "record_packet (of_nat (length pkt)) cls s"] Cons.prems wf run pass
      by (cases a) (fastforce simp: cfg ev inc)+
  qed
qed

end

end
