(* ===== verification/Ref_Kernel.thy ===== *)
theory Ref_Kernel
  imports Watch
begin

section \<open>A concrete kernel for the map interface\<close>

text \<open>
  The promises of \<open>fw_kernel\<close> are not contradictory: this theory implements them with
  executable maps of the capacities that \<open>wall/fw_prog.c\<close> declares. A hash map is a list of
  entries, most recently written first, that loses its last entries when it is full; an array
  is a list of slots; the prefix map is a list of prefixes in which a lookup takes the longest
  one that covers the key. The witnesses of the development run on this kernel; nothing here
  models code of the repository.
\<close>

subsection \<open>Least-recently-used hash maps\<close>

fun next_after :: "'k list \<Rightarrow> 'k \<Rightarrow> 'k option" where
  "next_after [] k = None"
| "next_after (x # xs) k =
     (if x = k then (case xs of [] \<Rightarrow> None | y # _ \<Rightarrow> Some y) else next_after xs k)"

definition first_of :: "'k list \<Rightarrow> 'k option" where
  "first_of ks = (case ks of [] \<Rightarrow> None | k # _ \<Rightarrow> Some k)"

definition lru_ops :: "nat \<Rightarrow> ('k, 'v, ('k \<times> 'v) list) map_ops" where
  "lru_ops cap =
     \<lparr>map_lookup = map_of,
      map_poke = (\<lambda>m k v. map (\<lambda>(j, w). (j, if j = k then v else w)) m),
      map_update = (\<lambda>m k v. (0, take cap ((k, v) # filter (\<lambda>(j, _). j \<noteq> k) m))),
      map_delete = (\<lambda>m k. if map_of m k = None then (- 2, m) else (0, filter (\<lambda>(j, _). j \<noteq> k) m)),
      map_next_key = (\<lambda>m ko. case ko of
          None \<Rightarrow> first_of (map fst m)
        | Some k \<Rightarrow> if k \<in> set (map fst m) then next_after (map fst m) k else first_of (map fst m))\<rparr>"

definition lru_wf :: "nat \<Rightarrow> ('k \<times> 'v) list \<Rightarrow> bool" where
  "lru_wf cap m = (0 < cap \<and> distinct (map fst m) \<and> length m \<le> cap)"

lemma map_of_poke:
  "map_of m k \<noteq> None \<Longrightarrow>
     map_of (map (\<lambda>(j, w). (j, if j = k then v else w)) m) = (map_of m)(k \<mapsto> v)"
proof (induction m)
  case Nil
  then show ?case by simp
next
  case (Cons e m)
  have "map_of (map (\<lambda>(j, w). (j, if j = k then v else w)) m) = map_of m"
    if "map_of m k = None"
    using that by (induction m) (auto split: if_splits)
  with Cons show ?case
    by (cases e; cases "map_of m k") (auto simp: fun_eq_iff)
qed

lemma map_of_filter_key: "map_of (filter (\<lambda>(j, _). j \<noteq> k) m) = (map_of m)(k := None)"
  by (induction m) auto

lemma map_of_take:
  assumes "distinct (map fst m)"
  shows "map_of (take n m) j = map_of m j \<or> map_of (take n m) j = None"
proof (cases "map_of (take n m) j")
  case (Some w)
  then have "(j, w) \<in> set m" by (blast dest: map_of_SomeD in_set_takeD)
  with Some assms show ?thesis by simp
qed simp

lemma distinct_filter_key: "distinct (map fst m) \<Longrightarrow> distinct (map fst (filter P m))"
  by (induction m) auto

lemma distinct_fst_take: "distinct (map fst m) \<Longrightarrow> distinct (map fst (take n m))"
  by (metis distinct_take take_map)

lemma next_after_nth:
  "distinct ks \<Longrightarrow> i < length ks \<Longrightarrow>
     next_after ks (ks ! i) = (if Suc i < length ks then Some (ks ! Suc i) else None)"
proof (induction ks arbitrary: i)
  case Nil
  then show ?case by simp
next
  case (Cons x xs)
  then show ?case by (cases i; cases xs) (auto simp: nth_Cons')
qed

lemma lru_bpf_enum: "bpf_enum (lru_ops cap) (lru_wf cap) (map fst)"
proof unfold_locales
  fix m :: "('k \<times> 'v) list" and k v r m'
  assume wf: "lru_wf cap m" and upd: "map_update (lru_ops cap) m k v = (r, m')"
  let ?all = "(k, v) # filter (\<lambda>(j, _). j \<noteq> k) m"
  have d: "distinct (map fst ?all)"
    using wf by (auto simp: lru_wf_def distinct_filter_key)
  from upd have r: "r = 0" and m': "m' = take cap ?all" by (auto simp: lru_ops_def)
  show "lru_wf cap m'"
    using wf distinct_fst_take [OF d, of cap] by (simp add: m' lru_wf_def)
  show "map_lookup (lru_ops cap) m' k = map_lookup (lru_ops cap) m k \<or>
      map_lookup (lru_ops cap) m' k = None" if "r \<noteq> 0"
    using that r by simp
  show "map_lookup (lru_ops cap) m' j = map_lookup (lru_ops cap) m j \<or>
      map_lookup (lru_ops cap) m' j = None" if "j \<noteq> k" for j
    using map_of_take [OF d, of cap j] that by (simp add: m' lru_ops_def map_of_filter_key)
next
  fix m :: "('k \<times> 'v) list" and k v m'
  assume wf: "lru_wf cap m" and upd: "map_update (lru_ops cap) m k v = (0, m')"
  then show "map_lookup (lru_ops cap) m' k = Some v"
    by (cases cap) (auto simp: lru_ops_def lru_wf_def)
next
  fix m :: "('k \<times> 'v) list" and i
  assume "lru_wf cap m" and "i < length (map fst m)"
  then show "map_next_key (lru_ops cap) m (Some (map fst m ! i)) =
      (if Suc i < length (map fst m) then Some (map fst m ! Suc i) else None)"
    using next_after_nth [of "map fst m" i] by (simp add: lru_ops_def lru_wf_def)
qed (auto simp: lru_ops_def lru_wf_def map_of_poke map_of_filter_key distinct_filter_key
    first_of_def comp_def case_prod_beta dom_map_of_conv_image_fst
    intro: le_trans [OF length_filter_le] split: if_splits)

text \<open>Below its capacity the map evicts nothing.\<close>

lemma length_filter_key:
  assumes "map_of m k \<noteq> None"
  shows "length (filter (\<lambda>(j, _). j \<noteq> k) m) < length m"
proof -
  obtain v where "(k, v) \<in> set m" using assms by (auto dest: map_of_SomeD)
  then show ?thesis by (rule length_filter_less) simp
qed

lemma lru_bpf_room: "bpf_room (lru_ops cap) (lru_wf cap) cap"
proof (intro bpf_room.intro bpf_room_axioms.intro)
  show "bpf_hash (lru_ops cap) (lru_wf cap)"
    using lru_bpf_enum by (rule bpf_enum.axioms)
  fix m :: "('k \<times> 'v) list" and k v r m'
  assume wf: "lru_wf cap m"
  show "finite (dom (map_lookup (lru_ops cap) m))" by (simp add: lru_ops_def finite_dom_map_of)
  assume room: "map_lookup (lru_ops cap) m k \<noteq> None \<or> card (dom (map_lookup (lru_ops cap) m)) < cap"
    and upd: "map_update (lru_ops cap) m k v = (r, m')"
  have "card (dom (map_of m)) = length m"
    using wf by (simp add: lru_wf_def dom_map_of_conv_image_fst distinct_card flip: set_map)
  with room wf have "length ((k, v) # filter (\<lambda>(j, _). j \<noteq> k) m) \<le> cap"
    using length_filter_key [of m k] length_filter_le [of "\<lambda>(j, _). j \<noteq> k" m]
    by (fastforce simp: lru_ops_def lru_wf_def simp del: length_filter_le not_None_eq)
  with upd show "r = 0 \<and> map_lookup (lru_ops cap) m' = (map_lookup (lru_ops cap) m)(k \<mapsto> v)"
    by (auto simp: lru_ops_def map_of_filter_key)
qed

subsection \<open>Arrays\<close>

text \<open>An array over any key type that numbers its keys: \<open>idx\<close> is \<open>None\<close> for a bad key.\<close>

definition array_ops :: "('k \<Rightarrow> nat option) \<Rightarrow> ('k, 'v, 'v list) map_ops" where
  "array_ops idx =
     \<lparr>map_lookup = (\<lambda>m k. case idx k of Some i \<Rightarrow> if i < length m then Some (m ! i) else None | None \<Rightarrow> None),
      map_poke = (\<lambda>m k v. case idx k of Some i \<Rightarrow> m[i := v] | None \<Rightarrow> m),
      map_update = (\<lambda>m k v. case idx k of
          Some i \<Rightarrow> if i < length m then (0, m[i := v]) else (- 7, m) | None \<Rightarrow> (- 7, m)),
      map_delete = (\<lambda>m k. (- 22, m)),
      map_next_key = (\<lambda>m ko. None)\<rparr>"

lemma array_lookup_set:
  assumes "inj_on idx (dom idx)" and "idx k = Some i" and "i < length m"
  shows "map_lookup (array_ops idx) (m[i := v]) = (map_lookup (array_ops idx) m)(k \<mapsto> v)"
proof
  fix j
  show "map_lookup (array_ops idx) (m[i := v]) j = ((map_lookup (array_ops idx) m)(k \<mapsto> v)) j"
  proof (cases "j = k")
    case True
    with assms(2,3) show ?thesis by (simp add: array_ops_def)
  next
    case False
    then have "idx j \<noteq> Some i"
      using assms(1,2) by (auto dest!: inj_onD [of idx "dom idx" j k])
    with False show ?thesis
      by (cases "idx j") (auto simp: array_ops_def)
  qed
qed

lemma array_bpf_array:
  assumes inj: "inj_on idx (dom idx)"
  shows "bpf_array (array_ops idx) (\<lambda>_. True)"
proof unfold_locales
  fix m :: "'v list" and k v
  assume "map_lookup (array_ops idx) m k \<noteq> None"
  then obtain i where i: "idx k = Some i" "i < length m"
    by (auto simp: array_ops_def split: option.splits if_splits)
  then show "map_lookup (array_ops idx) (map_poke (array_ops idx) m k v) =
      (map_lookup (array_ops idx) m)(k \<mapsto> v)"
    using array_lookup_set [OF inj i] by (simp add: array_ops_def)
next
  fix m :: "'v list" and k v m'
  assume "map_update (array_ops idx) m k v = (0, m')"
  then obtain i where i: "idx k = Some i" "i < length m" and m': "m' = m[i := v]"
    by (auto simp: array_ops_def split: option.splits if_splits)
  show exact: "map_lookup (array_ops idx) m' = (map_lookup (array_ops idx) m)(k \<mapsto> v)"
    using array_lookup_set [OF inj i] by (simp add: m')
  show "map_lookup (array_ops idx) m' k = Some v" by (simp add: exact)
next
  fix m :: "'v list" and k v r m' j
  assume "map_update (array_ops idx) m k v = (r, m')" and jk: "j \<noteq> k"
  then consider "m' = m" | i where "idx k = Some i" "i < length m" "m' = m[i := v]"
    by (auto simp: array_ops_def split: option.splits if_splits)
  then show "map_lookup (array_ops idx) m' j = map_lookup (array_ops idx) m j \<or>
      map_lookup (array_ops idx) m' j = None"
  proof cases
    case (2 i)
    with jk show ?thesis by (simp add: array_lookup_set [OF inj])
  qed simp
qed (auto simp: array_ops_def split: option.splits if_splits)

subsection \<open>Longest-prefix match\<close>

fun longest :: "(lpm_key \<times> 'v) list \<Rightarrow> (lpm_key \<times> 'v) option" where
  "longest [] = None"
| "longest (e # es) =
     (case longest es of
        None \<Rightarrow> Some e
      | Some f \<Rightarrow> if prefix_len (fst f) \<le> prefix_len (fst e) then Some e else Some f)"

definition lpm_ops :: "nat \<Rightarrow> (lpm_key, 'v, (lpm_key \<times> 'v) list) map_ops" where
  "lpm_ops cap =
     \<lparr>map_lookup = (\<lambda>m k. map_option snd (longest (filter (\<lambda>(e, _). lpm_covers (lpm_prefix e) k) m))),
      map_poke = (\<lambda>m k v. map (\<lambda>(e, w). (e, if e = k then v else w)) m),
      map_update = (\<lambda>m k v.
         if 32 < unat (prefix_len k) then (- 22, m)
         else if lpm_prefix k \<in> set (map (lpm_prefix \<circ> fst) m)
         then (0, (k, v) # filter (\<lambda>(e, _). lpm_prefix e \<noteq> lpm_prefix k) m)
         else if cap \<le> length m then (- 28, m) else (0, (k, v) # m)),
      map_delete = (\<lambda>m k.
         if lpm_prefix k \<in> set (map (lpm_prefix \<circ> fst) m)
         then (0, filter (\<lambda>(e, _). lpm_prefix e \<noteq> lpm_prefix k) m) else (- 2, m)),
      map_next_key = (\<lambda>m ko. None)\<rparr>"

definition lpm_prefixes :: "(lpm_key \<times> 'v) list \<Rightarrow> (nat \<times> u32) set" where
  "lpm_prefixes m = set (map (lpm_prefix \<circ> fst) m)"

lemma longest_None [simp]: "longest es = None \<longleftrightarrow> es = []"
  by (cases es) (auto split: option.split)

lemma lpm_bpf_lpm: "bpf_lpm (lpm_ops cap) (\<lambda>_. True) lpm_prefixes"
proof unfold_locales
  fix m :: "(lpm_key \<times> 'v) list" and k
  show "map_lookup (lpm_ops cap) m k \<noteq> None \<longleftrightarrow> (\<exists>p \<in> lpm_prefixes m. lpm_covers p k)"
    by (force simp: lpm_ops_def lpm_prefixes_def filter_empty_conv simp del: not_None_eq)
qed (auto simp: lpm_ops_def lpm_prefixes_def split: if_splits)

subsection \<open>The kernel\<close>

definition percpu_index :: "nat \<times> u32 \<Rightarrow> nat option" where
  "percpu_index k = (if snd k = 0 then Some (fst k) else None)"

definition array_index :: "u32 \<Rightarrow> nat option" where
  "array_index k = Some (unat k)"

definition ref_kernel :: "((u32 \<times> u64) list, (lpm_key \<times> u64) list, (u32 \<times> ip_stats) list,
    u64 list, counters list) bpf_kernel" where
  "ref_kernel =
     \<lparr>block_ops = lru_ops 100000, range_ops = lpm_ops 4096, stats_ops = lru_ops 100000,
      config_ops = array_ops array_index, counter_ops = array_ops percpu_index\<rparr>"

definition ref_view :: "((u32 \<times> u64) list, (lpm_key \<times> u64) list, (u32 \<times> ip_stats) list,
    u64 list, counters list) map_view" where
  "ref_view =
     \<lparr>wf_block = lru_wf 100000, wf_range = (\<lambda>_. True), wf_stats = lru_wf 100000,
      wf_config = (\<lambda>_. True), wf_count = (\<lambda>_. True),
      view_prefixes = lpm_prefixes, view_keys = map fst\<rparr>"

lemma index_inj: "inj_on array_index (dom array_index)" "inj_on percpu_index (dom percpu_index)"
  by (auto simp: inj_on_def array_index_def percpu_index_def word_unat_eq_iff split: if_splits)

text \<open>Each kind of map keeps its contract, and so does the kernel made of them.\<close>

interpretation lru: bpf_enum "lru_ops cap" "lru_wf cap" "map fst" for cap
  by (rule lru_bpf_enum)

interpretation lpm: bpf_lpm "lpm_ops cap" "\<lambda>_. True" lpm_prefixes for cap
  by (rule lpm_bpf_lpm)

interpretation config_array: bpf_array "array_ops array_index" "\<lambda>_. True"
  by (rule array_bpf_array [OF index_inj(1)])

interpretation percpu_array: bpf_array "array_ops percpu_index" "\<lambda>_. True"
  by (rule array_bpf_array [OF index_inj(2)])

interpretation ref: fw_kernel ref_kernel ref_view
  using lru_bpf_enum lru_bpf_enum [unfolded bpf_enum_def] lpm_bpf_lpm array_bpf_array [OF index_inj(1)]
    array_bpf_array [OF index_inj(2)]
  unfolding fw_kernel_def ref_kernel_def ref_view_def by auto

text \<open>The blocklist holds the 100000 entries of \<open>MAX_BLOCK\<close> without evicting one.\<close>

interpretation ref_room: fw_kernel_room ref_kernel ref_view 100000
  using ref.fw_kernel_axioms lru_bpf_room
  by (simp add: fw_kernel_room_def ref_kernel_def ref_view_def)

text \<open>The maps as the kernel creates them: empty, with zeroed array slots, on two CPUs.\<close>

definition ref_maps :: "((u32 \<times> u64) list, (lpm_key \<times> u64) list, (u32 \<times> ip_stats) list,
    u64 list, counters list) fw_maps" where
  "ref_maps =
     \<lparr>fw_blocklist = [], fw_range_drop = [], fw_ip_stats = [], fw_config = [0, 0],
      fw_stats = replicate 2 \<lparr>rx = 0, dropped = 0, passed = 0\<rparr>\<rparr>"

lemma ref_maps_wf: "wf_maps ref_view ref_maps"
  by (simp add: wf_maps_def ref_view_def ref_maps_def lru_wf_def)

end
