(* ===== verification/Wall_Properties.thy ===== *)
theory Wall_Properties
  imports Wall_System Ref_Kernel
begin

section \<open>Properties of the mitigator\<close>

text \<open>
  The theorems about \<open>wall/\<close> that stand on their own, each with a witness on the concrete
  kernel of \<open>Ref_Kernel\<close> where it has hypotheses: the data plane's safety, policy, effects and
  rate estimate, the commands, the watch loop, the start command, and what holds in every
  reachable state of the system.
\<close>

subsection \<open>Inputs for the witnesses\<close>

text \<open>
  A 42-byte UDP frame from 10.0.0.2 to 10.0.0.1, the address 10.0.0.2 in memory order, the maps
  after \<open>start\<close>, and a system on which every call succeeds and the only address text is
  \<open>10.0.0.2\<close>.
\<close>

definition sample_frame :: bytes where
  "sample_frame =
     [255, 255, 255, 255, 255, 255, 2, 0, 0, 0, 0, 2, 8, 0,
      0x45, 0, 0, 28, 0, 0, 0x40, 0, 64, 17, 0, 0, 10, 0, 0, 2, 10, 0, 0, 1,
      0xC3, 0x50, 0x23, 0x8C, 0, 8, 0, 0]"

definition sample_ip :: u32 where "sample_ip = 0x0200000A"

definition sample_sys :: sys where
  "sample_sys =
     \<lparr>obj_get = (\<lambda>_. 3), inet_pton = (\<lambda>s. if s = ''10.0.0.2'' then Some sample_ip else None),
      inet_ntop = (\<lambda>_. ''10.0.0.2''), strerror = ''error'', num_possible_cpus = 2,
      scan_overflow = (\<lambda>_. - 1)\<rparr>"

abbreviation "enabled_maps \<equiv> ref_maps\<lparr>fw_config := [1, 100]\<rparr>"

definition sample_host :: host where
  "sample_host =
     \<lparr>if_nametoindex = (\<lambda>_. 2), object_opens = (\<lambda>_. True), object_loads = True, has_program = True,
      xdp_attach = (\<lambda>m. if m = SKB_MODE then 0 else - 1), xdp_detach = (\<lambda>_. 0), has_map = (\<lambda>_. True),
      unlink_before = (\<lambda>_. 0), pin_result = (\<lambda>_. 0), unlink_at_end = (\<lambda>_. 0), stats_map_fd = 4\<rparr>"

text \<open>A source with 40 packets in the window that began at 0 and 200 in the one before.\<close>

definition sample_stats :: ip_stats where
  "sample_stats =
     \<lparr>ip_stats.window_start = 0, prev_packets = 200, packets = 40, prev_bytes = 0, bytes = 0,
      syn = 0, udp = 40, icmp = 0\<rparr>"

abbreviation "busy_maps \<equiv> enabled_maps\<lparr>fw_ip_stats := [(sample_ip, sample_stats)]\<rparr>"

lemma sample_frame_facts:
  "length sample_frame = 42" "frame_is_ipv4 sample_frame" "frame_src sample_frame = sample_ip"
  by (simp_all add: sample_frame_def frame_is_ipv4_def frame_src_def sample_ip_def)

lemma sample_from: "ipv4_from sample_ip sample_frame"
  by (simp add: ipv4_from_def sample_frame_facts)

lemma ref_lookups [simp]:
  "map_lookup (block_ops ref_kernel) = map_of"
  "map_lookup (stats_ops ref_kernel) = map_of"
  by (simp_all add: ref_kernel_def lru_ops_def)

lemma ref_cfg: "cfg ref_kernel M i = (if unat i < length (fw_config M) then fw_config M ! unat i else 0)"
  by (simp add: cfg_def ref_kernel_def array_ops_def array_index_def)

lemma enabled_maps_wf: "wf_maps ref_view enabled_maps"
  using ref_maps_wf by (simp add: wf_maps_def ref_view_def)

lemma busy_maps_wf: "wf_maps ref_view busy_maps"
  using ref_maps_wf by (simp add: wf_maps_def ref_view_def lru_wf_def)

lemmas ref_simps = ref_cfg ref_maps_def CFG_ENABLED_def CFG_PPS_def banned_def in_prefixes_def
  ref_view_def lpm_prefixes_def

lemma ref_view_prefixes: "view_prefixes ref_view (fw_range_drop ref_maps) = {}"
  by (simp add: ref_view_def ref_maps_def lpm_prefixes_def)

subsection \<open>The data plane\<close>

text \<open>C1: every run of the BPF program, on any frame and any kernel, ends with a verdict, and the
  verdict is to drop or to pass: no frame, however short, makes it read outside the frame.\<close>

theorem fw_prog_no_fault:
  "\<exists>a M'. fw_prog K cpu now pkt M = Some (a, M') \<and> (a = XDP_DROP \<or> a = XDP_PASS)"
  using fw_prog_some [of K cpu now pkt M] by auto

text \<open>C2: the verdict of a run is that of the policy: runts, truncated IPv4 headers, banned
  sources, sources in a dropped prefix and sources over the limit are dropped, everything else
  passes, in exact arithmetic as long as the counts of the source fit in 54 bits.\<close>

theorem fw_prog_implements_policy:
  assumes "fw_kernel K V" and "wf_maps V M" and "estimates_fit (stats_of K M (frame_src pkt))"
  shows "map_option fst (fw_prog K cpu now pkt M) = Some (action_of (fw_decide K V now pkt M))"
  using fw_kernel.fw_prog_decides [OF assms, of cpu now] by auto

theorem fw_prog_implements_policy_witness:
  "map_option fst (fw_prog ref_kernel 0 5 sample_frame enabled_maps) = Some XDP_PASS"
proof -
  have "fw_decide ref_kernel ref_view 5 sample_frame enabled_maps = Allowed"
    by (simp add: fw_decide_def sample_frame_facts ref_cfg ref_maps_def CFG_ENABLED_def CFG_PPS_def
        banned_def in_prefixes_def ref_view_def lpm_prefixes_def source_estimate_def)
  then show ?thesis
    using fw_prog_implements_policy [OF ref.fw_kernel_axioms enabled_maps_wf, of sample_frame 0 5]
    by (simp add: ref_maps_def estimates_fit_def)
qed

text \<open>C3: the whole effect of a run on the maps: the configuration and the ranges stay; a ban of
  the source is removed exactly when the frame got past the blocklist; the statistics change
  exactly when the frame reached the rate limiter. Then a source with an entry gets the entry
  that \<open>stats_after\<close> writes out for the frame and no other entry changes, and for a source
  without one the map is updated with the new entry: it is there if the update succeeded, and
  no other address has statistics it did not have. The running CPU's counters record one
  received packet and its verdict, unless the frame is a runt.\<close>

theorem fw_prog_map_effects:
  assumes "fw_kernel K V" and "wf_maps V M" and "fw_prog K cpu now pkt M = Some (a, M')"
  shows "wf_maps V M' \<and> fw_config M' = fw_config M \<and> fw_range_drop M' = fw_range_drop M \<and>
    blocked_until K M' =
      (if fw_decide K V now pkt M \<in> {In_range, Over_limit, Allowed}
       then (blocked_until K M)(frame_src pkt := None) else blocked_until K M) \<and>
    (fw_decide K V now pkt M \<notin> {Over_limit, Allowed} \<longrightarrow> stats_of K M' = stats_of K M) \<and>
    (\<forall>s. fw_decide K V now pkt M \<in> {Over_limit, Allowed} \<and> stats_of K M (frame_src pkt) = Some s \<longrightarrow>
       stats_of K M' = (stats_of K M)(frame_src pkt \<mapsto> stats_after now pkt (Some s))) \<and>
    (fw_decide K V now pkt M \<in> {Over_limit, Allowed} \<and> stats_of K M (frame_src pkt) = None \<longrightarrow>
       (\<exists>r. map_update (stats_ops K) (fw_ip_stats M) (frame_src pkt) (stats_after now pkt None) =
            (r, fw_ip_stats M') \<and>
          (r = 0 \<longrightarrow> stats_of K M' (frame_src pkt) = Some (stats_after now pkt None)) \<and>
          (\<forall>ip. ip \<noteq> frame_src pkt \<longrightarrow>
             stats_of K M' ip = stats_of K M ip \<or> stats_of K M' ip = None))) \<and>
    counters_of K M' =
      (case counters_of K M (cpu, 0) of
         None \<Rightarrow> counters_of K M
       | Some c \<Rightarrow> if length pkt < 14 then counters_of K M
           else (counters_of K M)((cpu, 0) \<mapsto> tally a (c\<lparr>rx := rx c + 1\<rparr>)))"
proof (intro conjI allI impI; (elim conjE)?)
  show "wf_maps V M'"
    using assms(3,2) by (rule fw_kernel.fw_prog_wf [OF assms(1)])
  show "fw_config M' = fw_config M" and "fw_range_drop M' = fw_range_drop M"
    using fw_kernel.fw_prog_keeps [OF assms(1,3)] by blast+
  show "blocked_until K M' =
      (if fw_decide K V now pkt M \<in> {In_range, Over_limit, Allowed}
       then (blocked_until K M)(frame_src pkt := None) else blocked_until K M)"
    using assms(3,2) by (rule fw_kernel.fw_prog_blocklist [OF assms(1)])
  show "stats_of K M' = stats_of K M" if "fw_decide K V now pkt M \<notin> {Over_limit, Allowed}"
    using assms(3,2) that by (rule fw_kernel.fw_prog_stats_kept [OF assms(1)])
  show "stats_of K M' = (stats_of K M)(frame_src pkt \<mapsto> stats_after now pkt (Some s))"
    if "fw_decide K V now pkt M \<in> {Over_limit, Allowed}" and "stats_of K M (frame_src pkt) = Some s" for s
    using assms(3,2) that by (rule fw_kernel.fw_prog_stats_tracked [OF assms(1)])
  show "\<exists>r. map_update (stats_ops K) (fw_ip_stats M) (frame_src pkt) (stats_after now pkt None) =
        (r, fw_ip_stats M') \<and>
      (r = 0 \<longrightarrow> stats_of K M' (frame_src pkt) = Some (stats_after now pkt None)) \<and>
      (\<forall>ip. ip \<noteq> frame_src pkt \<longrightarrow> stats_of K M' ip = stats_of K M ip \<or> stats_of K M' ip = None)"
    if "fw_decide K V now pkt M \<in> {Over_limit, Allowed}" and "stats_of K M (frame_src pkt) = None"
    using fw_kernel.fw_prog_stats_untracked [OF assms(1,3,2) that]
      fw_kernel.stats_update_effect [OF assms(1,2)] by (metis prod.collapse)
qed (rule fw_kernel.fw_prog_counters [OF assms(1,3,2)])

text \<open>A UDP frame of 42 bytes from a source in its window, and from one not seen before.\<close>

lemma sample_frame_class: "frame_class sample_frame = L4_udp"
  by (simp add: frame_class_def sample_frame_def)

theorem fw_prog_map_effects_witness:
  "(\<exists>a M'. fw_prog ref_kernel 1 5 sample_frame busy_maps = Some (a, M') \<and>
     stats_of ref_kernel M' sample_ip =
       Some (sample_stats\<lparr>ip_stats.packets := ip_stats.packets sample_stats + 1,
         ip_stats.bytes := ip_stats.bytes sample_stats + 42, ip_stats.udp := ip_stats.udp sample_stats + 1\<rparr>) \<and>
     counters_of ref_kernel M' (0, 0) = counters_of ref_kernel busy_maps (0, 0) \<and>
     (\<exists>c. counters_of ref_kernel M' (1, 0) = Some c \<and> rx c = 1)) \<and>
   (\<exists>a M'. fw_prog ref_kernel 1 5 sample_frame enabled_maps = Some (a, M') \<and>
     fw_ip_stats M' = [(sample_ip, \<lparr>ip_stats.window_start = 5, prev_packets = 0, packets = 1,
       prev_bytes = 0, bytes = 42, syn = 0, udp = 1, icmp = 0\<rparr>)])"
proof (rule conjI)
  obtain a M' where run: "fw_prog ref_kernel 1 5 sample_frame busy_maps = Some (a, M')"
    using fw_prog_some by blast
  note effects = fw_prog_map_effects [OF ref.fw_kernel_axioms busy_maps_wf run]
  have "fw_decide ref_kernel ref_view 5 sample_frame busy_maps \<in> {Over_limit, Allowed}"
    by (simp add: fw_decide_def sample_frame_facts ref_simps)
  moreover have "stats_of ref_kernel busy_maps (frame_src sample_frame) = Some sample_stats"
    by (simp add: sample_frame_facts)
  ultimately have "stats_of ref_kernel M' =
      (stats_of ref_kernel busy_maps)(frame_src sample_frame \<mapsto> stats_after 5 sample_frame (Some sample_stats))"
    using effects by blast
  moreover have "counters_of ref_kernel busy_maps (1, 0) = Some \<lparr>rx = 0, dropped = 0, passed = 0\<rparr>"
    by (simp add: ref_maps_def ref_kernel_def array_ops_def percpu_index_def)
  then have "counters_of ref_kernel M' = (counters_of ref_kernel busy_maps)
      ((1, 0) \<mapsto> tally a \<lparr>rx = 1, dropped = 0, passed = 0\<rparr>)"
    using effects by (simp add: sample_frame_facts)
  ultimately show "\<exists>a M'. fw_prog ref_kernel 1 5 sample_frame busy_maps = Some (a, M') \<and>
     stats_of ref_kernel M' sample_ip =
       Some (sample_stats\<lparr>ip_stats.packets := ip_stats.packets sample_stats + 1,
         ip_stats.bytes := ip_stats.bytes sample_stats + 42, ip_stats.udp := ip_stats.udp sample_stats + 1\<rparr>) \<and>
     counters_of ref_kernel M' (0, 0) = counters_of ref_kernel busy_maps (0, 0) \<and>
     (\<exists>c. counters_of ref_kernel M' (1, 0) = Some c \<and> rx c = 1)"
    using run by (simp add: tally_def stats_after_def sample_frame_facts sample_frame_class sample_stats_def)
next
  obtain a M' where run: "fw_prog ref_kernel 1 5 sample_frame enabled_maps = Some (a, M')"
    using fw_prog_some by blast
  have "fw_decide ref_kernel ref_view 5 sample_frame enabled_maps \<in> {Over_limit, Allowed}"
    by (simp add: fw_decide_def sample_frame_facts ref_simps)
  moreover have "stats_of ref_kernel enabled_maps (frame_src sample_frame) = None"
    by (simp add: ref_maps_def)
  ultimately obtain r where "map_update (stats_ops ref_kernel) (fw_ip_stats enabled_maps)
      (frame_src sample_frame) (stats_after 5 sample_frame None) = (r, fw_ip_stats M')"
    using fw_prog_map_effects [OF ref.fw_kernel_axioms enabled_maps_wf run] by blast
  then have "fw_ip_stats M' = [(sample_ip, stats_after 5 sample_frame None)]"
    by (simp add: ref_maps_def ref_kernel_def lru_ops_def sample_frame_facts)
  with run show "\<exists>a M'. fw_prog ref_kernel 1 5 sample_frame enabled_maps = Some (a, M') \<and>
     fw_ip_stats M' = [(sample_ip, \<lparr>ip_stats.window_start = 5, prev_packets = 0, packets = 1,
       prev_bytes = 0, bytes = 42, syn = 0, udp = 1, icmp = 0\<rparr>)]"
    by (simp add: stats_after_def sample_frame_facts sample_frame_class)
qed

text \<open>C12: the sliding-window estimate. Inside a window and with counts below \<open>2 ^ 54\<close>, the
  shifts of the source compute the current count plus the previous count weighted by the part
  of the window still to come, in steps of 1024ths: never less than the current count, never
  more than both counts together, and the slot is at most 1023, so the weight never wraps.\<close>

theorem window_rate_estimate:
  assumes "now - ip_stats.window_start s < WINDOW_NS" and "counts_fit s"
  shows "unat (window_slot now s) = unat (now - ip_stats.window_start s) div 2 ^ 20 \<and>
    unat (window_slot now s) \<le> 1023 \<and>
    unat (window_rate now s) = unat (ip_stats.packets s) +
      unat (ip_stats.prev_packets s) * (1024 - unat (window_slot now s)) div 1024 \<and>
    unat (ip_stats.packets s) \<le> unat (window_rate now s) \<and>
    unat (window_rate now s) \<le> unat (ip_stats.packets s) + unat (ip_stats.prev_packets s)"
proof -
  have "q * (1024 - k) div 1024 \<le> q" for q k :: nat
    by (rule div_le_mono [of "q * (1024 - k)" "q * 1024" 1024, simplified])
  then show ?thesis
    using window_slot_le [OF assms(1)] unat_window_rate [OF assms]
    by (simp add: window_slot_def unat_drop_bit_div)
qed

theorem window_rate_estimate_witness:
  "unat (window_slot 0x10000000 sample_stats) = 256 \<and> unat (window_rate 0x10000000 sample_stats) = 190"
  using window_rate_estimate [of "0x10000000" sample_stats]
  by (simp add: sample_stats_def WINDOW_NS_def counts_fit_def)

text \<open>C4: the rate limiter caps a window. Of any sequence of frames that a tracked source sends
  while its window lasts, on any CPUs and in any time order, no more pass than the configured
  packets per second minus the packets already counted in the window: a source cannot gain by
  sending more, because dropped packets count too.\<close>

theorem rate_limit_caps_window:
  assumes "fw_kernel K V" and "wf_maps V M" and "cfg K M CFG_ENABLED \<noteq> 0" and "cfg K M CFG_PPS \<noteq> 0"
    and "stats_of K M ip = Some s"
    and "\<forall>(cpu, now, pkt) \<in> set es. ipv4_from ip pkt \<and> now - ip_stats.window_start s < WINDOW_NS"
    and "unat (ip_stats.prev_packets s) + unat (ip_stats.packets s) + length es < 2 ^ 54"
  shows "\<exists>as M'. fw_run K es M = Some (as, M') \<and>
    count_list as XDP_PASS \<le> unat (cfg K M CFG_PPS) - unat (ip_stats.packets s)"
  by (rule fw_kernel.fw_run_limited [OF assms])

theorem rate_limit_caps_window_witness:
  "\<exists>as M'. fw_run ref_kernel (replicate 100 (0, 5, sample_frame)) busy_maps = Some (as, M') \<and>
     count_list as XDP_PASS \<le> 60"
  using rate_limit_caps_window [OF ref.fw_kernel_axioms busy_maps_wf,
      of sample_ip sample_stats "replicate 100 (0, 5, sample_frame)"]
  by (simp add: sample_from sample_stats_def ref_simps WINDOW_NS_def)

text \<open>The limiter is neither too lenient nor too strict on one frame. For a tracked source
  that is not banned and in no dropped prefix, a frame is dropped once the window already holds
  the limit, and passes while both windows and the frame together stay within it; and a source
  without statistics always passes its first frame.\<close>

lemma rate_limit_one_frame:
  assumes "fw_kernel K V" and "wf_maps V M" and "cfg K M CFG_ENABLED \<noteq> 0" and "cfg K M CFG_PPS \<noteq> 0"
    and "ipv4_from ip pkt" and "\<not> banned (blocked_until K M ip) now"
    and "\<not> in_prefixes (view_prefixes V (fw_range_drop M)) ip" and "estimates_fit (stats_of K M ip)"
  shows "\<exists>a M'. fw_prog K cpu now pkt M = Some (a, M') \<and>
    (case stats_of K M ip of
       None \<Rightarrow> a = XDP_PASS
     | Some s \<Rightarrow>
         (unat (cfg K M CFG_PPS) \<le> unat (ip_stats.packets s) \<longrightarrow> a = XDP_DROP) \<and>
         (unat (ip_stats.prev_packets s) + unat (ip_stats.packets s) + 1 \<le> unat (cfg K M CFG_PPS) \<longrightarrow>
            a = XDP_PASS))"
proof -
  have src: "frame_src pkt = ip" using assms(5) by (simp add: ipv4_from_def)
  obtain M' where run: "fw_prog K cpu now pkt M = Some (action_of (fw_decide K V now pkt M), M')"
    using fw_kernel.fw_prog_decides [OF assms(1,2)] assms(8) src by metis
  have d: "fw_decide K V now pkt M =
      (if unat (cfg K M CFG_PPS) < source_estimate (stats_of K M ip) now then Over_limit else Allowed)"
    using assms by (auto simp: fw_decide_def ipv4_from_def)
  have pos: "0 < unat (cfg K M CFG_PPS)" using assms(4) by (simp add: unat_gt_0)
  show ?thesis
  proof (cases "stats_of K M ip")
    case None
    with pos run show ?thesis by (simp add: d source_estimate_def)
  next
    case (Some s)
    have "source_estimate (Some s) now \<le> Suc (unat (ip_stats.packets s)) + unat (ip_stats.prev_packets s)"
      using source_estimate_in_window [of now s] by (cases "unat (now - ip_stats.window_start s) < 2 ^ 30")
        (auto simp: source_estimate_def Let_def)
    with Some run source_estimate_ge [of s now] show ?thesis by (auto simp: d)
  qed
qed

subsection \<open>Reachable states\<close>

lemma enabled_maps_fresh: "fresh_maps ref_kernel enabled_maps"
  by (auto simp: fresh_maps_def ref_maps_def ref_kernel_def array_ops_def percpu_index_def
      zero_counters_def lru_ops_def less_Suc_eq nth_Cons' split: if_splits)

lemma sample_reach:
  obtains a M where "fw_prog ref_kernel 0 5 sample_frame enabled_maps = Some (a, M)"
    and "wall_reach ref_kernel sample_host sample_sys registered enabled_maps 1 M"
proof -
  obtain a M where "fw_prog ref_kernel 0 5 sample_frame enabled_maps = Some (a, M)"
    using fw_prog_some by blast
  moreover from this have "wall_reach ref_kernel sample_host sample_sys registered enabled_maps (Suc 0) M"
    by (rule wall_reach.frame [OF wall_reach.initial])
  ultimately show ?thesis by (intro that) simp_all
qed

lemma sample_first_stats:
  assumes "fw_prog ref_kernel 0 5 sample_frame enabled_maps = Some (a, M)"
  shows "stats_of ref_kernel M sample_ip = Some (new_stats 5 42 (False, True, False))"
  using assms
proof (cases rule: fw_prog_cases)
  case mitigated
  from mitigated(4) show ?thesis
  proof (cases rule: mitigate_cases)
    case (rate cls)
    then have "cls = (False, True, False)"
      by (simp add: classify_def sample_frame_def load8_def IPPROTO_TCP_def IPPROTO_UDP_def)
    with rate show ?thesis
      by (simp add: account_def drop_expired_def ref_maps_def ref_kernel_def lru_ops_def sample_frame_facts)
  qed (simp_all add: ref_maps_def banned_def ref_kernel_def lpm_ops_def lru_ops_def)
qed (simp_all add: sample_frame_facts ref_simps)

text \<open>C9: in every state the system reaches from empty maps, by frames and commands in any
  order, the totals that \<open>stats\<close> and \<open>start\<close> print balance: every received packet was
  dropped or passed.\<close>

theorem reachable_totals_balance:
  assumes "fw_kernel K V" and "wf_maps V M0" and "fresh_maps K M0"
    and "wall_reach K E S ds M0 n M" and "n < 2 ^ 64"
  shows "rx (read_counters K ncpu M) = dropped (read_counters K ncpu M) + passed (read_counters K ncpu M)"
proof -
  have inv: "counters_inv K M"
    using fw_kernel.wall_reach_inv [OF assms(1,4,2,3,5)] by blast
  show ?thesis
  proof (cases "those (map (\<lambda>i. counters_of K M (i, 0)) [0..<ncpu])")
    case None
    then show ?thesis by (simp add: read_counters_def zero_counters_def)
  next
    case (Some vals)
    have "\<forall>c \<in> set vals. rx c = dropped c + passed c"
    proof
      fix c assume "c \<in> set vals"
      then have "Some c \<in> set (map (\<lambda>i. counters_of K M (i, 0)) [0..<ncpu])"
        unfolding those_Some_nth [OF Some] by simp
      then obtain i where "counters_of K M (i, 0) = Some c" by (auto dest: sym)
      with inv show "rx c = dropped c + passed c" by (auto simp: counters_inv_def)
    qed
    with Some show ?thesis by (simp add: read_counters_def total_counters_balanced)
  qed
qed

theorem reachable_totals_balance_witness:
  "\<exists>M. wall_reach ref_kernel sample_host sample_sys registered enabled_maps 1 M \<and>
     rx (read_counters ref_kernel 2 M) =
       dropped (read_counters ref_kernel 2 M) + passed (read_counters ref_kernel 2 M)"
proof -
  obtain a M where "wall_reach ref_kernel sample_host sample_sys registered enabled_maps 1 M"
    by (rule sample_reach)
  then show ?thesis
    using reachable_totals_balance [OF ref.fw_kernel_axioms enabled_maps_wf enabled_maps_fresh, of _ _ _ 1 M 2]
    by (intro exI [of _ M]) simp
qed

text \<open>C10: in every reachable state, the statistics of every address are consistent: the SYN, UDP
  and ICMP packets are among the packets of the window, and no window holds more packets than
  the system received, so no count has wrapped.\<close>

theorem reachable_stats_consistent:
  assumes "fw_kernel K V" and "wf_maps V M0" and "fresh_maps K M0"
    and "wall_reach K E S ds M0 n M" and "n < 2 ^ 64" and "stats_of K M ip = Some s"
  shows "unat (ip_stats.syn s) + unat (ip_stats.udp s) + unat (ip_stats.icmp s) \<le> unat (ip_stats.packets s) \<and>
    unat (ip_stats.packets s) \<le> n \<and> unat (ip_stats.prev_packets s) \<le> n"
  using fw_kernel.wall_reach_inv [OF assms(1,4,2,3,5)] assms(6)
  by (auto simp: stats_inv_def stats_ok_def)

theorem reachable_stats_consistent_witness:
  "\<exists>M s. wall_reach ref_kernel sample_host sample_sys registered enabled_maps 1 M \<and>
     stats_of ref_kernel M sample_ip = Some s \<and> unat (ip_stats.udp s) \<le> unat (ip_stats.packets s)"
proof -
  obtain a M where run: "fw_prog ref_kernel 0 5 sample_frame enabled_maps = Some (a, M)"
    and reach: "wall_reach ref_kernel sample_host sample_sys registered enabled_maps 1 M"
    by (rule sample_reach)
  obtain s where "stats_of ref_kernel M sample_ip = Some s"
    using sample_first_stats [OF run] by blast
  with reach reachable_stats_consistent [OF ref.fw_kernel_axioms enabled_maps_wf enabled_maps_fresh reach]
  show ?thesis by (intro exI [of _ M] exI [of _ s]) fastforce
qed

text \<open>C11: in every reachable state that fewer than \<open>2 ^ 60\<close> packets led to, the watch loop's
  detectors flag an address exactly when its window holds more than 10000 packets, more than 50
  of which over four fifths are SYNs, more than 5000 UDP packets or more than 1000 ICMP packets,
  in exact arithmetic: the products of the SYN detector do not wrap.\<close>

theorem reachable_detection_exact:
  assumes "fw_kernel K V" and "wf_maps V M0" and "fresh_maps K M0"
    and "wall_reach K E S ds M0 n M" and "n < 2 ^ 60" and "stats_of K M ip = Some s"
  shows "matched K registered M ip \<longleftrightarrow>
    10000 < unat (ip_stats.packets s) \<or>
    (50 < unat (ip_stats.packets s) \<and> 8 * unat (ip_stats.packets s) < 10 * unat (ip_stats.syn s)) \<or>
    5000 < unat (ip_stats.udp s) \<or> 1000 < unat (ip_stats.icmp s)"
proof -
  have "n < 2 ^ 64" using assms(5) by simp
  then have "stats_ok n s"
    using fw_kernel.wall_reach_inv [OF assms(1,4,2,3)] assms(6) by (auto simp: stats_inv_def)
  then show ?thesis
    using first_match_registered [of "read_ip_stats s" ip] assms(5,6)
    by (auto simp: matched_def stats_ok_def)
qed

theorem reachable_detection_exact_witness:
  "\<exists>M. wall_reach ref_kernel sample_host sample_sys registered enabled_maps 1 M \<and>
     \<not> matched ref_kernel registered M sample_ip"
proof -
  obtain a M where run: "fw_prog ref_kernel 0 5 sample_frame enabled_maps = Some (a, M)"
    and reach: "wall_reach ref_kernel sample_host sample_sys registered enabled_maps 1 M"
    by (rule sample_reach)
  have "stats_of ref_kernel M sample_ip = Some (new_stats 5 42 (False, True, False))"
    by (rule sample_first_stats [OF run])
  with reachable_detection_exact [OF ref.fw_kernel_axioms enabled_maps_wf enabled_maps_fresh reach]
  have "\<not> matched ref_kernel registered M sample_ip" by fastforce
  with reach show ?thesis by blast
qed

end
