(* ===== verification/Command_Properties.thy ===== *)
theory Command_Properties
  imports Wall_Properties
begin

section \<open>Properties of the commands\<close>

text \<open>
  What the commands of \<open>falconwall\<close> do for the traffic: bans hold and expire, prefixes drop
  exactly their addresses, a pass of the watch loop ends and bans only what a detector matched,
  what the start command leaves behind, and what the counters printed are. The last part shows
  behaviours an operator may not expect.
\<close>

lemma ref_pins: "\<not> obj_get sample_sys p < 0" and sample_pton: "inet_pton sample_sys ''10.0.0.2'' = Some sample_ip"
  by (simp_all add: sample_sys_def)

subsection \<open>Bans\<close>

text \<open>C5: a ban holds. After \<open>block a [sec]\<close> exits with 0, whatever frames arrive on whatever
  CPUs, every IPv4 frame of the address is dropped: for ever when the seconds are absent, zero or
  negative, and otherwise up to and including the last nanosecond of the ban. Mitigation is
  enabled, and the time at which the ban ends does not wrap.\<close>

theorem block_command_bans:
  assumes "fw_kernel K V" and "wf_maps V M" and "cfg K M CFG_ENABLED \<noteq> 0"
    and "inet_pton S a = Some ip" and "cmd_block K S ts (a # rest) M = (0, msgs, M1)"
    and "sec = (case rest of [] \<Rightarrow> 0 | b # _ \<Rightarrow> strtol b)"
    and "0 < sec \<longrightarrow> unat (now_ns ts) + nat sec * 1000000000 < 2 ^ 64"
    and "\<forall>(cpu, now, pkt) \<in> set es. sec \<le> 0 \<or> unat now \<le> unat (now_ns ts) + nat sec * 1000000000"
  shows "\<exists>as M2. fw_run K es M1 = Some (as, M2) \<and> blocked_until K M2 ip \<noteq> None \<and>
    list_all2 (\<lambda>(cpu, now, pkt) act. ipv4_from ip pkt \<longrightarrow> act = XDP_DROP) es as"
proof -
  let ?e = "block_expiry (now_ns ts) sec"
  have blk: "block_ip K (now_ns ts) ip sec M = (0, M1)"
    using assms(4-6) by (auto elim!: cmd_block_cases split: if_splits)
  have hash: "bpf_map (block_ops K) (wf_block V)"
    using assms(1) by (simp add: fw_kernel_def bpf_hash_def)
  obtain m where upd: "map_update (block_ops K) (fw_blocklist M) ip ?e = (0, m)"
    and M1: "M1 = M\<lparr>fw_blocklist := m\<rparr>"
    using blk by (auto simp: block_ip_def split: prod.splits)
  have "wf_block V (fw_blocklist M)" using assms(2) by (simp add: wf_maps_def)
  then have until: "blocked_until K M1 ip = Some ?e" and wf: "wf_maps V M1"
    using bpf_map.lookup_update [OF hash _ upd] bpf_map.wf_update [OF hash _ upd] assms(2)
    by (simp_all add: M1 wf_maps_def)
  have "\<forall>(cpu, now, pkt) \<in> set es. ?e = 0 \<or> now \<le> ?e"
  proof (cases "0 < sec")
    case True
    with assms(7,8) show ?thesis by (auto simp: word_le_nat_alt unat_block_expiry)
  qed (simp add: block_expiry_permanent)
  with fw_kernel.fw_run_banned [OF assms(1) wf _ until] assms(3) show ?thesis
    by (fastforce simp: M1 cfg_def)
qed

lemma sample_block:
  "cmd_block ref_kernel sample_sys (7, 0) [''10.0.0.2'', ''60''] enabled_maps =
     (0, [Out ''blocked 10.0.0.2 temporarily''],
      enabled_maps\<lparr>fw_blocklist := [(sample_ip, 67000000000)]\<rparr>)"
  by (simp add: cmd_block_def parse_ip_def sample_pton run_on_map_def get_map_def ref_pins
      block_ip_def block_expiry_def now_ns_def ref_kernel_def lru_ops_def ref_maps_def
      strtol_def signed_number_def split_sign_def is_space_def is_digit_def code_def)

theorem block_command_bans_witness:
  "\<exists>as M2. fw_run ref_kernel [(0, 8000000000, sample_frame), (1, 67000000000, sample_frame)]
     (enabled_maps\<lparr>fw_blocklist := [(sample_ip, 67000000000)]\<rparr>) = Some (as, M2) \<and>
     as = [XDP_DROP, XDP_DROP]"
proof -
  have sec: "(60 :: int) = (case [''60''] of [] \<Rightarrow> 0 | b # _ \<Rightarrow> strtol b)"
    by (simp add: strtol_def signed_number_def split_sign_def is_space_def is_digit_def code_def)
  have on: "cfg ref_kernel enabled_maps CFG_ENABLED \<noteq> 0" by (simp add: ref_simps)
  show ?thesis
    using block_command_bans [OF ref.fw_kernel_axioms enabled_maps_wf on sample_pton sample_block sec,
        of "[(0, 8000000000, sample_frame), (1, 67000000000, sample_frame)]"]
    by (auto simp: now_ns_def sample_from list_all2_Cons1)
qed

text \<open>C6: a ban expires. The first IPv4 frame of the address after the expiry time is handled in
  every respect, verdict, counters and maps, as if the entry had been deleted before: it is
  dropped only for a dropped prefix or for the rate limit, and the entry is gone afterwards
  while every other ban stays.\<close>

theorem ban_expires:
  assumes "fw_kernel K V" and "wf_maps V M" and "cfg K M CFG_ENABLED \<noteq> 0"
    and "ipv4_from ip pkt" and "blocked_until K M ip = Some e" and "e \<noteq> 0" and "e < now"
  shows "fw_prog K cpu now pkt M =
      fw_prog K cpu now pkt (M\<lparr>fw_blocklist := snd (map_delete (block_ops K) (fw_blocklist M) ip)\<rparr>) \<and>
    (\<exists>a M'. fw_prog K cpu now pkt M = Some (a, M') \<and>
      blocked_until K M' = (blocked_until K M)(ip := None) \<and>
      (estimates_fit (stats_of K M ip) \<longrightarrow>
        (a = XDP_DROP \<longleftrightarrow> in_prefixes (view_prefixes V (fw_range_drop M)) ip \<or>
           (cfg K M CFG_PPS \<noteq> 0 \<and>
            unat (cfg K M CFG_PPS) < source_estimate (stats_of K M ip) now))))"
proof (rule conjI)
  have src: "frame_src pkt = ip" using assms(4) by (simp add: ipv4_from_def)
  have free: "\<not> banned (blocked_until K M ip) now"
    using assms(5-7) by (simp add: banned_def)
  show "fw_prog K cpu now pkt M =
      fw_prog K cpu now pkt (M\<lparr>fw_blocklist := snd (map_delete (block_ops K) (fw_blocklist M) ip)\<rparr>)"
    using fw_kernel.fw_prog_without_expired [OF assms(1,2), of pkt now cpu] free assms(3-5)
    by (simp add: src drop_expired_def ipv4_from_def)
  have decide: "fw_decide K V now pkt M =
      (if in_prefixes (view_prefixes V (fw_range_drop M)) ip then In_range
       else if cfg K M CFG_PPS \<noteq> 0 \<and> unat (cfg K M CFG_PPS) < source_estimate (stats_of K M ip) now
       then Over_limit else Allowed)"
    using free assms(3,4) by (simp add: fw_decide_def ipv4_from_def)
  obtain a M' where run: "fw_prog K cpu now pkt M = Some (a, M')" using fw_prog_some by blast
  have "a = action_of (fw_decide K V now pkt M)" if "estimates_fit (stats_of K M ip)"
    using fw_kernel.fw_prog_decides [OF assms(1,2), of pkt cpu now] that run by (simp add: src)
  moreover have "blocked_until K M' = (blocked_until K M)(ip := None)"
    using fw_kernel.fw_prog_blocklist [OF assms(1) run assms(2)] by (simp add: src decide)
  ultimately show "\<exists>a M'. fw_prog K cpu now pkt M = Some (a, M') \<and>
      blocked_until K M' = (blocked_until K M)(ip := None) \<and>
      (estimates_fit (stats_of K M ip) \<longrightarrow>
        (a = XDP_DROP \<longleftrightarrow> in_prefixes (view_prefixes V (fw_range_drop M)) ip \<or>
           (cfg K M CFG_PPS \<noteq> 0 \<and>
            unat (cfg K M CFG_PPS) < source_estimate (stats_of K M ip) now)))"
    using run by (auto simp: decide)
qed

theorem ban_expires_witness:
  "\<exists>M'. fw_prog ref_kernel 0 67000000001 sample_frame
      (enabled_maps\<lparr>fw_blocklist := [(sample_ip, 67000000000)]\<rparr>) = Some (XDP_PASS, M') \<and>
    fw_prog ref_kernel 0 67000000001 sample_frame enabled_maps = Some (XDP_PASS, M') \<and>
    blocked_until ref_kernel M' sample_ip = None"
proof -
  let ?M = "enabled_maps\<lparr>fw_blocklist := [(sample_ip, 67000000000)]\<rparr>"
  have wf: "wf_maps ref_view ?M"
    using enabled_maps_wf by (simp add: wf_maps_def ref_view_def lru_wf_def)
  have on: "cfg ref_kernel ?M CFG_ENABLED \<noteq> 0" by (simp add: ref_simps)
  have until: "blocked_until ref_kernel ?M sample_ip = Some 67000000000" by simp
  have late: "(67000000000 :: u64) \<noteq> 0" "(67000000000 :: u64) < 67000000001" by simp_all
  have fit: "estimates_fit (stats_of ref_kernel ?M sample_ip)"
    by (simp add: estimates_fit_def ref_maps_def)
  have free: "\<not> in_prefixes (view_prefixes ref_view (fw_range_drop ?M)) sample_ip"
    "\<not> unat (cfg ref_kernel ?M CFG_PPS) < source_estimate (stats_of ref_kernel ?M sample_ip) 67000000001"
    by (simp_all add: ref_simps source_estimate_def)
  have gone: "?M\<lparr>fw_blocklist := snd (map_delete (block_ops ref_kernel) (fw_blocklist ?M) sample_ip)\<rparr> = enabled_maps"
    by (simp add: ref_kernel_def lru_ops_def ref_maps_def)
  note expired = ban_expires [OF ref.fw_kernel_axioms wf on sample_from until late, of 0, unfolded gone]
  then obtain a M' where run: "fw_prog ref_kernel 0 67000000001 sample_frame ?M = Some (a, M')"
    and blocked: "blocked_until ref_kernel M' = (blocked_until ref_kernel ?M)(sample_ip := None)"
    and "a \<noteq> XDP_DROP"
    using fit free by blast
  then have "a = XDP_PASS" using fw_prog_some [of ref_kernel 0 67000000001 sample_frame ?M] by auto
  with run blocked expired show ?thesis by auto
qed

text \<open>C16: \<open>unblock a\<close> succeeds exactly when the address is on the blocklist, and removes that
  entry and no other.\<close>

theorem unblock_command:
  assumes "fw_kernel K V" and "wf_maps V M" and "inet_pton S a = Some ip"
    and "\<not> obj_get S (pin_path MAP_BLOCK) < 0" and "cmd_unblock K S (a # rest) M = (rc, msgs, M')"
  shows "(rc = 0 \<longleftrightarrow> blocked_until K M ip \<noteq> None) \<and>
    blocked_until K M' = (blocked_until K M)(ip := None)"
proof -
  obtain ret m where del: "map_delete (block_ops K) (fw_blocklist M) ip = (ret, m)" by fastforce
  have hash: "bpf_hash (block_ops K) (wf_block V)" and wf: "wf_block V (fw_blocklist M)"
    using assms(1,2) by (simp_all add: fw_kernel_def wf_maps_def)
  have "M' = M\<lparr>fw_blocklist := m\<rparr>" and "rc = (if ret = 0 then 0 else 1)"
    using assms(3-5) del
    by (auto simp: cmd_unblock_def parse_ip_def run_on_map_def get_map_def delete_block_def Let_def
        split: if_splits)
  then show ?thesis
    using bpf_hash.lookup_delete [OF hash wf del] bpf_hash.delete_succeeds [OF hash wf del] by simp
qed

theorem unblock_command_witness:
  "\<exists>msgs M'. cmd_unblock ref_kernel sample_sys [''10.0.0.2'']
       (enabled_maps\<lparr>fw_blocklist := [(sample_ip, 0)]\<rparr>) = (0, msgs, M') \<and>
     blocked_until ref_kernel M' sample_ip = None"
proof -
  obtain rc msgs M' where run: "cmd_unblock ref_kernel sample_sys [''10.0.0.2'']
      (enabled_maps\<lparr>fw_blocklist := [(sample_ip, 0)]\<rparr>) = (rc, msgs, M')"
    by (metis prod_cases3)
  have "wf_maps ref_view (enabled_maps\<lparr>fw_blocklist := [(sample_ip, 0)]\<rparr>)"
    using enabled_maps_wf by (simp add: wf_maps_def ref_view_def lru_wf_def)
  with unblock_command [OF ref.fw_kernel_axioms this sample_pton ref_pins run] run
  show ?thesis by simp
qed

subsection \<open>Dropped prefixes\<close>

lemma dec_8: "dec 8 = ''8''"
  by (simp add: dec.simps char_of_def bit_iff_odd)

lemma sample_cidr:
  "\<exists>k. parse_cidr sample_sys ''10.0.0.2/8'' = Some k \<and> unat (prefix_len k) = 8"
proof -
  have scan: "scan_cidr sample_sys ''10.0.0.2/8'' = Some (''10.0.0.2'', int 8)"
    using scan_cidr_printed [of "''10.0.0.2''" 8 sample_sys] by (simp add: dec_8)
  then have "parse_cidr sample_sys ''10.0.0.2/8'' \<noteq> None"
    by (simp add: parse_cidr_def parse_ip_def sample_pton)
  then obtain k where k: "parse_cidr sample_sys ''10.0.0.2/8'' = Some k" by blast
  with parse_cidr_scanned(2) [OF k scan sample_pton] show ?thesis by blast
qed

text \<open>C15: CIDR notation. For an address text that the system's parser accepts, \<open>a/n\<close> with
  \<open>n\<close> at most 32 is parsed to a key of prefix length \<open>n\<close> with the leading \<open>n\<close> bits of the
  address and the rest cleared, the address alone is a prefix of length 32, and a longer prefix
  length is refused.\<close>

theorem cidr_notation:
  assumes "inet_pton S a = Some ip" and "a \<noteq> []" and "CHR ''/'' \<notin> set a" and "length a \<le> 63"
    and "n < 2 ^ 31"
  shows "(n \<le> 32 \<longrightarrow> (\<exists>k. parse_cidr S (a @ ''/'' @ dec n) = Some k \<and> unat (prefix_len k) = n \<and>
       ntohl (lpm_data k) = ntohl ip AND NOT (mask (32 - n)))) \<and>
    (32 < n \<longrightarrow> parse_cidr S (a @ ''/'' @ dec n) = None) \<and>
    (\<exists>k. parse_cidr S a = Some k \<and> prefix_len k = 32 \<and> lpm_data k = ip)"
proof -
  note scan = scan_cidr_printed [OF assms(2-5), of S]
  note plain = scan_cidr_plain [OF assms(2-4), of S]
  have "\<exists>k. parse_cidr S (a @ ''/'' @ dec n) = Some k \<and> unat (prefix_len k) = n \<and>
      ntohl (lpm_data k) = ntohl ip AND NOT (mask (32 - n))" if "n \<le> 32"
  proof -
    have "parse_cidr S (a @ ''/'' @ dec n) \<noteq> None"
      using that assms(1) scan by (simp add: parse_cidr_def parse_ip_def)
    then obtain k where k: "parse_cidr S (a @ ''/'' @ dec n) = Some k" by blast
    then show ?thesis using parse_cidr_scanned [OF k scan assms(1)] by blast
  qed
  moreover have "parse_cidr S (a @ ''/'' @ dec n) = None" if "32 < n"
    using that scan by (simp add: parse_cidr_def)
  moreover have "\<exists>k. parse_cidr S a = Some k \<and> prefix_len k = 32 \<and> lpm_data k = ip"
  proof -
    have "parse_cidr S a \<noteq> None" using assms(1) plain by (simp add: parse_cidr_def parse_ip_def)
    then obtain k where k: "parse_cidr S a = Some k" by blast
    then have "unat (prefix_len k) = 32" and "ntohl (lpm_data k) = ntohl ip"
      using parse_cidr_scanned [OF k, of a 32 ip] plain assms(1) by simp_all
    then have "prefix_len k = 32" and "lpm_data k = ip"
      by (simp add: word_unat_eq_iff, metis htonl_htonl)
    with k show ?thesis by blast
  qed
  ultimately show ?thesis by blast
qed

theorem cidr_notation_witness:
  "\<exists>k. parse_cidr sample_sys ''10.0.0.2/8'' = Some k \<and> unat (prefix_len k) = 8 \<and>
     ntohl (lpm_data k) = 0x0A000000"
proof -
  have "ntohl sample_ip = 0x0A000002"
    by (simp add: sample_ip_def htonl_def le_bytes_numeral)
  moreover have "(0x0A000002 :: u32) AND NOT (mask 24) = 0x0A000000"
    by (simp add: mask_eq_exp_minus_1)
  ultimately show ?thesis
    using cidr_notation [OF sample_pton, of 8] by (simp add: dec_8)
qed

lemma range_command_prefixes:
  assumes "fw_kernel K V" and "wf_maps V M" and "parse_cidr S t = Some k"
    and "cmd_range K S (t # rest) M = (0, msgs, M')"
  shows "wf_maps V M'" and "fw_config M' = fw_config M"
    and "view_prefixes V (fw_range_drop M') = insert (lpm_prefix k) (view_prefixes V (fw_range_drop M))"
proof -
  have lpm: "bpf_lpm (range_ops K) (wf_range V) (view_prefixes V)" and wf: "wf_range V (fw_range_drop M)"
    using assms(1,2) by (simp_all add: fw_kernel_def wf_maps_def)
  obtain m where upd: "map_update (range_ops K) (fw_range_drop M) k 1 = (0, m)"
    and M': "M' = M\<lparr>fw_range_drop := m\<rparr>"
    using assms(3,4) by (auto elim!: cmd_range_cases simp: update_range_def split: prod.splits if_splits)
  show "wf_maps V M'" and "fw_config M' = fw_config M"
    using bpf_lpm.wf_update [OF lpm wf upd] assms(2) by (simp_all add: M' wf_maps_def)
  show "view_prefixes V (fw_range_drop M') = insert (lpm_prefix k) (view_prefixes V (fw_range_drop M))"
    using bpf_lpm.prefixes_update [OF lpm wf upd] by (simp add: M')
qed

text \<open>C13: after \<open>range a/n\<close> exits with 0, the dropped addresses are those that were dropped
  before and those that agree with the address on their leading \<open>n\<close> bits; and while mitigation
  is on, every IPv4 frame from an address of the prefix is dropped.\<close>

theorem range_command_drops:
  assumes "fw_kernel K V" and "wf_maps V M" and "inet_pton S a = Some ip" and "a \<noteq> []"
    and "CHR ''/'' \<notin> set a" and "length a \<le> 63" and "n \<le> 32"
    and "cmd_range K S ((a @ ''/'' @ dec n) # rest) M = (0, msgs, M')"
  shows "(\<forall>src. in_prefixes (view_prefixes V (fw_range_drop M')) src \<longleftrightarrow>
      drop_bit (32 - n) (ntohl src) = drop_bit (32 - n) (ntohl ip) \<or>
      in_prefixes (view_prefixes V (fw_range_drop M)) src) \<and>
    (\<forall>cpu now pkt src. cfg K M CFG_ENABLED \<noteq> 0 \<and> ipv4_from src pkt \<and>
      drop_bit (32 - n) (ntohl src) = drop_bit (32 - n) (ntohl ip) \<longrightarrow>
      (\<exists>M2. fw_prog K cpu now pkt M' = Some (XDP_DROP, M2)))"
proof -
  have scan: "scan_cidr S (a @ ''/'' @ dec n) = Some (a, int n)"
    using assms(4-7) by (intro scan_cidr_printed) simp_all
  obtain k where k: "parse_cidr S (a @ ''/'' @ dec n) = Some k"
    using assms(8) by (auto elim: cmd_range_cases)
  note pre = range_command_prefixes [OF assms(1,2) k assms(8)]
  have in_iff: "in_prefixes (view_prefixes V (fw_range_drop M')) src \<longleftrightarrow>
      drop_bit (32 - n) (ntohl src) = drop_bit (32 - n) (ntohl ip) \<or>
      in_prefixes (view_prefixes V (fw_range_drop M)) src" for src
    using parse_cidr_scanned(4) [OF k scan assms(3)] assms(7) pre(3) by (auto simp: in_prefixes_def)
  moreover have "\<exists>M2. fw_prog K cpu now pkt M' = Some (XDP_DROP, M2)"
    if "cfg K M CFG_ENABLED \<noteq> 0" and "ipv4_from src pkt"
      and "drop_bit (32 - n) (ntohl src) = drop_bit (32 - n) (ntohl ip)" for cpu now pkt src
  proof (rule fw_prog_in_range [OF that(2)])
    show "cfg K M' CFG_ENABLED \<noteq> 0" using that(1) pre(2) by (simp add: cfg_def)
    show "map_lookup (range_ops K) (fw_range_drop M') \<lparr>prefix_len = 32, lpm_data = src\<rparr> \<noteq> None"
      using fw_kernel.range_lookup [OF assms(1), of "fw_range_drop M'" src] pre(1) in_iff that(3)
      by (simp add: wf_maps_def del: not_None_eq)
  qed
  ultimately show ?thesis by blast
qed

lemma sample_range:
  obtains msgs M' where "cmd_range ref_kernel sample_sys [''10.0.0.2/8''] enabled_maps = (0, msgs, M')"
proof -
  obtain k where "parse_cidr sample_sys ''10.0.0.2/8'' = Some k" "unat (prefix_len k) = 8"
    using sample_cidr by blast
  then show ?thesis
    by (intro that) (simp add: cmd_range_def run_on_map_def get_map_def ref_pins update_range_def
      ref_kernel_def lpm_ops_def ref_maps_def)
qed

theorem range_command_drops_witness:
  "\<exists>msgs M' M2. cmd_range ref_kernel sample_sys [''10.0.0.2/8''] enabled_maps = (0, msgs, M') \<and>
     fw_prog ref_kernel 0 5 sample_frame M' = Some (XDP_DROP, M2)"
proof -
  obtain msgs M' where run: "cmd_range ref_kernel sample_sys [''10.0.0.2/8''] enabled_maps = (0, msgs, M')"
    by (rule sample_range)
  have "\<exists>M2. fw_prog ref_kernel 0 5 sample_frame M' = Some (XDP_DROP, M2)"
    using range_command_drops [OF ref.fw_kernel_axioms enabled_maps_wf sample_pton, of 8 "[]" msgs M'] run
      sample_from
    by (simp add: dec_8 ref_cfg CFG_ENABLED_def) blast
  with run show ?thesis by blast
qed

text \<open>C14: \<open>unrange\<close> undoes \<open>range\<close>: given the same text, it succeeds after it and leaves
  exactly the prefixes that were there before, when the prefix was not among them.\<close>

theorem unrange_undoes_range:
  assumes "fw_kernel K V" and "wf_maps V M" and "parse_cidr S t = Some k"
    and "lpm_prefix k \<notin> view_prefixes V (fw_range_drop M)"
    and "cmd_range K S [t] M = (0, msgs, M1)"
  shows "\<exists>msgs' M2. cmd_unrange K S [t] M1 = (0, msgs', M2) \<and>
    view_prefixes V (fw_range_drop M2) = view_prefixes V (fw_range_drop M)"
proof -
  note pre = range_command_prefixes [OF assms(1-3,5)]
  have lpm: "bpf_lpm (range_ops K) (wf_range V) (view_prefixes V)" and wf: "wf_range V (fw_range_drop M1)"
    using assms(1) pre(1) by (simp_all add: fw_kernel_def wf_maps_def)
  obtain ret m where del: "map_delete (range_ops K) (fw_range_drop M1) k = (ret, m)" by fastforce
  have "ret = 0" using bpf_lpm.delete_succeeds [OF lpm wf del] by (simp add: pre(3))
  moreover have "\<not> obj_get S (pin_path MAP_RANGE) < 0"
    using assms(3,5) by (auto simp: cmd_range_def dest: run_on_map_ok)
  ultimately show ?thesis
    using assms(3,4) del bpf_lpm.prefixes_delete [OF lpm wf del]
    by (auto simp: cmd_unrange_def run_on_map_def get_map_def delete_range_def pre(3))
qed

theorem unrange_undoes_range_witness:
  "\<exists>msgs M1 msgs' M2. cmd_range ref_kernel sample_sys [''10.0.0.2/8''] enabled_maps = (0, msgs, M1) \<and>
     cmd_unrange ref_kernel sample_sys [''10.0.0.2/8''] M1 = (0, msgs', M2) \<and>
     view_prefixes ref_view (fw_range_drop M2) = {}"
proof -
  obtain msgs M1 where run: "cmd_range ref_kernel sample_sys [''10.0.0.2/8''] enabled_maps = (0, msgs, M1)"
    by (rule sample_range)
  obtain k where k: "parse_cidr sample_sys ''10.0.0.2/8'' = Some k" using sample_cidr by blast
  show ?thesis
    using unrange_undoes_range [OF ref.fw_kernel_axioms enabled_maps_wf k _ run] run
    by (fastforce simp: ref_view_prefixes)
qed

subsection \<open>The watch loop\<close>

text \<open>C8: a pass of the watch loop ends, changes nothing but the blocklist, and bans no address
  without reason: an entry after the pass was there before it, or is a ban of the configured
  length on an address that a detector matched.\<close>

theorem watch_pass_sound:
  assumes "fw_kernel K V" and "wf_maps V M"
  shows "\<exists>out M'. watch_pass K S ds ban_sec clock M = Some (out, M') \<and> wf_maps V M' \<and>
    fw_ip_stats M' = fw_ip_stats M \<and> fw_range_drop M' = fw_range_drop M \<and>
    fw_config M' = fw_config M \<and> fw_stats M' = fw_stats M \<and>
    (\<forall>ip e. blocked_until K M' ip = Some e \<longrightarrow> blocked_until K M ip = Some e \<or>
       (matched K ds M ip \<and> e = block_expiry (now_ns (clock ip)) ban_sec))"
proof -
  obtain out M' where r: "watch_visits K S ds ban_sec clock ([], M) (view_keys V (fw_ip_stats M)) = (out, M')"
    by fastforce
  then have "watch_pass K S ds ban_sec clock M = Some (out, M')"
    using fw_kernel.watch_pass_visits [OF assms] by simp
  moreover have "wf_maps V M'"
    using fw_kernel.wf_watch_visits [OF assms(1), of "([], M)"] assms(2) r by (metis snd_conv)
  moreover have "blocked_until K M ip = Some e \<or>
      (matched K ds M ip \<and> e = block_expiry (now_ns (clock ip)) ban_sec)"
    if "blocked_until K M' ip = Some e" for ip e
    using fw_kernel.watch_visits_sound [OF assms(1), of "([], M)" S ds ban_sec clock
        "view_keys V (fw_ip_stats M)" ip e] assms(2) that r by simp
  ultimately show ?thesis
    using r watch_visits_frame [of K S ds ban_sec clock "([], M)" "view_keys V (fw_ip_stats M)"]
    by (intro exI [of _ out] exI [of _ M']) simp
qed

text \<open>A source in the middle of a UDP flood.\<close>

definition flood_stats :: ip_stats where
  "flood_stats =
     \<lparr>ip_stats.window_start = 0, prev_packets = 0, packets = 6000, prev_bytes = 0, bytes = 0,
      syn = 0, udp = 6000, icmp = 0\<rparr>"

abbreviation "flood_maps \<equiv> enabled_maps\<lparr>fw_ip_stats := [(sample_ip, flood_stats)]\<rparr>"

lemma flood_maps_wf: "wf_maps ref_view flood_maps"
  using ref_maps_wf by (simp add: wf_maps_def ref_view_def lru_wf_def)

lemma flood_matched: "matched ref_kernel registered M ip \<longleftrightarrow> ip = sample_ip"
  if "fw_ip_stats M = [(sample_ip, flood_stats)]"
  using that first_match_registered [of "read_ip_stats flood_stats" ip]
  by (auto simp: matched_def flood_stats_def)

theorem watch_pass_sound_witness:
  "\<exists>out M'. watch_pass ref_kernel sample_sys registered 60 (\<lambda>_. (7, 0)) flood_maps = Some (out, M') \<and>
     (\<forall>e. blocked_until ref_kernel M' sample_ip = Some e \<longrightarrow> e = 67000000000)"
  using watch_pass_sound [OF ref.fw_kernel_axioms flood_maps_wf, of sample_sys registered 60 "\<lambda>_. (7, 0)"]
  by (fastforce simp: ref_maps_def block_expiry_def now_ns_def)

text \<open>C7: while the blocklist has room, that is while the addresses on it and the addresses that
  a detector matches together are no more than the entries it holds without evicting, a pass
  bans exactly the addresses that a detector matches and that are not on the list already: all
  of them, each for the configured time from its own clock reading, and nothing else changes.\<close>

theorem watch_pass_exact:
  assumes "fw_kernel_room K V cap" and "wf_maps V M"
    and "card (dom (blocked_until K M) \<union> {ip. matched K ds M ip}) \<le> cap"
  shows "\<exists>out M'. watch_pass K S ds ban_sec clock M = Some (out, M') \<and>
    blocked_until K M' = (\<lambda>ip. if matched K ds M ip \<and> blocked_until K M ip = None
      then Some (block_expiry (now_ns (clock ip)) ban_sec) else blocked_until K M ip) \<and>
    fw_ip_stats M' = fw_ip_stats M \<and> fw_range_drop M' = fw_range_drop M \<and>
    fw_config M' = fw_config M \<and> fw_stats M' = fw_stats M"
  using assms(2,3)
proof (rule fw_kernel_room.watch_pass_bans [OF assms(1)])
  fix out M'
  assume run: "watch_pass K S ds ban_sec clock M = Some (out, M')"
    and bans: "blocked_until K M' = (\<lambda>ip. if matched K ds M ip \<and> blocked_until K M ip = None
      then Some (block_expiry (now_ns (clock ip)) ban_sec) else blocked_until K M ip)"
  have "M' = snd (watch_visits K S ds ban_sec clock ([], M) (view_keys V (fw_ip_stats M)))"
    using run fw_kernel.watch_pass_visits [OF fw_kernel_room.axioms(1) [OF assms(1)] assms(2)]
    by (simp add: prod_eq_iff)
  with run bans show ?thesis by (simp add: watch_visits_frame)
qed

text \<open>A permanent ban stays next to the ban of the flooding source.\<close>

theorem watch_pass_exact_witness:
  "\<exists>out M'. watch_pass ref_kernel sample_sys registered 60 (\<lambda>_. (7, 0))
       (flood_maps\<lparr>fw_blocklist := [(1, 0)]\<rparr>) = Some (out, M') \<and>
     blocked_until ref_kernel M' = [1 \<mapsto> 0, sample_ip \<mapsto> 67000000000]"
proof -
  let ?M = "flood_maps\<lparr>fw_blocklist := [(1, 0)]\<rparr>"
  have wf: "wf_maps ref_view ?M" using flood_maps_wf by (simp add: wf_maps_def ref_view_def lru_wf_def)
  have m: "matched ref_kernel registered ?M ip \<longleftrightarrow> ip = sample_ip" for ip
    by (rule flood_matched) simp
  have "dom (blocked_until ref_kernel ?M) \<union> {ip. matched ref_kernel registered ?M ip} = {1, sample_ip}"
    by (auto simp: m split: if_splits)
  then have room: "card (dom (blocked_until ref_kernel ?M) \<union> {ip. matched ref_kernel registered ?M ip}) \<le> 100000"
    by (simp add: card_insert_if)
  have ne: "sample_ip \<noteq> 1" by (simp add: sample_ip_def)
  have "(\<lambda>ip. if matched ref_kernel registered ?M ip \<and> blocked_until ref_kernel ?M ip = None
      then Some (block_expiry (now_ns (7, 0)) 60) else blocked_until ref_kernel ?M ip) =
      [1 \<mapsto> 0, sample_ip \<mapsto> 67000000000]"
    using ne by (auto simp: m block_expiry_def now_ns_def fun_eq_iff)
  then show ?thesis
    using watch_pass_exact [OF ref_room.fw_kernel_room_axioms wf room, of sample_sys 60 "\<lambda>_. (7, 0)"]
    by auto
qed

subsection \<open>Lifecycle\<close>

text \<open>C17: what \<open>start\<close> leaves behind. A start that ends before the program is attached exits
  with 1 and leaves pins, attachments and objects as they were. After the attachment, a normal
  end exits with 0 with the BPF object closed, the program gone from the interface if the
  detach call succeeded (and still attached if it did not), and no pin left of those whose
  removal succeeded; but when libbpf cannot tell the number of CPUs, the process aborts with
  the program attached, the object open and the pins in place.\<close>

theorem start_gives_back:
  assumes "cmd_start K E S ticks argv M = (rc, fx, M')"
  shows "case start_target E argv of
      None \<Rightarrow> rc = 1 \<and> after_all fx r = r
    | Some target \<Rightarrow>
        if num_possible_cpus S < 0
        then rc = abort_status \<and> attached (after_all fx r) = insert target (attached r) \<and>
          objects (after_all fx r) = Suc (objects r) \<and>
          pins (after_all fx r) = repinned E MAP_NAMES (pins r)
        else rc = 0 \<and> objects (after_all fx r) = objects r \<and>
          attached (after_all fx r) =
            (if xdp_detach E (snd target) = 0 then attached r - {target} else insert target (attached r)) \<and>
          pins (after_all fx r) = repinned E MAP_NAMES (pins r) - unpinned E MAP_NAMES \<and>
          ((\<forall>n \<in> set MAP_NAMES. unlink_at_end E n = 0) \<longrightarrow>
             pins (after_all fx r) = pins r - pin_path ` set MAP_NAMES)"
proof -
  have "repinned E MAP_NAMES P - unpinned E MAP_NAMES = P - pin_path ` set MAP_NAMES"
    if "\<forall>n \<in> set MAP_NAMES. unlink_at_end E n = 0" for P
    using that by (auto simp: repinned_def unpinned_def)
  then show ?thesis
    using cmd_start_leaves [OF assms, of r]
    by (auto simp: start_leaves_def split: option.splits if_splits)
qed

text \<open>The same start in generic mode on a host where everything succeeds, and on one where the
  number of CPUs is unknown.\<close>

theorem start_gives_back_witness:
  "\<exists>rc fx M' rc2 fx2 M2.
     cmd_start ref_kernel sample_host sample_sys [] [''eth0''] ref_maps = (rc, fx, M') \<and>
     rc = 0 \<and> after_all fx \<lparr>attached = {}, objects = 0, pins = {}\<rparr> = \<lparr>attached = {}, objects = 0, pins = {}\<rparr> \<and>
     cmd_start ref_kernel sample_host (sample_sys\<lparr>num_possible_cpus := - 1\<rparr>) [] [''eth0''] ref_maps = (rc2, fx2, M2) \<and>
     rc2 = abort_status \<and> attached (after_all fx2 \<lparr>attached = {}, objects = 0, pins = {}\<rparr>) = {(2, SKB_MODE)} \<and>
     pins (after_all fx2 \<lparr>attached = {}, objects = 0, pins = {}\<rparr>) = pin_path ` set MAP_NAMES"
proof -
  let ?r = "\<lparr>attached = {}, objects = 0, pins = {}\<rparr>" and ?S = "sample_sys\<lparr>num_possible_cpus := - 1\<rparr>"
  have target: "start_target sample_host [''eth0''] = Some (2, SKB_MODE)"
    by (simp add: start_target_def sample_host_def)
  have ok: "\<forall>n \<in> set MAP_NAMES. unlink_at_end sample_host n = 0"
    by (simp add: sample_host_def)
  have ends: "xdp_detach sample_host SKB_MODE = 0" "\<not> num_possible_cpus sample_sys < 0"
    by (simp_all add: sample_host_def sample_sys_def)
  have made: "repinned sample_host MAP_NAMES {} = pin_path ` set MAP_NAMES"
    by (auto simp: repinned_def sample_host_def)
  obtain rc fx M' where run: "cmd_start ref_kernel sample_host sample_sys [] [''eth0''] ref_maps = (rc, fx, M')"
    by (metis prod_cases3)
  obtain rc2 fx2 M2 where run2: "cmd_start ref_kernel sample_host ?S [] [''eth0''] ref_maps = (rc2, fx2, M2)"
    by (metis prod_cases3)
  have "rc = 0 \<and> after_all fx ?r = ?r"
    using start_gives_back [OF run, of ?r] target ok ends by (auto intro: resources.equality)
  moreover have "rc2 = abort_status \<and> attached (after_all fx2 ?r) = {(2, SKB_MODE)} \<and>
      pins (after_all fx2 ?r) = pin_path ` set MAP_NAMES"
    using start_gives_back [OF run2, of ?r] target made by simp
  ultimately show ?thesis
    by (intro exI [of _ rc] exI [of _ fx] exI [of _ M'] exI [of _ rc2] exI [of _ fx2] exI [of _ M2])
      (simp add: run run2)
qed

text \<open>The statistics cross the kernel boundary intact. The 64 bytes the BPF program writes
  for an address are read by userspace's \<open>IpStats\<close> as the same eight values in the same
  fields.\<close>

lemma ip_stats_layout:
  "length (ip_stats_bytes s) = 64 \<and>
   IpStats_of_bytes (ip_stats_bytes s) =
     Some \<lparr>window_start = ip_stats.window_start s, prev_packets = ip_stats.prev_packets s,
           packets = ip_stats.packets s, prev_bytes = ip_stats.prev_bytes s,
           bytes = ip_stats.bytes s, syn = ip_stats.syn s, udp = ip_stats.udp s,
           icmp = ip_stats.icmp s\<rparr>"
  using IpStats_of_ip_stats_bytes by (simp add: ip_stats_bytes_def)

text \<open>C18: what \<open>stats\<close> prints: for each of the three counters the sum over the CPUs, in 64
  bits. With the map unreachable it prints an error and still exits with 0, and when libbpf
  cannot tell the number of CPUs the process aborts; in every case the maps stay as they are.\<close>

theorem stats_command:
  assumes "\<forall>i < nat (num_possible_cpus S). counters_of K M (i, 0) = Some (c i)"
  shows "wall_main K E S ds rounds ticks ts (p # ''stats'' # v) M =
    (if obj_get S (pin_path MAP_STATS) < 0
     then Some (0, [Print (Err ''error: is the daemon running? (falconwall start <iface>)'')], M)
     else if num_possible_cpus S < 0 then Some (abort_status, [Abort], M)
     else Some (0, [Print (Out (
       ''rx='' @ dec (unat (\<Sum>i < nat (num_possible_cpus S). rx (c i))) @
       '' dropped='' @ dec (unat (\<Sum>i < nat (num_possible_cpus S). dropped (c i))) @
       '' passed='' @ dec (unat (\<Sum>i < nat (num_possible_cpus S). passed (c i)))))], M))"
proof -
  have "read_counters K (nat (num_possible_cpus S)) M =
      \<lparr>rx = \<Sum>i < nat (num_possible_cpus S). rx (c i),
       dropped = \<Sum>i < nat (num_possible_cpus S). dropped (c i),
       passed = \<Sum>i < nat (num_possible_cpus S). passed (c i)\<rparr>"
    using assms by (rule read_counters_sum)
  then show ?thesis
    by (simp add: wall_main_def print_stats_def get_map_def Let_def show_counters_def)
qed

theorem stats_command_witness:
  "wall_main ref_kernel sample_host sample_sys registered [] [] (7, 0) [''falconwall'', ''stats'']
     (ref_maps\<lparr>fw_stats := [\<lparr>rx = 3, dropped = 1, passed = 2\<rparr>, \<lparr>rx = 5, dropped = 5, passed = 0\<rparr>]\<rparr>) =
   Some (0, [Print (Out ''rx=8 dropped=6 passed=2'')],
     ref_maps\<lparr>fw_stats := [\<lparr>rx = 3, dropped = 1, passed = 2\<rparr>, \<lparr>rx = 5, dropped = 5, passed = 0\<rparr>]\<rparr>)"
proof -
  let ?cs = "[\<lparr>rx = 3, dropped = 1, passed = 2\<rparr>, \<lparr>rx = 5, dropped = 5, passed = 0\<rparr>]"
  have slots: "\<forall>i < nat (num_possible_cpus sample_sys).
      counters_of ref_kernel (ref_maps\<lparr>fw_stats := ?cs\<rparr>) (i, 0) = Some (?cs ! i)"
    by (simp add: sample_sys_def ref_kernel_def array_ops_def percpu_index_def)
  have n: "nat (num_possible_cpus sample_sys) = Suc (Suc 0)" "\<not> num_possible_cpus sample_sys < 0"
    by (simp_all add: sample_sys_def)
  have sums: "(\<Sum>i < Suc (Suc 0). rx (?cs ! i)) = 8" "(\<Sum>i < Suc (Suc 0). dropped (?cs ! i)) = 6"
    "(\<Sum>i < Suc (Suc 0). passed (?cs ! i)) = 2"
    by simp_all
  have "dec 6 = ''6''" "dec 2 = ''2''"
    by (simp_all add: dec.simps char_of_def bit_iff_odd)
  then show ?thesis
    using stats_command [OF slots, of sample_host registered "[]" "[]" "(7, 0)" "''falconwall''" "[]"]
    unfolding n(1) sums by (simp add: n(2) ref_pins dec_8)
qed

subsection \<open>What an operator may not expect\<close>

text \<open>C19: silence is not forgotten. When a source's window held at least the limit, the first
  frame it sends after any longer silence, minutes or hours, is dropped: the old window becomes
  the previous one with full weight, however long ago it ended.\<close>

theorem idle_source_still_limited:
  assumes "fw_kernel K V" and "wf_maps V M" and "cfg K M CFG_ENABLED \<noteq> 0" and "cfg K M CFG_PPS \<noteq> 0"
    and "ipv4_from ip pkt" and "stats_of K M ip = Some s" and "estimates_fit (Some s)"
    and "unat (cfg K M CFG_PPS) \<le> unat (ip_stats.packets s)"
    and "2 ^ 30 \<le> unat (now - ip_stats.window_start s)"
  shows "\<exists>M'. fw_prog K cpu now pkt M = Some (XDP_DROP, M')"
proof -
  have src: "frame_src pkt = ip" using assms(5) by (simp add: ipv4_from_def)
  have "source_estimate (Some s) now = Suc (unat (ip_stats.packets s))"
    using assms(9) by (simp add: source_estimate_def)
  then have "fw_decide K V now pkt M \<in> {Blocked, In_range, Over_limit}"
    using assms(3-6,8) by (simp add: fw_decide_def ipv4_from_def)
  then have "action_of (fw_decide K V now pkt M) = XDP_DROP" by auto
  then show ?thesis
    using fw_kernel.fw_prog_decides [OF assms(1,2)] assms(6,7) src by metis
qed

theorem idle_source_still_limited_witness:
  "\<exists>M'. fw_prog ref_kernel 0 3600000000000 sample_frame (busy_maps\<lparr>fw_config := [1, 40]\<rparr>) =
     Some (XDP_DROP, M')"
  using idle_source_still_limited [OF ref.fw_kernel_axioms,
      of "busy_maps\<lparr>fw_config := [1, 40]\<rparr>" sample_ip sample_frame sample_stats 3600000000000 0]
    busy_maps_wf
  by (simp add: sample_from sample_stats_def ref_simps wf_maps_def estimates_fit_def)

text \<open>C20: \<open>unblock\<close> does not clear the statistics, so a running watch loop bans the address
  again in its next pass, although no frame arrived since; this supposes that the blocklist has
  room for the listed and the matched addresses.\<close>

theorem unblock_undone_by_watch:
  assumes "fw_kernel_room K V cap" and "wf_maps V M"
    and "card (dom (blocked_until K M) \<union> {ip. matched K ds M ip}) \<le> cap"
    and "inet_pton S a = Some ip" and "matched K ds M ip" and "cmd_unblock K S (a # rest) M = (0, msgs, M1)"
  shows "blocked_until K M1 ip = None \<and>
    (\<exists>out M2. watch_pass K S ds ban_sec clock M1 = Some (out, M2) \<and>
       blocked_until K M2 ip = Some (block_expiry (now_ns (clock ip)) ban_sec))"
proof -
  have hash: "bpf_hash (block_ops K) (wf_block V)" and wfb: "wf_block V (fw_blocklist M)"
    using assms(1,2) by (simp_all add: fw_kernel_room_def fw_kernel_def wf_maps_def)
  obtain m where del: "map_delete (block_ops K) (fw_blocklist M) ip = (0, m)"
    and M1: "M1 = M\<lparr>fw_blocklist := m\<rparr>"
    using assms(4,6) by (auto elim!: cmd_unblock_cases simp: delete_block_def split: prod.splits if_splits)
  have blocked: "blocked_until K M1 = (blocked_until K M)(ip := None)"
    using bpf_hash.lookup_delete [OF hash wfb del] by (simp add: M1)
  have wf: "wf_maps V M1"
    using assms(2) bpf_hash.wf_delete [OF hash wfb del] by (simp add: M1 wf_maps_def)
  have m: "matched K ds M1 = matched K ds M" by (rule matched_frame) (simp add: M1)
  have "dom (blocked_until K M1) \<union> {ip. matched K ds M1 ip} =
      dom (blocked_until K M) \<union> {ip. matched K ds M ip}"
    using assms(5) by (auto simp: blocked m)
  then have room: "card (dom (blocked_until K M1) \<union> {ip. matched K ds M1 ip}) \<le> cap"
    using assms(3) by simp
  obtain out M2 where "watch_pass K S ds ban_sec clock M1 = Some (out, M2)"
    and "blocked_until K M2 = (\<lambda>ip. if matched K ds M1 ip \<and> blocked_until K M1 ip = None
      then Some (block_expiry (now_ns (clock ip)) ban_sec) else blocked_until K M1 ip)"
    by (rule fw_kernel_room.watch_pass_bans [OF assms(1) wf room])
  with assms(5) blocked m show ?thesis by simp
qed

theorem unblock_undone_by_watch_witness:
  "\<exists>msgs M1 out M2.
     cmd_unblock ref_kernel sample_sys [''10.0.0.2''] (flood_maps\<lparr>fw_blocklist := [(sample_ip, 0)]\<rparr>) = (0, msgs, M1) \<and>
     blocked_until ref_kernel M1 sample_ip = None \<and>
     watch_pass ref_kernel sample_sys registered 60 (\<lambda>_. (7, 0)) M1 = Some (out, M2) \<and>
     blocked_until ref_kernel M2 sample_ip = Some 67000000000"
proof -
  let ?M = "flood_maps\<lparr>fw_blocklist := [(sample_ip, 0)]\<rparr>"
  have wf: "wf_maps ref_view ?M" using flood_maps_wf by (simp add: wf_maps_def ref_view_def lru_wf_def)
  obtain msgs M1 where run: "cmd_unblock ref_kernel sample_sys [''10.0.0.2''] ?M = (0, msgs, M1)"
    by (simp add: cmd_unblock_def parse_ip_def sample_pton run_on_map_def get_map_def ref_pins
        delete_block_def ref_kernel_def lru_ops_def)
  have m: "matched ref_kernel registered ?M ip \<longleftrightarrow> ip = sample_ip" for ip
    by (rule flood_matched) simp
  have "dom (blocked_until ref_kernel ?M) \<union> {ip. matched ref_kernel registered ?M ip} = {sample_ip}"
    by (auto simp: m split: if_splits)
  then have room: "card (dom (blocked_until ref_kernel ?M) \<union> {ip. matched ref_kernel registered ?M ip}) \<le> 100000"
    by (simp only: card.insert card.empty) simp
  have "matched ref_kernel registered ?M sample_ip" by (simp add: m)
  from unblock_undone_by_watch [OF ref_room.fw_kernel_room_axioms wf room sample_pton this run,
      of 60 "\<lambda>_. (7, 0)"] run
  show ?thesis by (auto simp: block_expiry_def now_ns_def)
qed

text \<open>C21: \<open>enable\<close> reports success when it failed. With the maps unreachable it prints the
  error, then that mitigation is enabled, and exits with 0, having changed nothing.\<close>

theorem enable_hides_failure:
  assumes "obj_get S (pin_path MAP_CONFIG) < 0"
  shows "cmd_enable K S M =
    (0, [Err ''error: is the daemon running? (falconwall start <iface>)'', Out ''mitigation enabled''], M)"
  using assms by (simp add: cmd_enable_def set_config_def get_map_def Let_def)

theorem enable_hides_failure_witness:
  "cmd_enable ref_kernel (sample_sys\<lparr>obj_get := \<lambda>_. - 2\<rparr>) ref_maps =
    (0, [Err ''error: is the daemon running? (falconwall start <iface>)'', Out ''mitigation enabled''], ref_maps)"
  by (rule enable_hides_failure) simp

text \<open>The length of a ban wraps. The seconds are multiplied in 64 bits without a check, so a
  ban of 18446744074 seconds, some 584 years, ends after less than a third of a second.\<close>

lemma ban_length_wraps:
  "block_expiry now 18446744074 = now + 290448384"
  by (simp add: block_expiry_def)

end
