(* ===== verification/Frame_Parser.thy ===== *)
theory Frame_Parser
  imports Prelude
begin

section \<open>Header parsers (benchmark/include/falcon/parser)\<close>

text \<open>
  The zero-copy parsers of \<open>ethernet.hpp\<close>, \<open>ipv4.hpp\<close>, \<open>tcp.hpp\<close> and \<open>udp.hpp\<close>. A frame is
  the list of its bytes, a pointer into it an offset, a \<open>size_t\<close> a 64-bit word whose
  subtraction wraps. A parser returns the header's offset (the \<open>out\<close> parameter) and the
  offset of what follows; the inner \<open>None\<close> is \<open>nullptr\<close>, the outer one a read outside the
  frame.

  \<open>frame_ts\<close> (\<open>bench_main.cpp\<close>) walks the headers of a frame to the sender's timestamp,
  \<open>payload\<close> (\<open>validate.cpp\<close>) to the payload. The lemmas give the exact frames on which
  \<open>frame_ts\<close> reads outside the frame: neither the IPv4 header length nor the room for the
  timestamp is checked.
\<close>

datatype FrameLayer = kL2Ethernet | kL4Payload

subsection \<open>Header layouts\<close>

abbreviation (input) EtherHdr_kSize :: nat where "EtherHdr_kSize \<equiv> 14"
abbreviation (input) Ipv4Hdr_kSize :: nat where "Ipv4Hdr_kSize \<equiv> 20"
abbreviation (input) TcpHdr_kSize :: nat where "TcpHdr_kSize \<equiv> 20"
abbreviation (input) UdpHdr_kSize :: nat where "UdpHdr_kSize \<equiv> 8"

definition kEthTypeIpv4 :: u16 where "kEthTypeIpv4 = 0x0800"
definition kEthTypeIpv6 :: u16 where "kEthTypeIpv6 = 0x86DD"
definition kProtoUdp :: u8 where "kProtoUdp = 17"

definition ether_ethertype :: "bytes \<Rightarrow> nat \<Rightarrow> u16 option" where
  "ether_ethertype mem h = load16 mem (h + 12)"

definition ipv4_version_ihl :: "bytes \<Rightarrow> nat \<Rightarrow> u8 option" where
  "ipv4_version_ihl mem h = load8 mem h"

definition ipv4_protocol :: "bytes \<Rightarrow> nat \<Rightarrow> u8 option" where
  "ipv4_protocol mem h = load8 mem (h + 9)"

definition ipv4_version :: "u8 \<Rightarrow> u8" where "ipv4_version v = drop_bit 4 v"
definition ipv4_ihl :: "u8 \<Rightarrow> u8" where "ipv4_ihl v = v AND 0x0F"
definition ipv4_header_len :: "u8 \<Rightarrow> u64" where "ipv4_header_len v = ucast (ipv4_ihl v) * 4"

definition tcp_offset_ns :: "bytes \<Rightarrow> nat \<Rightarrow> u8 option" where
  "tcp_offset_ns mem h = load8 mem (h + 12)"

definition tcp_data_offset :: "u8 \<Rightarrow> u8" where "tcp_data_offset v = drop_bit 4 v"
definition tcp_header_len :: "u8 \<Rightarrow> u64" where "tcp_header_len v = ucast (tcp_data_offset v) * 4"

definition udp_len :: "bytes \<Rightarrow> nat \<Rightarrow> u16 option" where
  "udp_len mem h = load16 mem (h + 4)"

definition udp_payload_len :: "u64 \<Rightarrow> u64" where
  "udp_payload_len tot = (if tot > 8 then tot - 8 else 0)"

subsection \<open>Parsers\<close>

definition parse_ethernet :: "nat \<Rightarrow> u64 \<Rightarrow> (nat \<times> nat) option" where
  "parse_ethernet data len = (if len < 14 then None else Some (data, data + EtherHdr_kSize))"

definition parse_ipv4 :: "bytes \<Rightarrow> nat \<Rightarrow> u64 \<Rightarrow> (nat \<times> nat) option option" where
  "parse_ipv4 mem data len =
     (if len < 20 then Some None
      else do {
        v \<leftarrow> ipv4_version_ihl mem data;
        Some (Some (data, data + unat (ipv4_header_len v)))
      })"

definition parse_tcp :: "bytes \<Rightarrow> nat \<Rightarrow> u64 \<Rightarrow> (nat \<times> nat) option option" where
  "parse_tcp mem data len =
     (if len < 20 then Some None
      else do {
        v \<leftarrow> tcp_offset_ns mem data;
        Some (Some (data, data + unat (tcp_header_len v)))
      })"

definition parse_udp :: "nat \<Rightarrow> u64 \<Rightarrow> (nat \<times> nat) option" where
  "parse_udp data len = (if len < 8 then None else Some (data, data + UdpHdr_kSize))"

text \<open>
  The walk shared by \<open>frame_ts\<close> and \<open>payload\<close>: the offsets of the UDP header and of its
  payload, or \<open>Some None\<close> when the frame is not a UDP frame the parsers accept.
\<close>

definition walk_udp :: "bytes \<Rightarrow> u64 \<Rightarrow> (nat \<times> nat) option option" where
  "walk_udp mem len =
     (case parse_ethernet 0 len of
        None \<Rightarrow> Some None
      | Some (eth, p) \<Rightarrow> do {
          et \<leftarrow> ether_ethertype mem eth;
          if ntohs et \<noteq> kEthTypeIpv4 then Some None
          else do {
            r \<leftarrow> parse_ipv4 mem p (len - 14);
            (case r of
               None \<Rightarrow> Some None
             | Some (ip, q) \<Rightarrow> do {
                 proto \<leftarrow> ipv4_protocol mem ip;
                 if proto \<noteq> kProtoUdp then Some None
                 else do {
                   v \<leftarrow> ipv4_version_ihl mem ip;
                   Some (parse_udp q (len - 14 - ipv4_header_len v))
                 }
               })
          }
        })"

definition frame_ts :: "FrameLayer \<Rightarrow> bytes \<Rightarrow> u64 \<Rightarrow> u64 option" where
  "frame_ts layer mem len =
     (if layer = kL4Payload then load64 mem 0
      else do {
        r \<leftarrow> walk_udp mem len;
        (case r of None \<Rightarrow> Some 0 | Some (udp, p) \<Rightarrow> load64 mem p)
      })"

text \<open>\<open>payload\<close>: the payload's offset and its length by the UDP header, unchecked.\<close>

definition payload :: "FrameLayer \<Rightarrow> bytes \<Rightarrow> u64 \<Rightarrow> (nat \<times> u64) option option" where
  "payload layer mem len =
     (if layer = kL4Payload then Some (Some (0, len))
      else do {
        r \<leftarrow> walk_udp mem len;
        (case r of
           None \<Rightarrow> Some None
         | Some (udp, p) \<Rightarrow> do {
             l \<leftarrow> udp_len mem udp;
             Some (Some (p, ucast (ntohs l) - 8))
           })
      })"

subsection \<open>Where the walk ends\<close>

lemma unat_ipv4_header_len: "unat (ipv4_header_len v) = 4 * (unat v mod 16)"
proof -
  have "v AND 0x0F = take_bit 4 v" by (simp add: take_bit_eq_mask mask_eq_exp_minus_1)
  then have ihl: "unat (ipv4_ihl v) = unat v mod 16"
    by (simp add: ipv4_ihl_def take_bit_eq_mod unat_mod)
  have "unat (ucast (ipv4_ihl v) :: u64) = unat v mod 16"
    using ihl by (simp add: unat_ucast_up)
  then show ?thesis
    unfolding ipv4_header_len_def by (subst unat_mult_no_wrap) simp_all
qed

definition ip_header_len :: "bytes \<Rightarrow> nat" where
  "ip_header_len mem = 4 * (unat (mem ! 14) mod 16)"

definition frame_is_udp :: "bytes \<Rightarrow> bool" where
  "frame_is_udp mem = (34 \<le> length mem \<and> take 2 (drop 12 mem) = [0x08, 0x00] \<and> mem ! 23 = 17)"

lemma ethertype_ipv4:
  assumes "14 \<le> length mem"
  shows "ntohs (word_of_le (take 2 (drop 12 mem))) = kEthTypeIpv4 \<longleftrightarrow> take 2 (drop 12 mem) = [0x08, 0x00]"
proof -
  have "le_bytes 2 (htons kEthTypeIpv4) = [0x08, 0x00]"
    by (simp add: htons_def kEthTypeIpv4_def le_bytes_numeral)
  then show ?thesis
    using assms by (simp add: htons_eq_iff word_of_le_eq_iff)
qed

text \<open>A frame too short for its headers is not walked.\<close>

lemma walk_udp_short:
  assumes "length mem < 34"
  shows "walk_udp mem (of_nat (length mem)) = Some None"
proof -
  let ?len = "of_nat (length mem) :: u64"
  have len: "unat ?len = length mem" using assms by (simp add: unat_of_nat)
  show ?thesis
  proof (cases "14 \<le> length mem")
    case True
    have "unat (?len - 14) = length mem - 14"
      using True len by (subst unat_sub) (simp_all add: word_le_nat_alt)
    then have "?len - 14 < 20" and "\<not> ?len < 14"
      using True assms len by (simp_all add: word_less_nat_alt)
    with True show ?thesis
      by (simp add: walk_udp_def parse_ethernet_def parse_ipv4_def ether_ethertype_def layout_simps)
  next
    case False
    then have "?len < 14" using len by (simp add: word_less_nat_alt)
    then show ?thesis by (simp add: walk_udp_def parse_ethernet_def)
  qed
qed

text \<open>
  What \<open>parse_udp\<close> is told remains: the length behind the two headers, which wraps to a huge
  number when the IPv4 header length points beyond the end of the frame.
\<close>

lemma udp_remaining:
  assumes "length mem < 2 ^ 64" and "34 \<le> length mem"
  defines "l \<equiv> of_nat (length mem) - 14 - ipv4_header_len (mem ! 14)"
  shows "l < 8 \<longleftrightarrow> 14 + ip_header_len mem \<le> length mem \<and> length mem < 14 + ip_header_len mem + 8"
proof -
  let ?len = "of_nat (length mem) :: u64" and ?h = "ipv4_header_len (mem ! 14)"
  have len: "unat ?len = length mem" using assms(1) by (simp add: unat_of_nat)
  have h: "unat ?h = ip_header_len mem" by (simp add: unat_ipv4_header_len ip_header_len_def)
  have h60: "ip_header_len mem \<le> 60" by (simp add: ip_header_len_def)
  have l14: "unat (?len - 14) = length mem - 14"
    using assms(2) len by (subst unat_sub) (simp_all add: word_le_nat_alt)
  have "unat l = (if 14 + ip_header_len mem \<le> length mem then length mem - 14 - ip_header_len mem
       else 2 ^ 64 + (length mem - 14) - ip_header_len mem)"
  proof (cases "14 + ip_header_len mem \<le> length mem")
    case True
    then show ?thesis unfolding l_def using l14 h by (subst unat_sub) (simp_all add: word_le_nat_alt)
  next
    case False
    then have "unat (?len - 14) < unat ?h" using l14 h assms(2) by linarith
    then show ?thesis unfolding l_def using False l14 h by (subst unat_sub_if_size) (simp add: word_size)
  qed
  then show ?thesis using assms(2) h60 by (simp add: word_less_nat_alt) linarith
qed

text \<open>
  The walk never leaves the frame itself, but where it ends may lie outside: the wrapped length
  passes the check of \<open>parse_udp\<close>.
\<close>

lemma walk_udp_end:
  assumes "length mem < 2 ^ 64"
  shows "walk_udp mem (of_nat (length mem)) =
    (if frame_is_udp mem \<and>
        \<not> (14 + ip_header_len mem \<le> length mem \<and> length mem < 14 + ip_header_len mem + 8)
     then Some (Some (14 + ip_header_len mem, 14 + ip_header_len mem + 8)) else Some None)"
proof (cases "34 \<le> length mem")
  case False
  then show ?thesis using walk_udp_short [of mem] by (simp add: frame_is_udp_def)
next
  case long: True
  let ?len = "of_nat (length mem) :: u64"
  have len: "unat ?len = length mem" using assms by (simp add: unat_of_nat)
  have h: "unat (ipv4_header_len (mem ! 14)) = ip_header_len mem"
    by (simp add: unat_ipv4_header_len ip_header_len_def)
  have "unat (?len - 14) = length mem - 14"
    using long len by (subst unat_sub) (simp_all add: word_le_nat_alt)
  then have "\<not> ?len < 14" and "\<not> ?len - 14 < 20"
    using long len by (simp_all add: word_less_nat_alt)
  with long ethertype_ipv4 [of mem] udp_remaining [OF assms long] show ?thesis
    by (simp add: walk_udp_def parse_ethernet_def parse_ipv4_def ether_ethertype_def ipv4_protocol_def
        ipv4_version_ihl_def parse_udp_def layout_simps frame_is_udp_def h kProtoUdp_def)
qed

lemma frame_ts_value:
  assumes "length mem < 2 ^ 64"
  shows "frame_ts kL2Ethernet mem (of_nat (length mem)) =
    (if frame_is_udp mem \<and>
        \<not> (14 + ip_header_len mem \<le> length mem \<and> length mem < 14 + ip_header_len mem + 8)
     then load64 mem (14 + ip_header_len mem + 8) else Some 0)"
  unfolding frame_ts_def walk_udp_end [OF assms] by auto

end
