(* ===== verification/Frame_Build.thy ===== *)
theory Frame_Build
  imports Frame_Parser
begin

section \<open>Crafting frames (bench/bench\_main.cpp)\<close>

text \<open>
  The benchmark's sender builds Ethernet frames byte by byte in a buffer: \<open>ip_checksum\<close> and
  \<open>build_frame\<close>. A store outside the buffer is \<open>None\<close>. The lemmas show that the checksum
  loop ends, that with the checksum it computes the words of the header sum to all ones, and what
  bytes a frame consists of.
\<close>

subsection \<open>The Internet checksum\<close>

fun sum_words :: "bytes \<Rightarrow> u32 \<Rightarrow> u32" where
  "sum_words (a # b # rest) acc = sum_words rest (acc + (push_bit 8 (ucast a) OR ucast b))"
| "sum_words _ acc = acc"

lemma fold_step:
  fixes acc :: u32
  shows "unat ((acc AND 0xFFFF) + drop_bit 16 acc) = unat acc mod 65536 + unat acc div 65536"
proof -
  have "acc AND 0xFFFF = take_bit 16 acc" by (simp add: take_bit_eq_mask mask_eq_exp_minus_1)
  then have low: "unat (acc AND 0xFFFF) = unat acc mod 65536"
    by (simp add: take_bit_eq_mod unat_mod)
  have high: "unat (drop_bit 16 acc) = unat acc div 65536" by (simp add: unat_drop_bit_div)
  have "unat acc div 65536 < 65536" using unat_less [of acc] by (simp add: less_mult_imp_div_less)
  moreover have "unat acc mod 65536 < 65536" by simp
  ultimately have "unat acc mod 65536 + unat acc div 65536 < 2 ^ 32" by simp
  then show ?thesis using low high by (simp add: unat_add_no_wrap)
qed

function fold_sum :: "u32 \<Rightarrow> u32" where
  "fold_sum acc = (if drop_bit 16 acc \<noteq> 0 then fold_sum ((acc AND 0xFFFF) + drop_bit 16 acc) else acc)"
  by auto
termination
proof (relation "measure unat")
  fix acc :: u32
  assume "drop_bit 16 acc \<noteq> 0"
  then have "unat acc div 65536 \<noteq> 0" using unat_drop_bit_div [of 16 acc] by (auto simp: word_unat_eq_iff)
  then have "unat acc mod 65536 + unat acc div 65536 < unat acc"
    using div_mult_mod_eq [of "unat acc" 65536] by linarith
  then show "((acc AND 0xFFFF) + drop_bit 16 acc, acc) \<in> measure unat"
    using fold_step [of acc] by simp
qed simp

declare fold_sum.simps [simp del]

definition ip_checksum :: "bytes \<Rightarrow> u16" where
  "ip_checksum hdr = ucast (NOT (fold_sum (sum_words hdr 0)))"

subsection \<open>Frames\<close>

definition byte_hi :: "u16 \<Rightarrow> u8" where "byte_hi w = ucast (drop_bit 8 w)"
definition byte_lo :: "u16 \<Rightarrow> u8" where "byte_lo w = ucast (w AND 0xFF)"

text \<open>
  \<open>build_frame\<close> on a buffer, with the offsets of the source: the Ethernet header at 0, the IPv4
  header at 14, the UDP header at 34, the payload at 42. The result is the buffer and the size
  of the frame.
\<close>

definition build_frame :: "bytes \<Rightarrow> u64 \<Rightarrow> u64 \<Rightarrow> u16 \<Rightarrow> u32 \<Rightarrow> u32 \<Rightarrow> (bytes \<times> u64) option" where
  "build_frame buf payload_size ts port src_ip dst_ip = do {
     buf \<leftarrow> store_bytes buf 0 [0xff, 0xff, 0xff, 0xff, 0xff, 0xff];
     buf \<leftarrow> store_bytes buf 6 [0x02, 0x00, 0x00, 0x00, 0x00, 0x02];
     buf \<leftarrow> store_bytes buf 12 [0x08, 0x00];
     let tot = (ucast (20 + 8 + payload_size) :: u16);
     buf \<leftarrow> store_bytes buf 14 [0x45, 0, byte_hi tot, byte_lo tot, 0, 0, 0x40, 0, 64, kProtoUdp, 0, 0];
     buf \<leftarrow> store_bytes buf 26 (le_bytes 4 src_ip);
     buf \<leftarrow> store_bytes buf 30 (le_bytes 4 dst_ip);
     hdr \<leftarrow> load_bytes 20 buf 14;
     let csum = ip_checksum hdr;
     buf \<leftarrow> store_bytes buf 24 [byte_hi csum, byte_lo csum];
     let ulen = (ucast (8 + payload_size) :: u16);
     buf \<leftarrow> store_bytes buf 34 [byte_hi 50000, byte_lo 50000, byte_hi port, byte_lo port,
                                byte_hi ulen, byte_lo ulen, 0, 0];
     buf \<leftarrow> store_bytes buf 42 (le_bytes 8 ts);
     buf \<leftarrow> store_bytes buf 50 (replicate (unat (payload_size - 8)) 0);
     Some (buf, 42 + payload_size)
   }"

subsection \<open>The checksum verifies\<close>

lemma fold_sum_mod: "unat (fold_sum acc) mod 65535 = unat acc mod 65535"
proof (induction acc rule: fold_sum.induct)
  case (1 acc)
  have "(unat acc mod 65536 + unat acc div 65536) mod 65535 = unat acc mod 65535"
  proof -
    have "unat acc = (unat acc mod 65536 + unat acc div 65536) + 65535 * (unat acc div 65536)"
      using div_mult_mod_eq [of "unat acc" 65536] by simp
    then show ?thesis by (metis mod_mult_self2)
  qed
  then show ?case
    using "1.IH" fold_step [of acc] by (subst fold_sum.simps) simp
qed

lemma fold_sum_less: "unat (fold_sum acc) < 65536"
proof (induction acc rule: fold_sum.induct)
  case (1 acc)
  show ?case
  proof (cases "drop_bit 16 acc = 0")
    case True
    then have "unat acc div 65536 = 0" using unat_drop_bit_div [of 16 acc] by simp
    then show ?thesis using True by (subst fold_sum.simps) simp
  qed (use "1.IH" in \<open>subst fold_sum.simps, simp\<close>)
qed

lemma fold_sum_zero: "fold_sum acc = 0 \<longleftrightarrow> acc = 0"
proof (induction acc rule: fold_sum.induct)
  case (1 acc)
  have "(acc AND 0xFFFF) + drop_bit 16 acc = 0 \<longleftrightarrow> acc = 0"
    using fold_step [of acc] div_mult_mod_eq [of "unat acc" 65536] by (auto simp: word_unat_eq_iff)
  then show ?case using "1.IH" by (subst fold_sum.simps) auto
qed

text \<open>The sum of the header's 16-bit words in big-endian order, without wrap-around.\<close>

fun words_sum :: "bytes \<Rightarrow> nat" where
  "words_sum (a # b # rest) = unat a * 256 + unat b + words_sum rest"
| "words_sum _ = 0"

lemma unat_be_word: "unat (push_bit 8 (ucast a) OR ucast b :: u32) = unat (a :: u8) * 256 + unat (b :: u8)"
proof -
  have "push_bit 8 (ucast a) OR ucast b = (push_bit 8 (ucast a) + ucast b :: u32)"
  proof (rule disjunctive_add [symmetric])
    fix n show "\<not> bit (push_bit 8 (ucast a) :: u32) n \<or> \<not> bit (ucast b :: u32) n"
      by (auto simp: bit_simps dest: bit_imp_le_length)
  qed
  moreover have "unat (push_bit 8 (ucast a) :: u32) = unat a * 256"
    using unat_less [of a] unat_mult_no_wrap [of "ucast a :: u32" 256]
    by (simp add: push_bit_eq_mult unat_ucast_up)
  ultimately show ?thesis
    using unat_less [of a] unat_less [of b] by (simp add: unat_add_no_wrap unat_ucast_up)
qed

lemma words_sum_le: "words_sum bs \<le> 65535 * (length bs div 2)"
proof (induction bs rule: words_sum.induct)
  case (1 a b rest)
  have "unat a \<le> 255" "unat b \<le> 255" using unat_less [of a] unat_less [of b] by simp_all
  with 1 show ?case by simp
qed simp_all

lemma unat_sum_words:
  "unat acc + words_sum bs < 2 ^ 32 \<Longrightarrow> unat (sum_words bs acc) = unat acc + words_sum bs"
proof (induction bs acc rule: sum_words.induct)
  case (1 a b rest acc)
  then have "unat (acc + (push_bit 8 (ucast a) OR ucast b)) = unat acc + (unat a * 256 + unat b)"
    by (subst unat_add_no_wrap) (simp_all add: unat_be_word)
  with 1 show ?case by simp
qed simp_all

lemma unat_ip_checksum: "unat (ip_checksum bs) = 65535 - unat (fold_sum (sum_words bs 0))"
proof -
  let ?f = "fold_sum (sum_words bs 0)"
  have "unat (NOT ?f) = 2 ^ 32 - 1 - unat ?f"
    by (simp add: unat_NOT)
  moreover have "(4294967295 - x) mod 65536 = 65535 - x" if "x < 65536" for x :: nat
  proof (rule mod_nat_eqI)
    have "4294967295 - x - (65535 - x) = 65536 * 65535" using that by simp
    then show "65536 dvd 4294967295 - x - (65535 - x)" by (rule dvdI)
  qed (use that in simp_all)
  ultimately show ?thesis
    using fold_sum_less [of "sum_words bs 0"]
    by (simp add: ip_checksum_def unsigned_ucast_eq take_bit_eq_mod)
qed

text \<open>
  Storing the checksum in a field that was zero makes the sum of the words a positive multiple
  of 65535, that is all ones when its carries are folded in: how a receiver verifies a header.
\<close>

lemma words_sum_append: "even (length xs) \<Longrightarrow> words_sum (xs @ ys) = words_sum xs + words_sum ys"
  by (induction xs rule: words_sum.induct) simp_all

lemma unat_bytes_of_checksum:
  "unat (byte_hi w) * 256 + unat (byte_lo w) = unat w"
proof -
  have hi: "unat (byte_hi w) = unat w div 256"
  proof -
    have "unat w div 256 < 256" using unat_less [of w] by (simp add: less_mult_imp_div_less)
    then show ?thesis
      by (simp add: byte_hi_def unsigned_ucast_eq take_bit_nat_eq_self unat_drop_bit_div)
  qed
  have "w AND 0xFF = take_bit 8 w" by (simp add: take_bit_eq_mask mask_eq_exp_minus_1)
  then have "unat (byte_lo w) = unat w mod 256"
    by (simp add: byte_lo_def unsigned_ucast_eq take_bit_eq_mod unat_mod)
  with hi show ?thesis by simp
qed

lemma ip_checksum_verifies:
  assumes "even (length pre)" and "length pre + length post < 100000"
  defines "w \<equiv> ip_checksum (pre @ [0, 0] @ post)"
  shows "words_sum (pre @ [byte_hi w, byte_lo w] @ post) mod 65535 = 0"
    and "0 < words_sum (pre @ [byte_hi w, byte_lo w] @ post)"
proof -
  let ?s = "words_sum (pre @ [0, 0] @ post)"
  let ?f = "unat (fold_sum (sum_words (pre @ [0, 0] @ post) 0))"
  have "(length pre + length post) div 2 \<le> 50000" using assms(2) by simp
  then have "65535 * (length (pre @ [0, 0 :: u8] @ post) div 2) \<le> 65535 * 50001"
    by (intro mult_le_mono2) simp
  then have "?s < 2 ^ 32" using words_sum_le [of "pre @ [0, 0] @ post"] by simp
  then have sum: "unat (sum_words (pre @ [0, 0] @ post) 0) = ?s"
    using unat_sum_words [of 0 "pre @ [0, 0] @ post"] by simp
  have h: "words_sum (pre @ [byte_hi w, byte_lo w] @ post) = ?s + unat w"
    using assms(1) unat_bytes_of_checksum [of w] by (simp add: words_sum_append)
  have w: "?f + unat w = 65535"
    using unat_ip_checksum [of "pre @ [0, 0] @ post"] fold_sum_less [of "sum_words (pre @ [0, 0] @ post) 0"]
    by (simp add: w_def)
  have "?s mod 65535 = ?f mod 65535"
    using fold_sum_mod [of "sum_words (pre @ [0, 0] @ post) 0"] sum by simp
  then have "(?s + unat w) mod 65535 = (?f + unat w) mod 65535"
    using refl by (rule mod_add_cong)
  then show "words_sum (pre @ [byte_hi w, byte_lo w] @ post) mod 65535 = 0"
    unfolding h w by simp
  show "0 < words_sum (pre @ [byte_hi w, byte_lo w] @ post)"
  proof (cases "?s = 0")
    case True
    with sum have "?f = 0" using fold_sum_zero [of "sum_words (pre @ [0, 0] @ post) 0"] by (simp add: word_unat_eq_iff)
    with w show ?thesis unfolding h by simp
  next
    case False
    then show ?thesis unfolding h by simp
  qed
qed

subsection \<open>What a built frame consists of\<close>

definition ip_header_bytes :: "u64 \<Rightarrow> u8 \<Rightarrow> u8 \<Rightarrow> u32 \<Rightarrow> u32 \<Rightarrow> bytes" where
  "ip_header_bytes payload_size c0 c1 src_ip dst_ip =
     (let tot = (ucast (20 + 8 + payload_size) :: u16)
      in [0x45, 0, byte_hi tot, byte_lo tot, 0, 0, 0x40, 0, 64, 17, c0, c1] @ le_bytes 4 src_ip @ le_bytes 4 dst_ip)"

definition built_frame :: "u64 \<Rightarrow> u64 \<Rightarrow> u16 \<Rightarrow> u32 \<Rightarrow> u32 \<Rightarrow> bytes" where
  "built_frame payload_size ts port src_ip dst_ip =
     (let csum = ip_checksum (ip_header_bytes payload_size 0 0 src_ip dst_ip);
          ulen = (ucast (8 + payload_size) :: u16)
      in [0xff, 0xff, 0xff, 0xff, 0xff, 0xff, 0x02, 0x00, 0x00, 0x00, 0x00, 0x02, 0x08, 0x00] @
         ip_header_bytes payload_size (byte_hi csum) (byte_lo csum) src_ip dst_ip @
         [byte_hi 50000, byte_lo 50000, byte_hi port, byte_lo port, byte_hi ulen, byte_lo ulen, 0, 0] @
         le_bytes 8 ts @ replicate (unat payload_size - 8) 0)"

lemma length_ip_header_bytes [simp]: "length (ip_header_bytes n c0 c1 src_ip dst_ip) = 20"
  by (simp add: ip_header_bytes_def Let_def)

lemma length_built_frame: "8 \<le> unat n \<Longrightarrow> length (built_frame n ts port src_ip dst_ip) = 42 + unat n"
  by (simp add: built_frame_def Let_def)

text \<open>Writing on from the end of what has been written so far, and overwriting within it.\<close>

lemma store_bytes_next:
  assumes "length xs = i" and "j = i + length bs" and "j \<le> length buf"
  shows "store_bytes (xs @ drop i buf) i bs = Some ((xs @ bs) @ drop j buf)"
proof -
  have "i + length bs \<le> length (xs @ drop i buf)" using assms by simp
  moreover have "take i (xs @ drop i buf) = xs" using assms(1) by simp
  moreover have "drop (i + length bs) (xs @ drop i buf) = drop j buf"
    using assms by (simp add: add.commute)
  ultimately show ?thesis unfolding store_bytes_def by simp
qed

lemma store_bytes_within:
  assumes "length xs = i" and "length old = length bs"
  shows "store_bytes (xs @ old @ ys) i bs = Some (xs @ bs @ ys)"
  using assms(2) unfolding store_bytes_def assms(1) [symmetric] by simp

text \<open>The checksum is patched into the header it was computed over.\<close>

lemma patch_checksum:
  assumes "length eth = 14"
  shows "store_bytes (eth @ ip_header_bytes n 0 0 src_ip dst_ip @ rest) 24 [c0, c1] =
    Some (eth @ ip_header_bytes n c0 c1 src_ip dst_ip @ rest)"
proof -
  let ?pre = "eth @ take 10 (ip_header_bytes n 0 0 src_ip dst_ip)"
  let ?post = "le_bytes 4 src_ip @ le_bytes 4 dst_ip @ rest"
  have "store_bytes (?pre @ [0, 0] @ ?post) 24 [c0, c1] = Some (?pre @ [c0, c1] @ ?post)"
    using assms by (intro store_bytes_within) simp_all
  then show ?thesis by (simp add: ip_header_bytes_def Let_def)
qed

lemma build_frame_built:
  assumes "8 \<le> unat n" and "42 + unat n \<le> length buf"
  shows "build_frame buf n ts port src_ip dst_ip =
    Some (built_frame n ts port src_ip dst_ip @ drop (42 + unat n) buf, 42 + n)"
proof -
  let ?e1 = "[0xff, 0xff, 0xff, 0xff, 0xff, 0xff] :: bytes" and ?e2 = "[0x02, 0x00, 0x00, 0x00, 0x00, 0x02] :: bytes"
  let ?tot = "ucast (20 + 8 + n) :: u16" and ?ulen = "ucast (8 + n) :: u16"
  let ?i1 = "[0x45, 0, byte_hi ?tot, byte_lo ?tot, 0, 0, 0x40, 0, 64, kProtoUdp, 0, 0]"
  let ?src = "le_bytes 4 src_ip" and ?dst = "le_bytes 4 dst_ip"
  let ?udp = "[byte_hi 50000, byte_lo 50000, byte_hi port, byte_lo port, byte_hi ?ulen, byte_lo ?ulen, 0, 0]"
  let ?eth = "(?e1 @ ?e2) @ [0x08, 0x00]" and ?ip = "\<lambda>c0 c1. ip_header_bytes n c0 c1 src_ip dst_ip"
  let ?w = "ip_checksum (?ip 0 0)" and ?pad = "replicate (unat (n - 8)) (0 :: u8)"
  let ?h = "?eth @ ?ip (byte_hi ?w) (byte_lo ?w)"
  have pay: "unat (n - 8) = unat n - 8"
    using assms(1) by (subst unat_sub) (simp_all add: word_le_nat_alt)
  have 1: "store_bytes buf 0 ?e1 = Some (?e1 @ drop 6 buf)"
    using store_bytes_next [of "[]" 0 6 ?e1 buf] assms by simp
  have 2: "store_bytes (?e1 @ drop 6 buf) 6 ?e2 = Some ((?e1 @ ?e2) @ drop 12 buf)"
    using assms by (intro store_bytes_next) simp_all
  have 3: "store_bytes ((?e1 @ ?e2) @ drop 12 buf) 12 [0x08, 0x00] = Some (?eth @ drop 14 buf)"
    using assms by (intro store_bytes_next) simp_all
  have 4: "store_bytes (?eth @ drop 14 buf) 14 ?i1 = Some ((?eth @ ?i1) @ drop 26 buf)"
    using assms by (intro store_bytes_next) simp_all
  have 5: "store_bytes ((?eth @ ?i1) @ drop 26 buf) 26 ?src = Some (((?eth @ ?i1) @ ?src) @ drop 30 buf)"
    using assms by (intro store_bytes_next) simp_all
  have 6: "store_bytes (((?eth @ ?i1) @ ?src) @ drop 30 buf) 30 ?dst =
      Some ((((?eth @ ?i1) @ ?src) @ ?dst) @ drop 34 buf)"
    using assms by (intro store_bytes_next) simp_all
  have split: "(((?eth @ ?i1) @ ?src) @ ?dst) @ drop 34 buf = ?eth @ ?ip 0 0 @ drop 34 buf"
    by (simp add: ip_header_bytes_def kProtoUdp_def Let_def)
  have 7: "load_bytes 20 ((((?eth @ ?i1) @ ?src) @ ?dst) @ drop 34 buf) 14 = Some (?ip 0 0)"
    unfolding split by (rule load_bytes_at) simp_all
  have 8: "store_bytes ((((?eth @ ?i1) @ ?src) @ ?dst) @ drop 34 buf) 24 [byte_hi ?w, byte_lo ?w] =
      Some (?h @ drop 34 buf)"
    unfolding split using patch_checksum [of ?eth n src_ip dst_ip "drop 34 buf"] by simp
  have 9: "store_bytes (?h @ drop 34 buf) 34 ?udp = Some ((?h @ ?udp) @ drop 42 buf)"
    using assms by (intro store_bytes_next) simp_all
  have 10: "store_bytes ((?h @ ?udp) @ drop 42 buf) 42 (le_bytes 8 ts) =
      Some (((?h @ ?udp) @ le_bytes 8 ts) @ drop 50 buf)"
    using assms by (intro store_bytes_next) simp_all
  have 11: "store_bytes (((?h @ ?udp) @ le_bytes 8 ts) @ drop 50 buf) 50 ?pad =
      Some ((((?h @ ?udp) @ le_bytes 8 ts) @ ?pad) @ drop (42 + unat n) buf)"
    using assms pay by (intro store_bytes_next) simp_all
  show ?thesis
    unfolding build_frame_def Let_def 1 2 3 4 5 6 7 8 9 10 11 bind.bind_lunit
    by (simp add: built_frame_def Let_def pay)
qed

text \<open>The timestamp is where the receiver looks for it.\<close>

lemma built_frame_ts:
  assumes "8 \<le> unat n" and "unat n < 2 ^ 32"
  shows "frame_ts kL2Ethernet (built_frame n ts port src_ip dst_ip)
    (of_nat (length (built_frame n ts port src_ip dst_ip))) = Some ts"
proof -
  let ?f = "built_frame n ts port src_ip dst_ip"
  have len: "length ?f = 42 + unat n" using assms(1) by (rule length_built_frame)
  have udp: "frame_is_udp ?f" and ihl: "ip_header_len ?f = 20"
    using len assms(1)
    by (simp_all add: frame_is_udp_def ip_header_len_def built_frame_def ip_header_bytes_def Let_def)
  have "load64 ?f 42 = Some ts"
  proof -
    let ?w = "ip_checksum (ip_header_bytes n 0 0 src_ip dst_ip)" and ?ulen = "ucast (8 + n) :: u16"
    let ?pre = "[0xff, 0xff, 0xff, 0xff, 0xff, 0xff, 0x02, 0x00, 0x00, 0x00, 0x00, 0x02, 0x08, 0x00] @
      ip_header_bytes n (byte_hi ?w) (byte_lo ?w) src_ip dst_ip @
      [byte_hi 50000, byte_lo 50000, byte_hi port, byte_lo port, byte_hi ?ulen, byte_lo ?ulen, 0, 0]"
    have "?f = ?pre @ le_bytes 8 ts @ replicate (unat n - 8) 0" by (simp add: built_frame_def Let_def)
    then show ?thesis using load64_at [of ?pre 42 ts] by simp
  qed
  moreover have "length ?f < 2 ^ 64" using len assms(2) by simp
  ultimately show ?thesis
    using udp ihl len assms(1) by (subst frame_ts_value) simp_all
qed

end
