(* ===== verification/Packet_Filter.thy ===== *)
theory Packet_Filter
  imports Data_Plane Frame_Parser
begin

section \<open>Packet filters (backend/af\_packet.cpp, backend/af\_xdp.bpf.c)\<close>

text \<open>
  Two programs choose the benchmark's packets, UDP to port 9100: the classic BPF filter that
  the AF\_PACKET backend attaches to its socket, and the XDP program of the AF\_XDP backend.
  \<open>run_filter\<close> interprets the instructions the filter uses as the kernel does: a load outside
  the frame ends the program with 0, jumps are relative to the next instruction. The lemmas
  characterise the frames each program takes and relate the two.
\<close>

subsection \<open>Classic BPF\<close>

datatype cbpf =
    LD_H_ABS nat
  | LD_B_ABS nat
  | JEQ_K u32 nat nat
  | RET_K u32

function (sequential) run_filter :: "cbpf list \<Rightarrow> u32 \<Rightarrow> bytes \<Rightarrow> u32" where
  "run_filter [] A pkt = 0"
| "run_filter (LD_H_ABS k # prog) A pkt =
     (case load16 pkt k of None \<Rightarrow> 0 | Some v \<Rightarrow> run_filter prog (ucast (ntohs v)) pkt)"
| "run_filter (LD_B_ABS k # prog) A pkt =
     (case load8 pkt k of None \<Rightarrow> 0 | Some v \<Rightarrow> run_filter prog (ucast v) pkt)"
| "run_filter (JEQ_K k jt jf # prog) A pkt = run_filter (drop (if A = k then jt else jf) prog) A pkt"
| "run_filter (RET_K k # prog) A pkt = k"
  by pat_completeness auto
termination
  by (relation "measure (\<lambda>(prog, A, pkt). length prog)") auto

text \<open>The filter of the \<open>AfPacketBackend\<close> constructor.\<close>

definition af_packet_filter :: "cbpf list" where
  "af_packet_filter =
     [LD_H_ABS 12,
      JEQ_K 0x0800 0 4,
      LD_B_ABS 23,
      JEQ_K 17 0 7,
      LD_H_ABS 36,
      JEQ_K 9100 6 5,
      JEQ_K 0x86DD 0 4,
      LD_B_ABS 20,
      JEQ_K 17 0 2,
      LD_H_ABS 56,
      JEQ_K 9100 1 0,
      RET_K 0,
      RET_K 0xFFFFFFFF]"

definition filter_accepts :: "bytes \<Rightarrow> bool" where
  "filter_accepts pkt = (run_filter af_packet_filter 0 pkt \<noteq> 0)"

subsection \<open>The XDP program\<close>

text \<open>
  \<open>redirect\<close> is \<open>bpf_redirect_map\<close> on the socket map: the action for a queue, \<open>XDP_PASS\<close>
  when no socket is registered there. \<open>None\<close> is a read outside the frame.
\<close>

definition falcon_xdp_redirect :: "(u32 \<Rightarrow> xdp_action) \<Rightarrow> u32 \<Rightarrow> bytes \<Rightarrow> xdp_action option" where
  "falcon_xdp_redirect redirect rx_queue_index pkt =
     (if length pkt < 14 then Some XDP_PASS
      else do {
        h_proto \<leftarrow> load16 pkt 12;
        udp \<leftarrow>
          (if h_proto = htons 0x0800 then
             if length pkt < 14 + 20 then Some None
             else do {
               proto \<leftarrow> load8 pkt 23;
               vihl \<leftarrow> load8 pkt 14;
               Some (if proto \<noteq> 17 \<or> vihl AND 15 \<noteq> 5 then None else Some (14 + 20))
             }
           else if h_proto = htons 0x86DD then
             if length pkt < 14 + 40 then Some None
             else do {
               nexthdr \<leftarrow> load8 pkt 20;
               Some (if nexthdr \<noteq> 17 then None else Some (14 + 40))
             }
           else Some None);
        (case udp of
           None \<Rightarrow> Some XDP_PASS
         | Some h \<Rightarrow>
             if length pkt < h + 8 then Some XDP_PASS
             else do {
               dest \<leftarrow> load16 pkt (h + 2);
               Some (if dest \<noteq> htons 9100 then XDP_PASS else redirect rx_queue_index)
             })
      })"

subsection \<open>The frames they take\<close>

text \<open>A 16-bit field in network order.\<close>

definition be16_at :: "bytes \<Rightarrow> nat \<Rightarrow> u16 \<Rightarrow> bool" where
  "be16_at pkt i v = (i + 2 \<le> length pkt \<and> take 2 (drop i pkt) = rev (le_bytes 2 v))"

lemma load16_be16:
  assumes "i + 2 \<le> length pkt"
  shows "word_of_le (take 2 (drop i pkt)) = htons v \<longleftrightarrow> be16_at pkt i v"
proof -
  have "le_bytes 2 (htons v) = rev (le_bytes 2 v)"
    using le_bytes_word_of_le [of "rev (le_bytes 2 v)", where 'a = 16] by (simp add: htons_def)
  with assms show ?thesis by (simp add: word_of_le_eq_iff be16_at_def)
qed

lemma load16_None: "load16 pkt i = None \<longleftrightarrow> length pkt < i + 2"
  by (auto simp: load16_def load_bytes_def)

lemma load8_None: "load8 pkt i = None \<longleftrightarrow> length pkt \<le> i"
  by (auto simp: load8_def)

lemma ld_h_eq:
  assumes "load16 pkt i = Some w" and "k = ucast (v :: u16)"
  shows "(ucast (ntohs w) :: u32) = k \<longleftrightarrow> be16_at pkt i v"
proof -
  have len: "i + 2 \<le> length pkt" and w: "w = word_of_le (take 2 (drop i pkt))"
    using assms(1) load16_None [of pkt i] by (auto simp: load16_def load_bytes_def split: if_splits)
  have "(ucast (ntohs w) :: u32) = ucast v \<longleftrightarrow> ntohs w = v"
    by (simp add: word_unat_eq_iff unat_ucast_up)
  then show ?thesis
    using load16_be16 [OF len, of v] by (simp add: assms(2) w htons_eq_iff)
qed

lemma ld_b_eq: "(ucast (w :: u8) :: u32) = 17 \<longleftrightarrow> w = 17"
  by (simp add: word_unat_eq_iff unat_ucast_up)

lemma be16_at_inj: "be16_at pkt i v \<Longrightarrow> be16_at pkt i w \<Longrightarrow> v = w"
  by (metis be16_at_def htons_htons load16_be16)

lemma be16_at_length: "be16_at pkt i v \<Longrightarrow> i + 2 \<le> length pkt"
  by (simp add: be16_at_def)

lemma be16_at_load: "be16_at pkt i v \<Longrightarrow> load16 pkt i \<noteq> None"
  by (simp add: load16_None be16_at_def)

text \<open>A UDP datagram to port 9100 behind an IPv4 header of 20 bytes, or behind an IPv6 header.\<close>

definition udp4_to_9100 :: "bytes \<Rightarrow> bool" where
  "udp4_to_9100 pkt = (be16_at pkt 12 0x0800 \<and> pkt ! 23 = 17 \<and> be16_at pkt 36 9100)"

definition udp6_to_9100 :: "bytes \<Rightarrow> bool" where
  "udp6_to_9100 pkt = (be16_at pkt 12 0x86DD \<and> pkt ! 20 = 17 \<and> be16_at pkt 56 9100)"

lemma filter_accepts_iff: "filter_accepts pkt \<longleftrightarrow> udp4_to_9100 pkt \<or> udp6_to_9100 pkt"
proof (cases "load16 pkt 12")
  case None
  then show ?thesis
    using be16_at_length [of pkt 12] load16_None [of pkt 12]
    by (auto simp: filter_accepts_def af_packet_filter_def udp4_to_9100_def udp6_to_9100_def)
next
  case (Some et)
  note et = ld_h_eq [OF Some]
  have port: "load16 pkt i = Some d \<Longrightarrow> ucast (ntohs d) = (9100 :: u32) \<longleftrightarrow> be16_at pkt i 9100" for i d
    by (rule ld_h_eq) simp_all
  have ip4: "ucast (ntohs et) = (0x0800 :: u32) \<longleftrightarrow> be16_at pkt 12 0x0800" by (rule et) simp
  have ip6: "ucast (ntohs et) = (0x86DD :: u32) \<longleftrightarrow> be16_at pkt 12 0x86DD" by (rule et) simp
  have not_both: "\<not> (be16_at pkt 12 0x0800 \<and> be16_at pkt 12 0x86DD)"
    using be16_at_inj [of pkt 12 "0x0800" "0x86DD"] by auto
  show ?thesis
    using ip4 ip6 not_both port be16_at_load [of pkt 36 9100] be16_at_load [of pkt 56 9100]
    by (cases "load8 pkt 23"; cases "load16 pkt 36"; cases "load8 pkt 20"; cases "load16 pkt 56")
      (auto simp: filter_accepts_def af_packet_filter_def Some udp4_to_9100_def udp6_to_9100_def
        load8_def ld_b_eq dest: be16_at_length split: if_splits)
qed

text \<open>The XDP program takes the same frames, except those it cannot be sure about.\<close>

lemma falcon_xdp_redirect_iff:
  "falcon_xdp_redirect redirect q pkt =
    Some (if udp4_to_9100 pkt \<and> pkt ! 14 AND 15 = 5 \<and> 42 \<le> length pkt \<or>
             udp6_to_9100 pkt \<and> 62 \<le> length pkt then redirect q else XDP_PASS)"
proof (cases "14 \<le> length pkt")
  case False
  then show ?thesis
    by (auto simp: falcon_xdp_redirect_def udp4_to_9100_def udp6_to_9100_def dest: be16_at_length)
next
  case True
  have not_both: "\<not> (be16_at pkt 12 0x0800 \<and> be16_at pkt 12 0x86DD)"
    using be16_at_inj [of pkt 12 "0x0800" "0x86DD"] by auto
  show ?thesis
    using True not_both load16_be16 [of 12 pkt]
      load16_be16 [of 36 pkt] load16_be16 [of 56 pkt]
    by (auto simp: falcon_xdp_redirect_def udp4_to_9100_def udp6_to_9100_def layout_simps not_less)
qed

end
