(* ===== verification/Packet_IO.thy ===== *)
theory Packet_IO
  imports Frame_Parser
begin

section \<open>The backend interface (core/backend.hpp, core/frame.hpp, core/stats.hpp)\<close>

text \<open>
  \<open>PacketIO\<close> is the static interface of the benchmark's backends: \<open>recv\<close> fills an array of
  \<open>cap\<close> (the source's \<open>max\<close>) frames, \<open>stats\<close> returns the counters. Its contract is the locale \<open>packet_io\<close>: a call
  never hands out more frames than the array holds, and the counters record exactly the frames
  handed out. What the kernel does during a call is an argument \<open>w\<close>; \<open>ok\<close> is what the contract
  asks of the kernel and of the array's size. The lemma about a sequence of calls is what the
  benchmark loops rely on; each backend interprets the locale.
\<close>

record Frame =
  data :: nat
  len :: u64

record PacketStats =
  packets :: u64
  bytes :: u64
  drops :: u64

text \<open>\<open>stats.packets += got\<close> and \<open>stats.bytes += len\<close> for each frame.\<close>

definition count_frames :: "Frame list \<Rightarrow> PacketStats \<Rightarrow> PacketStats" where
  "count_frames fs s = s\<lparr>packets := packets s + of_nat (length fs), bytes := bytes s + sum_list (map len fs)\<rparr>"

lemma count_frames_append: "count_frames (fs @ gs) s = count_frames gs (count_frames fs s)"
  by (simp add: count_frames_def add.assoc)

lemma count_frames_Nil [simp]: "count_frames [] s = s"
  by (simp add: count_frames_def)

locale packet_io =
  fixes recv :: "'w \<Rightarrow> nat \<Rightarrow> 'st \<Rightarrow> string + Frame list \<times> 'st"
    and stats :: "'st \<Rightarrow> PacketStats"
    and ok :: "'w \<Rightarrow> nat \<Rightarrow> 'st \<Rightarrow> bool"
  assumes recv_fits: "ok w cap st \<Longrightarrow> recv w cap st = Inr (out, st') \<Longrightarrow> length out \<le> cap"
    and recv_counts: "ok w cap st \<Longrightarrow> recv w cap st = Inr (out, st') \<Longrightarrow>
      stats st' = count_frames out (stats st)"
begin

text \<open>A sequence of calls with the same array: the frames of each call and the last state.\<close>

fun recvs :: "'w list \<Rightarrow> nat \<Rightarrow> 'st \<Rightarrow> string + Frame list list \<times> 'st" where
  "recvs [] cap st = Inr ([], st)"
| "recvs (w # ws) cap st =
     (case recv w cap st of
        Inl e \<Rightarrow> Inl e
      | Inr (out, st') \<Rightarrow>
          (case recvs ws cap st' of Inl e \<Rightarrow> Inl e | Inr (outs, st'') \<Rightarrow> Inr (out # outs, st'')))"

fun all_ok :: "'w list \<Rightarrow> nat \<Rightarrow> 'st \<Rightarrow> bool" where
  "all_ok [] cap st = True"
| "all_ok (w # ws) cap st =
     (ok w cap st \<and> (case recv w cap st of Inl e \<Rightarrow> True | Inr (out, st') \<Rightarrow> all_ok ws cap st'))"

lemma recvs_count:
  "all_ok ws cap st \<Longrightarrow> recvs ws cap st = Inr (outs, st') \<Longrightarrow>
     stats st' = count_frames (concat outs) (stats st) \<and> (\<forall>out \<in> set outs. length out \<le> cap)"
proof (induction ws arbitrary: st outs)
  case (Cons w ws)
  then obtain out st1 outs1 where one: "recv w cap st = Inr (out, st1)"
    and rest: "recvs ws cap st1 = Inr (outs1, st')" and outs: "outs = out # outs1"
    by (auto split: sum.splits)
  have "ok w cap st" and "all_ok ws cap st1" using Cons.prems(1) one by simp_all
  with Cons.IH [OF _ rest] recv_fits [OF _ one] recv_counts [OF _ one] show ?case
    by (simp add: outs count_frames_append)
qed simp

end

end
