(* ===== verification/Socket_Backend.thy ===== *)
theory Socket_Backend
  imports Packet_IO
begin

section \<open>The UDP socket backend (backend/socket.cpp)\<close>

text \<open>
  \<open>SocketBackend::recvImpl\<close> drains the socket with \<open>recvmmsg\<close> into 64 slots of one slab. The
  state is the slots and the counters; what the kernel does in a call is the value of
  \<open>epoll_wait\<close> and the results of the successive \<open>recvmmsg\<close> calls, after which the socket is
  drained. \<open>recvmmsg\<close> truncates a datagram to its slot.

  The lemmas show that a call with an array of at most 64 entries hands out exactly the
  datagrams it read, in order, and what goes wrong with a larger array: every batch is read
  into the same slots, so the frames of earlier batches change under the caller.
\<close>

definition kBATCH :: nat where "kBATCH = 64"
definition kBUFSIZE :: nat where "kBUFSIZE = 2048"

record socket_backend =
  slots :: "bytes list"
  sock_stats :: PacketStats

datatype mmsg_result = Got "bytes list" | Again | Fail string

record socket_world =
  epoll_ready :: int
  mmsgs :: "mmsg_result list"

text \<open>The kernel's side of \<open>recvmmsg\<close>: message \<open>i\<close> goes to slot \<open>i\<close>.\<close>

fun fill_slots :: "nat \<Rightarrow> bytes list \<Rightarrow> bytes list \<Rightarrow> bytes list" where
  "fill_slots i [] sl = sl"
| "fill_slots i (d # ds) sl =
     fill_slots (Suc i) ds (sl[i := take kBUFSIZE d @ drop (length (take kBUFSIZE d)) (sl ! i)])"

definition batch_frames :: "bytes list \<Rightarrow> Frame list" where
  "batch_frames ds =
     map (\<lambda>(i, d). \<lparr>data = i * kBUFSIZE, len = of_nat (length (take kBUFSIZE d))\<rparr>) (enumerate 0 ds)"

fun recv_loop :: "nat \<Rightarrow> nat \<Rightarrow> mmsg_result list \<Rightarrow> Frame list \<Rightarrow> socket_backend \<Rightarrow>
    string + Frame list \<times> socket_backend" where
  "recv_loop n cap [] out b = Inr (out, b)"
| "recv_loop n cap (Again # rs) out b = Inr (out, b)"
| "recv_loop n cap (Fail e # rs) out b = Inl (''recvmmsg() failed: '' @ e)"
| "recv_loop n cap (Got ds # rs) out b =
     (let b' = b\<lparr>slots := fill_slots 0 ds (slots b), sock_stats := count_frames (batch_frames ds) (sock_stats b)\<rparr>;
          out' = out @ batch_frames ds
      in if length ds < n then Inr (out', b')
         else if cap \<le> length out' then Inr (out', b')
         else recv_loop n cap rs out' b')"

definition socket_recv :: "socket_world \<Rightarrow> nat \<Rightarrow> socket_backend \<Rightarrow> string + Frame list \<times> socket_backend" where
  "socket_recv w cap b =
     (let n = min cap kBATCH
      in if epoll_ready w \<le> 0 then Inr ([], b) else recv_loop n cap (mmsgs w) [] b)"

text \<open>What a caller reads through a frame.\<close>

definition frame_content :: "socket_backend \<Rightarrow> Frame \<Rightarrow> bytes" where
  "frame_content b f = take (unat (len f)) (slots b ! (data f div kBUFSIZE))"

subsection \<open>Batches\<close>

text \<open>The slots are as the constructor made them; the kernel returns at most \<open>n\<close> messages.\<close>

definition slots_ok :: "socket_backend \<Rightarrow> bool" where
  "slots_ok b = (length (slots b) = kBATCH \<and> (\<forall>s \<in> set (slots b). length s = kBUFSIZE))"

definition batches_ok :: "nat \<Rightarrow> mmsg_result list \<Rightarrow> bool" where
  "batches_ok n rs = (\<forall>ds. Got ds \<in> set rs \<longrightarrow> length ds \<le> n)"

lemma batch_frames_Nil [simp]: "batch_frames ds = [] \<longleftrightarrow> ds = []"
  by (simp add: batch_frames_def flip: length_0_conv)

lemma length_batch_frames [simp]: "length (batch_frames ds) = length ds"
  by (simp add: batch_frames_def)

lemma nth_batch_frames:
  "i < length ds \<Longrightarrow> batch_frames ds ! i = \<lparr>data = i * kBUFSIZE, len = of_nat (length (take kBUFSIZE (ds ! i)))\<rparr>"
  by (simp add: batch_frames_def nth_enumerate_eq)

lemma length_fill_slots [simp]: "length (fill_slots i ds sl) = length sl"
  by (induction i ds sl rule: fill_slots.induct) simp_all

lemma nth_fill_slots:
  "i + length ds \<le> length sl \<Longrightarrow> j < length sl \<Longrightarrow>
   fill_slots i ds sl ! j =
     (if i \<le> j \<and> j < i + length ds
      then take kBUFSIZE (ds ! (j - i)) @ drop (length (take kBUFSIZE (ds ! (j - i)))) (sl ! j)
      else sl ! j)"
proof (induction i ds sl rule: fill_slots.induct)
  case (2 i d ds sl)
  then show ?case by (auto simp: nth_Cons' nth_list_update)
qed auto

text \<open>
  With an array whose size is a multiple of the batch, every batch fits in what is left of the
  array. An array of at most 64 entries is one batch.
\<close>

lemma recv_loop_fits:
  assumes "recv_loop n cap rs out b = Inr (out', b')" and "batches_ok n rs"
    and "n dvd cap" and "n dvd length out" and "length out \<le> cap" and "length out = cap \<longrightarrow> n = 0"
  shows "length out' \<le> cap"
  using assms
proof (induction n cap rs out b rule: recv_loop.induct)
  case (4 n cap ds rs out b)
  have ds: "length ds \<le> n" using "4.prems"(2) by (simp add: batches_ok_def)
  have "n dvd cap - length out" using "4.prems"(3,4) by simp
  then have "n \<le> cap - length out \<or> cap = length out"
    using "4.prems"(5) by (auto dest: dvd_imp_le)
  with ds "4.prems"(5,6) have fits: "length out + length ds \<le> cap" by auto
  show ?case
  proof (cases "length ds < n \<or> cap \<le> length out + length ds")
    case True
    with "4.prems"(1) fits show ?thesis by (auto simp: Let_def split: if_splits)
  next
    case False
    then have "length ds = n" using ds by simp
    with False "4.prems" "4.IH" [OF refl refl] show ?thesis by (simp add: batches_ok_def)
  qed
qed auto

lemma recv_loop_counts:
  "recv_loop n cap rs out b = Inr (out', b') \<Longrightarrow>
     \<exists>new. out' = out @ new \<and> sock_stats b' = count_frames new (sock_stats b)"
proof (induction n cap rs out b rule: recv_loop.induct)
  case (4 n cap ds rs out b)
  show ?case
  proof (cases "length ds < n \<or> cap \<le> length out + length ds")
    case True
    with 4 show ?thesis by (auto simp: Let_def split: if_splits)
  next
    case False
    with 4 obtain new where "out' = (out @ batch_frames ds) @ new"
      and "sock_stats b' = count_frames new (count_frames (batch_frames ds) (sock_stats b))"
      by (auto simp: Let_def)
    then show ?thesis by (auto simp: count_frames_append)
  qed
qed auto

definition socket_ok :: "socket_world \<Rightarrow> nat \<Rightarrow> socket_backend \<Rightarrow> bool" where
  "socket_ok w cap b = ((cap \<le> kBATCH \<or> kBATCH dvd cap) \<and> batches_ok (min cap kBATCH) (mmsgs w))"

interpretation socket_io: packet_io socket_recv sock_stats socket_ok
proof
  fix w cap b out b'
  assume ok: "socket_ok w cap b" and recv: "socket_recv w cap b = Inr (out, b')"
  show "length out \<le> cap"
    using ok recv recv_loop_fits [of "min cap kBATCH" cap "mmsgs w" "[]" b out b']
    by (auto simp: socket_recv_def socket_ok_def Let_def min_def split: if_splits)
  show "sock_stats b' = count_frames out (sock_stats b)"
    using recv recv_loop_counts [of "min cap kBATCH" cap "mmsgs w" "[]" b out b']
    by (auto simp: socket_recv_def Let_def split: if_splits)
qed

subsection \<open>What the frames hold\<close>

lemma frame_content_slot:
  assumes "length ds \<le> length sl" and "i < length ds"
  shows "frame_content (b\<lparr>slots := fill_slots 0 ds sl\<rparr>)
      \<lparr>data = i * kBUFSIZE, len = of_nat (min (length (ds ! i)) kBUFSIZE)\<rparr> = take kBUFSIZE (ds ! i)"
proof -
  have "unat (of_nat (min (length (ds ! i)) kBUFSIZE) :: u64) = min (length (ds ! i)) kBUFSIZE"
    by (simp add: unat_of_nat kBUFSIZE_def)
  then show ?thesis
    using assms by (simp add: frame_content_def nth_fill_slots kBUFSIZE_def min_def)
qed

lemma frame_content_batch:
  assumes "length ds \<le> length sl" and "i < length ds"
  shows "frame_content (b\<lparr>slots := fill_slots 0 ds sl\<rparr>) (batch_frames ds ! i) = take kBUFSIZE (ds ! i)"
  using assms by (simp add: nth_batch_frames frame_content_slot)

text \<open>One batch: the frames hold the datagrams, in order.\<close>

lemma socket_recv_small:
  assumes "cap \<le> kBATCH" and "0 < epoll_ready w" and "mmsgs w = Got ds # rs" and "length ds \<le> cap"
    and "slots_ok b"
  shows "\<exists>b'. socket_recv w cap b = Inr (batch_frames ds, b') \<and>
    map (frame_content b') (batch_frames ds) = map (take kBUFSIZE) ds"
proof -
  let ?b = "b\<lparr>sock_stats := count_frames (batch_frames ds) (sock_stats b)\<rparr>"
  have "map (frame_content (?b\<lparr>slots := fill_slots 0 ds (slots b)\<rparr>)) (batch_frames ds) = map (take kBUFSIZE) ds"
    using assms by (intro nth_equalityI) (auto simp: frame_content_batch slots_ok_def)
  moreover have "?b\<lparr>slots := fill_slots 0 ds (slots b)\<rparr> =
      b\<lparr>slots := fill_slots 0 ds (slots b), sock_stats := count_frames (batch_frames ds) (sock_stats b)\<rparr>" by simp
  ultimately show ?thesis
    using assms by (auto simp: socket_recv_def Let_def)
qed

text \<open>
  Two batches: the second is read into the slots of the first, whose frames now show the second
  batch's datagrams.
\<close>

lemma socket_recv_overwrites:
  assumes "kBATCH < cap" and "0 < epoll_ready w" and "mmsgs w = [Got as, Got bs]"
    and "length as = kBATCH" and "length bs \<le> kBATCH" and "slots_ok b"
  shows "\<exists>b'. socket_recv w cap b = Inr (batch_frames as @ batch_frames bs, b') \<and>
    (\<forall>i < length bs. frame_content b' (batch_frames bs ! i) = take kBUFSIZE (bs ! i) \<and>
       (length (as ! i) = length (bs ! i) \<longrightarrow> frame_content b' (batch_frames as ! i) = take kBUFSIZE (bs ! i)))"
proof -
  let ?sl = "fill_slots 0 as (slots b)"
  let ?st = "count_frames (batch_frames bs) (count_frames (batch_frames as) (sock_stats b))"
  let ?b = "(b\<lparr>sock_stats := ?st\<rparr>)\<lparr>slots := fill_slots 0 bs ?sl\<rparr>"
  have len: "length bs \<le> length ?sl" using assms(5,6) by (simp add: slots_ok_def)
  show ?thesis
  proof (intro exI conjI allI impI)
    show "socket_recv w cap b = Inr (batch_frames as @ batch_frames bs, ?b)"
      using assms by (auto simp: socket_recv_def Let_def)
  next
    fix i assume i: "i < length bs"
    with len show "frame_content ?b (batch_frames bs ! i) = take kBUFSIZE (bs ! i)"
      by (rule frame_content_batch)
    assume "length (as ! i) = length (bs ! i)"
    with i len assms(4,5) show "frame_content ?b (batch_frames as ! i) = take kBUFSIZE (bs ! i)"
      by (simp add: nth_batch_frames frame_content_slot del: length_fill_slots)
  qed
qed

end
