(* ===== verification/Af_Packet_Backend.thy ===== *)
theory Af_Packet_Backend
  imports Packet_IO
begin

section \<open>The AF\_PACKET backend (backend/af\_packet.cpp)\<close>

text \<open>
  \<open>AfPacketBackend::recvImpl\<close> reads a TPACKET\_V3 ring: blocks that the kernel fills with a
  chain of packets and hands over by setting a status bit. The state is the ring and the
  backend's position in it. A block's memory is its header and the packet headers by their
  offset; \<open>waits\<close> are the values of the successive \<open>epoll_wait\<close> calls with what the kernel
  does to the ring meanwhile, after which a wait times out.

  The lemmas show that the frames a call hands out are the next packets of the current block,
  in order and none twice, that the ring is untouched while they are handed out, and that the
  next call gives back the finished block and no other.
\<close>

definition TP_STATUS_KERNEL :: u32 where "TP_STATUS_KERNEL = 0"
definition TP_STATUS_USER :: u32 where "TP_STATUS_USER = 1"
definition kBlockSize :: nat where "kBlockSize = 2 ^ 20"
definition kBlockCount :: nat where "kBlockCount = 64"

record tpacket_hdr =
  tp_mac :: nat
  tp_snaplen :: u32
  tp_next_offset :: u32

record ring_block =
  block_status :: u32
  num_pkts :: u32
  offset_to_first_pkt :: u32
  pkt_at :: "u32 \<Rightarrow> tpacket_hdr"

record af_packet =
  ring :: "ring_block list"
  block_index :: nat
  packet_index :: u32
  packets_in_block :: u32
  packet_offset :: u32
  release_block :: bool
  ap_stats :: PacketStats

type_synonym waits = "(int \<times> (ring_block list \<Rightarrow> ring_block list)) list"

abbreviation current_block :: "af_packet \<Rightarrow> ring_block" where
  "current_block b \<equiv> ring b ! block_index b"

definition packet_frame :: "nat \<Rightarrow> ring_block \<Rightarrow> u32 \<Rightarrow> Frame" where
  "packet_frame i block off =
     \<lparr>data = i * kBlockSize + unat off + tp_mac (pkt_at block off), len = ucast (tp_snaplen (pkt_at block off))\<rparr>"

definition release_finished :: "af_packet \<Rightarrow> af_packet" where
  "release_finished b =
     (if release_block b
      then b\<lparr>ring := (ring b)[block_index b := (current_block b)\<lparr>block_status := TP_STATUS_KERNEL\<rparr>],
             block_index := (block_index b + 1) mod kBlockCount, release_block := False\<rparr>
      else b)"

text \<open>Handing out one packet of the current block, up to the test for its last packet.\<close>

definition take_packet :: "af_packet \<Rightarrow> Frame \<times> af_packet" where
  "take_packet b =
     (let block = current_block b;
          b = (if packet_index b = 0
               then b\<lparr>packets_in_block := num_pkts block, packet_offset := offset_to_first_pkt block\<rparr> else b);
          f = packet_frame (block_index b) block (packet_offset b)
      in (f, b\<lparr>ap_stats := count_frames [f] (ap_stats b), packet_index := packet_index b + 1,
               packet_offset := packet_offset b + tp_next_offset (pkt_at block (packet_offset b))\<rparr>))"

function ap_loop :: "nat \<Rightarrow> waits \<Rightarrow> Frame list \<Rightarrow> af_packet \<Rightarrow> Frame list \<times> af_packet" where
  "ap_loop cap ws out b =
     (if cap \<le> length out then (out, b)
      else if block_status (current_block b) AND TP_STATUS_USER = 0 then
        if out \<noteq> [] then (out, b)
        else (case ws of
                [] \<Rightarrow> (out, b)
              | (ready, kern) # ws' \<Rightarrow>
                  if ready \<le> 0 then (out, b\<lparr>ring := kern (ring b)\<rparr>)
                  else ap_loop cap ws' out (b\<lparr>ring := kern (ring b)\<rparr>))
      else (case take_packet b of
              (f, b') \<Rightarrow>
                if packet_index b' = packets_in_block b'
                then (out @ [f], b'\<lparr>release_block := True, packet_index := 0, packets_in_block := 0, packet_offset := 0\<rparr>)
                else ap_loop cap ws (out @ [f]) b'))"
  by pat_completeness auto
termination
  by (relation "measure (\<lambda>(cap, ws, out, b). length ws + (cap - length out))") auto

declare ap_loop.simps [simp del]

definition ap_recv :: "waits \<Rightarrow> nat \<Rightarrow> af_packet \<Rightarrow> string + Frame list \<times> af_packet" where
  "ap_recv ws cap b = Inr (ap_loop cap ws [] (release_finished b))"

subsection \<open>The contract\<close>

lemma take_packet_stats: "take_packet b = (f, b') \<Longrightarrow> ap_stats b' = count_frames [f] (ap_stats b)"
  by (auto simp: take_packet_def Let_def)

lemma ap_loop_fits: "length out \<le> cap \<Longrightarrow> ap_loop cap ws out b = (out', b') \<Longrightarrow> length out' \<le> cap"
proof (induction cap ws out b rule: ap_loop.induct)
  case (1 cap ws out b)
  then show ?case
    by (subst (asm) (3) ap_loop.simps)
      (auto split: if_splits list.splits prod.splits)
qed

lemma ap_loop_counts:
  "ap_loop cap ws out b = (out', b') \<Longrightarrow> \<exists>new. out' = out @ new \<and> ap_stats b' = count_frames new (ap_stats b)"
proof (induction cap ws out b rule: ap_loop.induct)
  case (1 cap ws out b)
  show ?case
    using "1.prems" "1.IH" take_packet_stats [of b]
    by (subst (asm) ap_loop.simps)
      (fastforce split: if_splits list.splits prod.splits simp: count_frames_append [symmetric])
qed

interpretation af_packet_io: packet_io ap_recv ap_stats "\<lambda>_ _ _. True"
proof
  fix w cap b out b'
  assume "ap_recv w cap b = Inr (out, b')"
  then have loop: "ap_loop cap w [] (release_finished b) = (out, b')" by (simp add: ap_recv_def)
  then show "length out \<le> cap" by (rule ap_loop_fits [rotated]) simp
  show "ap_stats b' = count_frames out (ap_stats b)"
    using ap_loop_counts [OF loop] by (auto simp: release_finished_def split: if_splits)
qed

subsection \<open>In order, exactly once\<close>

text \<open>The chain of packets of a block, and the frames it stands for.\<close>

fun pkt_offset :: "ring_block \<Rightarrow> nat \<Rightarrow> u32" where
  "pkt_offset block 0 = offset_to_first_pkt block"
| "pkt_offset block (Suc i) = pkt_offset block i + tp_next_offset (pkt_at block (pkt_offset block i))"

definition block_frames :: "nat \<Rightarrow> ring_block \<Rightarrow> Frame list" where
  "block_frames i block = map (\<lambda>j. packet_frame i block (pkt_offset block j)) [0..<unat (num_pkts block)]"

text \<open>The position of the backend in a block that the kernel has handed over.\<close>

definition in_block :: "af_packet \<Rightarrow> bool" where
  "in_block b =
     (block_status (current_block b) AND TP_STATUS_USER \<noteq> 0 \<and>
      unat (packet_index b) < unat (num_pkts (current_block b)) \<and>
      (packet_index b \<noteq> 0 \<longrightarrow> packets_in_block b = num_pkts (current_block b) \<and>
         packet_offset b = pkt_offset (current_block b) (unat (packet_index b))))"

definition pending :: "af_packet \<Rightarrow> Frame list" where
  "pending b = drop (unat (packet_index b)) (block_frames (block_index b) (current_block b))"

lemma take_packet_in_block:
  assumes "in_block b" and "take_packet b = (f, b')"
  shows "pending b = f # drop (Suc (unat (packet_index b))) (block_frames (block_index b) (current_block b))"
    and "ring b' = ring b" and "block_index b' = block_index b" and "release_block b' = release_block b"
    and "unat (packet_index b') = Suc (unat (packet_index b))"
    and "packets_in_block b' = num_pkts (current_block b)"
    and "packet_offset b' = pkt_offset (current_block b) (unat (packet_index b'))"
proof -
  let ?i = "unat (packet_index b)"
  have i: "?i < unat (num_pkts (current_block b))" using assms(1) by (simp add: in_block_def)
  then have suc: "unat (packet_index b + 1) = Suc ?i"
    using unat_less [of "num_pkts (current_block b)"] by (intro unat_Suc_no_wrap) simp
  have off: "(if packet_index b = 0 then offset_to_first_pkt (current_block b) else packet_offset b) =
      pkt_offset (current_block b) ?i"
    using assms(1) by (simp add: in_block_def)
  have "pending b = block_frames (block_index b) (current_block b) ! ?i #
      drop (Suc ?i) (block_frames (block_index b) (current_block b))"
    using i unfolding pending_def by (intro Cons_nth_drop_Suc [symmetric]) (simp add: block_frames_def)
  moreover have "f = block_frames (block_index b) (current_block b) ! ?i"
    using assms(2) off i by (auto simp: take_packet_def Let_def block_frames_def split: if_splits)
  ultimately show "pending b = f # drop (Suc ?i) (block_frames (block_index b) (current_block b))" by simp
  show "ring b' = ring b" and "block_index b' = block_index b" and "release_block b' = release_block b"
    and "unat (packet_index b') = Suc ?i" and "packets_in_block b' = num_pkts (current_block b)"
    using assms suc by (auto simp: take_packet_def Let_def in_block_def split: if_splits)
  then show "packet_offset b' = pkt_offset (current_block b) (unat (packet_index b'))"
    using assms(2) off by (auto simp: take_packet_def Let_def split: if_splits)
qed

text \<open>One turn of the loop inside a block: the last packet finishes it, another moves on.\<close>

lemma ap_loop_last:
  assumes "in_block b" and "length out < cap" and "take_packet b = (f, b1)" and "packet_index b1 = packets_in_block b1"
  shows "pending b = [f]" and "ap_loop cap ws out b = (out @ [f],
    b1\<lparr>release_block := True, packet_index := 0, packets_in_block := 0, packet_offset := 0\<rparr>)"
proof -
  note one = take_packet_in_block [OF assms(1,3)]
  have "Suc (unat (packet_index b)) = unat (num_pkts (current_block b))"
    using assms(4) one(5,6) by (simp add: word_unat_eq_iff)
  then show "pending b = [f]" using one(1) by (simp add: block_frames_def)
  have "block_status (current_block b) AND TP_STATUS_USER \<noteq> 0" using assms(1) by (simp add: in_block_def)
  then show "ap_loop cap ws out b = (out @ [f],
      b1\<lparr>release_block := True, packet_index := 0, packets_in_block := 0, packet_offset := 0\<rparr>)"
    using assms(2-4) by (subst ap_loop.simps) simp
qed

lemma ap_loop_next:
  assumes "in_block b" and "length out < cap" and "take_packet b = (f, b1)" and "packet_index b1 \<noteq> packets_in_block b1"
  shows "ap_loop cap ws out b = ap_loop cap ws (out @ [f]) b1" and "in_block b1" and "pending b = f # pending b1"
    and "pending b1 \<noteq> []"
proof -
  note one = take_packet_in_block [OF assms(1,3)]
  have user: "block_status (current_block b) AND TP_STATUS_USER \<noteq> 0"
    and i: "unat (packet_index b) < unat (num_pkts (current_block b))"
    using assms(1) by (simp_all add: in_block_def)
  then show "ap_loop cap ws out b = ap_loop cap ws (out @ [f]) b1"
    using assms(2-4) by (subst ap_loop.simps) simp
  have "Suc (unat (packet_index b)) \<noteq> unat (num_pkts (current_block b))"
    using assms(4) one(5,6) by (simp add: word_unat_eq_iff)
  then show in1: "in_block b1" using user i one by (simp add: in_block_def)
  show "pending b = f # pending b1" using one by (simp add: pending_def)
  show "pending b1 \<noteq> []" using in1 by (auto simp: pending_def block_frames_def in_block_def)
qed

text \<open>
  A call inside a block takes as many pending frames as fit; after the last one the block is
  finished but still the backend's, otherwise the position moves on.
\<close>

lemma ap_loop_in_block:
  assumes "in_block b" and "length out < cap"
  shows "\<exists>b'. ap_loop cap ws out b = (out @ take (cap - length out) (pending b), b') \<and>
    ring b' = ring b \<and> block_index b' = block_index b \<and>
    (if length (pending b) \<le> cap - length out
     then release_block b' \<and> packet_index b' = 0
     else release_block b' = release_block b \<and> in_block b' \<and> pending b' = drop (cap - length out) (pending b))"
  using assms
proof (induction "cap - length out" arbitrary: out b)
  case (Suc k)
  obtain f b1 where tp: "take_packet b = (f, b1)" by fastforce
  note one = take_packet_in_block [OF Suc.prems(1) tp]
  show ?case
  proof (cases "packet_index b1 = packets_in_block b1")
    case True
    from ap_loop_last [OF Suc.prems tp this] Suc.prems(2) one(2,3) show ?thesis
      by (simp add: take_Cons' Suc_le_eq)
  next
    case False
    note next1 = ap_loop_next [OF Suc.prems tp False]
    show ?thesis
    proof (cases "length (out @ [f]) < cap")
      case True
      with Suc.hyps(1) [of "out @ [f]" b1] Suc.hyps(2) next1 show ?thesis
        by (fastforce simp: one take_Cons' drop_Cons')
    next
      case full: False
      then have "ap_loop cap ws (out @ [f]) b1 = (out @ [f], b1)" by (subst ap_loop.simps) simp
      moreover have "cap - length out = 1" using full Suc.prems(2) by simp
      ultimately show ?thesis using next1 one by (simp add: Suc_le_eq)
    qed
  qed
qed simp

text \<open>The block is given back by the next call, and the position moves to the next block.\<close>

lemma release_finished_block:
  assumes "release_block b" and "block_index b < length (ring b)"
  shows "block_status (ring (release_finished b) ! block_index b) = TP_STATUS_KERNEL"
    and "j \<noteq> block_index b \<Longrightarrow> ring (release_finished b) ! j = ring b ! j"
    and "block_index (release_finished b) = Suc (block_index b) mod kBlockCount"
    and "\<not> release_block (release_finished b)"
  using assms by (simp_all add: release_finished_def)

end
