(* ===== verification/Af_Xdp_Backend.thy ===== *)
theory Af_Xdp_Backend
  imports Packet_IO "HOL-Library.Multiset"
begin

section \<open>The AF\_XDP backend (backend/af\_xdp.cpp)\<close>

text \<open>
  \<open>AfXdpBackend::recvImpl\<close> moves chunks of packet memory around: it takes descriptors from the
  receive ring, hands their chunks to the caller as frames, and puts the chunks of the previous
  call back on the fill ring for the kernel. The ring operations belong to libxdp: they are the
  fields of \<open>xsk_ops\<close>, and the locale \<open>xsk_rings\<close> states what the library documents about them
  in terms of the ring's contents. The laws are those of the discipline that the backend keeps:
  a reservation is filled and submitted in full before the next one, and what was peeked is
  released before the next peek, so no ring is used with an operation outstanding.

  The lemmas show that no chunk is lost or duplicated: the fill ring, the receive ring and the
  chunks the caller holds are always the 8192 chunks of the memory area, so a frame the caller
  holds is never overwritten before its next call.
\<close>

definition kChunks :: nat where "kChunks = 8192"
definition kChunkSize :: nat where "kChunkSize = 2048"
definition kRingSize :: nat where "kRingSize = 8192"

record xdp_desc =
  desc_addr :: u64
  desc_len :: u32

record ('p, 'c) xsk_ops =
  prod_reserve :: "'p \<Rightarrow> nat \<Rightarrow> nat \<times> u32 \<times> 'p"
  prod_fill_addr :: "'p \<Rightarrow> u32 \<Rightarrow> u64 \<Rightarrow> 'p"
  prod_submit :: "'p \<Rightarrow> nat \<Rightarrow> 'p"
  cons_peek :: "'c \<Rightarrow> nat \<Rightarrow> nat \<times> u32 \<times> 'c"
  cons_rx_desc :: "'c \<Rightarrow> u32 \<Rightarrow> xdp_desc"
  cons_release :: "'c \<Rightarrow> nat \<Rightarrow> 'c"

record ('p, 'c) af_xdp =
  fill_ring :: 'p
  rx_ring :: 'c
  recycle_addrs :: "u64 list"
  xdp_stats :: PacketStats

text \<open>Writing addresses to consecutive reserved entries.\<close>

fun write_addrs :: "('p, 'c) xsk_ops \<Rightarrow> u32 \<Rightarrow> u64 list \<Rightarrow> 'p \<Rightarrow> 'p" where
  "write_addrs X i [] p = p"
| "write_addrs X i (a # as) p = write_addrs X (i + 1) as (prod_fill_addr X p i a)"

definition read_descs :: "('p, 'c) xsk_ops \<Rightarrow> u32 \<Rightarrow> nat \<Rightarrow> 'c \<Rightarrow> xdp_desc list" where
  "read_descs X idx n c = map (\<lambda>i. cons_rx_desc X c (idx + of_nat i)) [0..<n]"

text \<open>The last step of the constructor: every chunk goes to the kernel; \<open>None\<close> is the exception.\<close>

definition chunk_addrs :: "u64 list" where
  "chunk_addrs = map (\<lambda>i. of_nat (i * kChunkSize)) [0..<kChunks]"

definition fill_all :: "('p, 'c) xsk_ops \<Rightarrow> 'p \<Rightarrow> 'p option" where
  "fill_all X p =
     (case prod_reserve X p kChunks of
        (n, idx, p') \<Rightarrow>
          if n \<noteq> kChunks then None
          else Some (prod_submit X (write_addrs X idx chunk_addrs p') kChunks))"

definition recycle :: "('p, 'c) xsk_ops \<Rightarrow> ('p, 'c) af_xdp \<Rightarrow> ('p, 'c) af_xdp" where
  "recycle X b =
     (if recycle_addrs b = [] then b
      else (case prod_reserve X (fill_ring b) (length (recycle_addrs b)) of
              (n, idx, p) \<Rightarrow>
                (let p = write_addrs X idx (take n (recycle_addrs b)) p
                 in if n \<noteq> 0
                    then b\<lparr>fill_ring := prod_submit X p n, recycle_addrs := drop n (recycle_addrs b)\<rparr>
                    else b\<lparr>fill_ring := p\<rparr>)))"

definition desc_frame :: "xdp_desc \<Rightarrow> Frame" where
  "desc_frame d = \<lparr>data = unat (desc_addr d), len = ucast (desc_len d)\<rparr>"

definition hand_out :: "('p, 'c) xsk_ops \<Rightarrow> nat \<times> u32 \<times> 'c \<Rightarrow> ('p, 'c) af_xdp \<Rightarrow> Frame list \<times> ('p, 'c) af_xdp" where
  "hand_out X peeked b =
     (case peeked of
        (received, idx, c) \<Rightarrow>
          (let ds = read_descs X idx received c; fs = map desc_frame ds
           in (fs, b\<lparr>rx_ring := cons_release X c received, recycle_addrs := recycle_addrs b @ map desc_addr ds,
                     xdp_stats := count_frames fs (xdp_stats b)\<rparr>)))"

text \<open>\<open>w\<close> is the value of \<open>poll\<close> and what the kernel does to the two rings meanwhile.\<close>

definition xdp_recv :: "('p, 'c) xsk_ops \<Rightarrow> int \<times> ('p \<times> 'c \<Rightarrow> 'p \<times> 'c) \<Rightarrow> nat \<Rightarrow> ('p, 'c) af_xdp \<Rightarrow>
    string + Frame list \<times> ('p, 'c) af_xdp" where
  "xdp_recv X w cap b =
     (let b = recycle X b; limit = min cap kRingSize
      in case cons_peek X (rx_ring b) limit of
           (received, idx, c) \<Rightarrow>
             if received \<noteq> 0 then Inr (hand_out X (received, idx, c) b)
             else (case snd w (fill_ring b, c) of
                     (p, c) \<Rightarrow>
                       if fst w \<le> 0 then Inr ([], b\<lparr>fill_ring := p, rx_ring := c\<rparr>)
                       else Inr (hand_out X (cons_peek X c limit) (b\<lparr>fill_ring := p, rx_ring := c\<rparr>))))"

text \<open>The call itself never throws.\<close>

lemma xdp_recv_returns: obtains fs b' where "xdp_recv X w cap b = Inr (fs, b')"
proof -
  have "\<exists>r. xdp_recv X w cap b = Inr r"
    by (simp add: xdp_recv_def Let_def case_prod_beta)
  then show ?thesis using that by auto
qed

subsection \<open>Where the chunks are\<close>

text \<open>
  The kernel identifies a chunk by an address in it (a received packet starts behind some
  headroom). The chunks on the two rings and those waiting to be put back, with multiplicity.
\<close>

definition chunk_of :: "u64 \<Rightarrow> nat" where
  "chunk_of a = unat a div kChunkSize"

definition ring_chunks :: "('p \<Rightarrow> u64 list) \<Rightarrow> ('c \<Rightarrow> xdp_desc list) \<Rightarrow> 'p \<times> 'c \<Rightarrow> nat multiset" where
  "ring_chunks fv rv pc = mset (map chunk_of (fv (fst pc))) + mset (map (chunk_of \<circ> desc_addr) (rv (snd pc)))"

definition xdp_chunks :: "('p \<Rightarrow> u64 list) \<Rightarrow> ('c \<Rightarrow> xdp_desc list) \<Rightarrow> ('p, 'c) af_xdp \<Rightarrow> nat multiset" where
  "xdp_chunks fv rv b = ring_chunks fv rv (fill_ring b, rx_ring b) + mset (map chunk_of (recycle_addrs b))"

subsection \<open>What the ring library promises\<close>

locale xsk_rings =
  fixes X :: "('p, 'c) xsk_ops" and fill_view :: "'p \<Rightarrow> u64 list" and rx_view :: "'c \<Rightarrow> xdp_desc list"
  assumes reserve_le: "prod_reserve X p n = (m, idx, p') \<Longrightarrow> m \<le> n"
    and reserve_none: "prod_reserve X p n = (0, idx, p') \<Longrightarrow> fill_view p' = fill_view p"
    and submit: "prod_reserve X p n = (m, idx, p') \<Longrightarrow> length as = m \<Longrightarrow>
      fill_view (prod_submit X (write_addrs X idx as p') m) = fill_view p @ as"
    and peek_le: "cons_peek X c n = (m, idx, c') \<Longrightarrow> m \<le> n"
    and peek_view: "cons_peek X c n = (m, idx, c') \<Longrightarrow> rx_view c' = rx_view c"
    and peek_descs: "cons_peek X c n = (m, idx, c') \<Longrightarrow> read_descs X idx m c' = take m (rx_view c)"
    and release: "cons_peek X c n = (m, idx, c') \<Longrightarrow> rx_view (cons_release X c' m) = drop m (rx_view c)"
begin

abbreviation chunks :: "('p, 'c) af_xdp \<Rightarrow> nat multiset" where
  "chunks \<equiv> xdp_chunks fill_view rx_view"

lemmas chunks_def = xdp_chunks_def ring_chunks_def

lemma recycle_chunks: "chunks (recycle X b) = chunks b"
proof -
  obtain n idx p where r: "prod_reserve X (fill_ring b) (length (recycle_addrs b)) = (n, idx, p)"
    by (metis prod_cases3)
  have n: "n \<le> length (recycle_addrs b)" using r by (rule reserve_le)
  have sub: "fill_view (prod_submit X (write_addrs X idx (take n (recycle_addrs b)) p) n) =
      fill_view (fill_ring b) @ take n (recycle_addrs b)"
    using n by (intro submit [OF r]) simp
  have both: "mset (map chunk_of (recycle_addrs b)) =
      mset (map chunk_of (take n (recycle_addrs b))) + mset (map chunk_of (drop n (recycle_addrs b)))"
    by (metis append_take_drop_id map_append mset_append)
  show ?thesis
  proof (cases "recycle_addrs b = [] \<or> n = 0")
    case True
    moreover have "fill_view p = fill_view (fill_ring b)" if "n = 0"
      using r that by (auto intro: reserve_none)
    ultimately show ?thesis by (auto simp: recycle_def chunks_def r Let_def)
  next
    case False
    then have "chunks (recycle X b) =
        mset (map chunk_of (fill_view (fill_ring b))) + mset (map chunk_of (take n (recycle_addrs b))) +
        mset (map (chunk_of \<circ> desc_addr) (rx_view (rx_ring b))) + mset (map chunk_of (drop n (recycle_addrs b)))"
      by (simp add: recycle_def chunks_def r Let_def sub)
    then show ?thesis unfolding chunks_def both fst_conv snd_conv by (simp only: ac_simps)
  qed
qed

lemma recycle_stats [simp]: "xdp_stats (recycle X b) = xdp_stats b"
  by (auto simp: recycle_def Let_def split: prod.split)

lemma hand_out_chunks:
  assumes "cons_peek X c n = (m, idx, c')" and "rx_view c = rx_view (rx_ring b)"
    and "hand_out X (m, idx, c') b = (fs, b')"
  shows "chunks b' = chunks b" and "length fs \<le> n" and "xdp_stats b' = count_frames fs (xdp_stats b)"
    and "fs = map desc_frame (take (length fs) (rx_view c))" and "fill_ring b' = fill_ring b"
    and "recycle_addrs b' = recycle_addrs b @ map desc_addr (take (length fs) (rx_view c))"
proof -
  note laws = peek_le [OF assms(1)] peek_descs [OF assms(1)] release [OF assms(1)]
  have m: "length (take m (rx_view c)) = length fs" and fs: "fs = map desc_frame (take m (rx_view c))"
    using assms(3) laws(2) by (auto simp: hand_out_def Let_def)
  have "mset (map (chunk_of \<circ> desc_addr) (rx_view c)) =
      mset (map (chunk_of \<circ> desc_addr) (take m (rx_view c))) + mset (map (chunk_of \<circ> desc_addr) (drop m (rx_view c)))"
    by (metis append_take_drop_id map_append mset_append)
  then show "chunks b' = chunks b"
    using assms(2,3) laws by (auto simp: hand_out_def Let_def chunks_def multiset.map_comp ac_simps)
  show "length fs \<le> n" and "xdp_stats b' = count_frames fs (xdp_stats b)" and "fill_ring b' = fill_ring b"
    using assms(3) laws m by (auto simp: hand_out_def Let_def)
  have "take (length fs) (rx_view c) = take m (rx_view c)" using m by (metis take_all_iff length_take min_def nle_le take_all)
  then show "fs = map desc_frame (take (length fs) (rx_view c))"
    and "recycle_addrs b' = recycle_addrs b @ map desc_addr (take (length fs) (rx_view c))"
    using fs assms(3) laws(2) by (auto simp: hand_out_def Let_def)
qed

text \<open>A call keeps the chunks, when the kernel does, and hands out chunks it keeps out of the rings.\<close>

lemma xdp_recv_cases:
  assumes "xdp_recv X w cap b = Inr (fs, b')"
  obtains (now) m idx c where "cons_peek X (rx_ring (recycle X b)) (min cap kRingSize) = (m, idx, c)"
      "hand_out X (m, idx, c) (recycle X b) = (fs, b')"
  | (idle) c p c' where "rx_view c = rx_view (rx_ring (recycle X b))"
      "snd w (fill_ring (recycle X b), c) = (p, c')" "fs = []" "b' = (recycle X b)\<lparr>fill_ring := p, rx_ring := c'\<rparr>"
  | (later) c p c' m idx c'' where "rx_view c = rx_view (rx_ring (recycle X b))"
      "snd w (fill_ring (recycle X b), c) = (p, c')" "cons_peek X c' (min cap kRingSize) = (m, idx, c'')"
      "hand_out X (m, idx, c'') ((recycle X b)\<lparr>fill_ring := p, rx_ring := c'\<rparr>) = (fs, b')"
proof -
  obtain m idx c where pk: "cons_peek X (rx_ring (recycle X b)) (min cap kRingSize) = (m, idx, c)"
    by (metis prod_cases3)
  obtain p c' where k: "snd w (fill_ring (recycle X b), c) = (p, c')" by fastforce
  obtain m2 idx2 c2 where pk2: "cons_peek X c' (min cap kRingSize) = (m2, idx2, c2)" by (metis prod_cases3)
  show ?thesis
    using assms pk k pk2 peek_view [OF pk] that
    by (auto simp: xdp_recv_def Let_def split: if_splits)
qed

lemma xdp_recv_chunks:
  assumes "xdp_recv X w cap b = Inr (fs, b')"
    and "\<And>pc. ring_chunks fill_view rx_view (snd w pc) = ring_chunks fill_view rx_view pc"
  shows "chunks b' = chunks b"
  using assms(1)
proof (cases rule: xdp_recv_cases)
  case (now m idx c)
  then show ?thesis using hand_out_chunks(1) [OF now(1) refl now(2)] by (simp add: recycle_chunks)
next
  case (idle c p c')
  with assms(2) [of "(fill_ring (recycle X b), c)"] show ?thesis
    using recycle_chunks [of b] by (simp add: xdp_chunks_def ring_chunks_def)
next
  case (later c p c' m idx c'')
  with assms(2) [of "(fill_ring (recycle X b), c)"] show ?thesis
    using recycle_chunks [of b] hand_out_chunks(1) [OF later(3) _ later(4)]
    by (simp add: xdp_chunks_def ring_chunks_def)
qed

lemma xdp_recv_frames:
  assumes "xdp_recv X w cap b = Inr (fs, b')"
  shows "length fs \<le> cap" and "xdp_stats b' = count_frames fs (xdp_stats b)"
    and "\<forall>f \<in> set fs. \<exists>a \<in> set (recycle_addrs b'). data f = unat a"
proof -
  have held: "\<forall>f \<in> set fs. \<exists>a \<in> set (recycle_addrs b'). data f = unat a"
    if "fs = map desc_frame ds" and "recycle_addrs b' = as @ map desc_addr ds" for as ds
    using that by (auto simp: desc_frame_def)
  have "length fs \<le> cap \<and> xdp_stats b' = count_frames fs (xdp_stats b) \<and>
      (\<forall>f \<in> set fs. \<exists>a \<in> set (recycle_addrs b'). data f = unat a)"
    using assms
  proof (cases rule: xdp_recv_cases)
    case (now m idx c)
    note h = hand_out_chunks [OF now(1) refl now(2)]
    show ?thesis using h(2,3) held [OF h(4) h(6)] by simp
  next
    case (idle c p c')
    then show ?thesis by simp
  next
    case (later c p c' m idx c'')
    have same: "rx_view c' = rx_view (rx_ring ((recycle X b)\<lparr>fill_ring := p, rx_ring := c'\<rparr>))" by simp
    note h = hand_out_chunks [OF later(3) same later(4)]
    show ?thesis using h(2,3) held [OF h(4) h(6)] by simp
  qed
  then show "length fs \<le> cap" and "xdp_stats b' = count_frames fs (xdp_stats b)"
    and "\<forall>f \<in> set fs. \<exists>a \<in> set (recycle_addrs b'). data f = unat a" by blast+
qed

end

sublocale xsk_rings \<subseteq> io: packet_io "xdp_recv X" xdp_stats "\<lambda>_ _ _. True"
  by unfold_locales (auto intro: xdp_recv_frames)

context xsk_rings
begin

lemma xdp_packet_io: "packet_io (xdp_recv X) xdp_stats (\<lambda>_ _ _. True)"
  by (rule io.packet_io_axioms)

end

subsection \<open>Reachable states\<close>

text \<open>
  From the constructor's last step on, the kernel moves chunks between the rings (as \<open>kern\<close>
  allows) and the caller receives; \<open>fs\<close> are the frames of the caller's last call.
\<close>

inductive xdp_reach :: "('p, 'c) xsk_ops \<Rightarrow> (('p \<times> 'c \<Rightarrow> 'p \<times> 'c) \<Rightarrow> bool) \<Rightarrow> 'p \<Rightarrow> 'c \<Rightarrow>
    Frame list \<Rightarrow> ('p, 'c) af_xdp \<Rightarrow> bool" for X kern p0 c0 where
  constructed: "fill_all X p0 = Some p \<Longrightarrow>
    xdp_reach X kern p0 c0 []
      \<lparr>fill_ring = p, rx_ring = c0, recycle_addrs = [], xdp_stats = \<lparr>packets = 0, bytes = 0, drops = 0\<rparr>\<rparr>"
| kernel_moves: "xdp_reach X kern p0 c0 fs b \<Longrightarrow> kern k \<Longrightarrow> k (fill_ring b, rx_ring b) = (p, c) \<Longrightarrow>
    xdp_reach X kern p0 c0 fs (b\<lparr>fill_ring := p, rx_ring := c\<rparr>)"
| received: "xdp_reach X kern p0 c0 fs b \<Longrightarrow> kern (snd w) \<Longrightarrow> xdp_recv X w cap b = Inr (fs', b') \<Longrightarrow>
    xdp_reach X kern p0 c0 fs' b'"

lemma length_chunk_addrs: "length chunk_addrs = kChunks"
  by (simp add: chunk_addrs_def)

lemma chunk_of_addrs: "map chunk_of chunk_addrs = [0..<kChunks]"
proof -
  have "chunk_of (of_nat (i * kChunkSize)) = i" if "i < kChunks" for i
    using that by (simp add: chunk_of_def kChunkSize_def kChunks_def unat_of_nat del: of_nat_mult)
  then show ?thesis unfolding chunk_addrs_def map_map by (intro map_idI) simp
qed

context xsk_rings
begin

lemma fill_all_view: "fill_all X p = Some p' \<Longrightarrow> fill_view p' = fill_view p @ chunk_addrs"
  using submit [of p kChunks kChunks _ _ chunk_addrs]
  by (auto simp: fill_all_def length_chunk_addrs split: prod.splits if_splits)

lemma xdp_reach_inv:
  assumes "xdp_reach X kern p0 c0 fs b" and "fill_view p0 = []" and "rx_view c0 = []"
    and "\<forall>k pc. kern k \<longrightarrow> ring_chunks fill_view rx_view (k pc) = ring_chunks fill_view rx_view pc"
  shows "chunks b = mset [0..<kChunks] \<and> (\<forall>f \<in> set fs. \<exists>a \<in> set (recycle_addrs b). data f = unat a)"
  using assms(1)
proof (induction rule: xdp_reach.induct)
  case (constructed p)
  then show ?case
    using assms(2,3) fill_all_view [of p0 p] chunk_of_addrs
    by (simp add: xdp_chunks_def ring_chunks_def flip: mset_map)
next
  case (kernel_moves fs b k p c)
  then show ?case
    using assms(4) [rule_format, of k "(fill_ring b, rx_ring b)"] by (simp add: xdp_chunks_def)
next
  case (received fs b w cap fs' b')
  then show ?case
    using xdp_recv_chunks [of w cap b fs' b'] xdp_recv_frames(3) [of w cap b fs' b'] assms(4) by auto
qed

text \<open>A chunk the caller holds is on neither ring.\<close>

lemma xdp_reach_held:
  assumes "xdp_reach X kern p0 c0 fs b" and "fill_view p0 = []" and "rx_view c0 = []"
    and "\<forall>k pc. kern k \<longrightarrow> ring_chunks fill_view rx_view (k pc) = ring_chunks fill_view rx_view pc"
    and "f \<in> set fs"
  shows "data f div kChunkSize \<notin># ring_chunks fill_view rx_view (fill_ring b, rx_ring b)"
proof -
  let ?n = "data f div kChunkSize"
  note inv = xdp_reach_inv [OF assms(1-4)]
  then obtain a where a: "a \<in> set (recycle_addrs b)" "data f = unat a" using assms(5) by blast
  then have held: "?n \<in># mset (map chunk_of (recycle_addrs b))" by (auto simp: chunk_of_def)
  have "count (chunks b) ?n \<le> 1"
    using inv by (simp add: count_mset_set')
  then have "count (ring_chunks fill_view rx_view (fill_ring b, rx_ring b)) ?n +
      count (mset (map chunk_of (recycle_addrs b))) ?n \<le> 1"
    by (simp add: xdp_chunks_def)
  with held show ?thesis
    unfolding count_greater_zero_iff [symmetric] by linarith
qed

end

subsection \<open>Reference rings\<close>

text \<open>
  Rings that keep the promises, so that they are not contradictory: the fill ring is its
  submitted entries and the entries reserved for writing, all or nothing; the receive ring is
  its descriptors.
\<close>

definition list_rings :: "(u64 list \<times> u64 list, xdp_desc list) xsk_ops" where
  "list_rings =
     \<lparr>prod_reserve = (\<lambda>(done, _) n. if length done + n \<le> kRingSize then (n, 0, (done, replicate n 0)) else (0, 0, (done, []))),
      prod_fill_addr = (\<lambda>(done, new) i a. (done, new[unat i := a])),
      prod_submit = (\<lambda>(done, new) n. (done @ take n new, [])),
      cons_peek = (\<lambda>c n. let m = min n (min (length c) kRingSize) in (m, 0, c)),
      cons_rx_desc = (\<lambda>c i. c ! unat i),
      cons_release = (\<lambda>c n. drop n c)\<rparr>"

lemma write_addrs_list:
  assumes "unat i + length as \<le> length new" and "length new < 2 ^ 32"
  shows "write_addrs list_rings i as (done, new) =
    (done, take (unat i) new @ as @ drop (unat i + length as) new)"
  using assms
proof (induction as arbitrary: i new)
  case (Cons a as)
  have suc: "unat (i + 1) = Suc (unat i)" using Cons.prems by (intro unat_Suc_no_wrap) simp
  have "write_addrs list_rings (i + 1) as (done, new[unat i := a]) =
      (done, take (unat (i + 1)) (new[unat i := a]) @ as @ drop (unat (i + 1) + length as) (new[unat i := a]))"
    using Cons.prems by (intro Cons.IH) (simp_all add: suc)
  moreover have "take (Suc (unat i)) (new[unat i := a]) = take (unat i) new @ [a]"
    using Cons.prems by (simp add: take_Suc_conv_app_nth)
  ultimately show ?case by (simp add: suc list_rings_def)
qed simp

lemma read_descs_list:
  assumes "m \<le> length c" and "m < 2 ^ 32"
  shows "read_descs list_rings 0 m c = take m c"
proof (rule nth_equalityI)
  show "length (read_descs list_rings 0 m c) = length (take m c)" using assms by (simp add: read_descs_def)
next
  fix i assume "i < length (read_descs list_rings 0 m c)"
  then have "i < m" by (simp add: read_descs_def)
  moreover have "unat (of_nat i :: u32) = i" using \<open>i < m\<close> assms(2) by (simp add: unat_of_nat)
  ultimately show "read_descs list_rings 0 m c ! i = take m c ! i"
    by (simp add: read_descs_def list_rings_def)
qed

interpretation list_xsk: xsk_rings list_rings fst id
proof
  fix p p' :: "u64 list \<times> u64 list" and n m idx and as :: "u64 list"
  assume "prod_reserve list_rings p n = (m, idx, p')" and "length as = m"
  moreover have "write_addrs list_rings 0 as (fst p, replicate n 0) = (fst p, as)"
    if "length as = n" and "n \<le> kRingSize"
    using write_addrs_list [of 0 as "replicate n 0" "fst p"] that by (simp add: kRingSize_def)
  ultimately show "fst (prod_submit list_rings (write_addrs list_rings idx as p') m) = fst p @ as"
    by (cases p) (auto simp: list_rings_def split: if_splits)
next
  fix c c' :: "xdp_desc list" and n m idx
  assume "cons_peek list_rings c n = (m, idx, c')"
  then have "idx = 0" "c' = c" "m \<le> length c" "m \<le> kRingSize" by (auto simp: list_rings_def Let_def)
  then show "read_descs list_rings idx m c' = take m (id c)"
    by (simp add: read_descs_list kRingSize_def)
qed (auto simp: list_rings_def Let_def split: if_splits prod.splits)

end
