(* ===== verification/Validate.thy ===== *)
theory Validate
  imports Frame_Parser C_Strings
begin

section \<open>Sequenced validation (bench/validate.cpp)\<close>

text \<open>
  \<open>falcon-validate\<close> sends datagrams that carry a sequence number and checks at the receiver
  which of them arrived. A frame is the list of its bytes; reading outside it is \<open>None\<close>. The
  receive loop runs over the batches that \<open>recv\<close> returned before the deadline.

  \<open>summary\<close> is what the counters mean: the set of sequence numbers seen, how many frames
  repeated one, how many came after a higher one. The lemmas show that the counters always are
  the summary of the frames received, so that exit code 0 means that every datagram arrived
  exactly once.
\<close>

definition kMagic :: u32 where "kMagic = 0x46414C43"

text \<open>The packed \<open>ValidationHeader\<close> as the sender puts it on the wire.\<close>

definition header_bytes :: "u64 \<Rightarrow> bytes" where
  "header_bytes sequence = le_bytes 4 (htonl kMagic) @ le_bytes 8 (htobe64 sequence) @ le_bytes 4 (0 :: u32)"

definition transmit :: "u64 \<Rightarrow> bytes list" where
  "transmit n = map (\<lambda>i. header_bytes (of_nat i)) [0..<unat n]"

text \<open>What the receiver makes of one frame: a fault, an invalid frame, or its sequence number.\<close>

definition read_sequence :: "FrameLayer \<Rightarrow> u64 \<Rightarrow> bytes \<Rightarrow> u64 option option" where
  "read_sequence layer expected mem = do {
     r \<leftarrow> payload layer mem (of_nat (length mem));
     (case r of
        None \<Rightarrow> Some None
      | Some (p, payload_length) \<Rightarrow>
          if payload_length < 16 then Some None
          else do {
            hdr \<leftarrow> load_bytes 16 mem p;
            magic \<leftarrow> load32 hdr 0;
            sequence \<leftarrow> load64 hdr 4;
            Some (if ntohl magic \<noteq> kMagic \<or> be64toh sequence \<ge> expected then None
                  else Some (be64toh sequence))
          })
   }"

record tally =
  seen :: "bool list"
  valid :: u64
  duplicates :: u64
  reordered :: u64
  invalid :: u64
  highest :: u64
  have_highest :: bool

definition start_tally :: "u64 \<Rightarrow> tally" where
  "start_tally expected =
     \<lparr>seen = replicate (unat expected) False, valid = 0, duplicates = 0, reordered = 0, invalid = 0,
      highest = 0, have_highest = False\<rparr>"

definition record_sequence :: "u64 \<Rightarrow> tally \<Rightarrow> tally" where
  "record_sequence sequence t =
     (if seen t ! unat sequence then t\<lparr>duplicates := duplicates t + 1\<rparr>
      else
        (let t = (if have_highest t \<and> sequence < highest t then t\<lparr>reordered := reordered t + 1\<rparr> else t)
         in t\<lparr>highest := if have_highest t then max (highest t) sequence else sequence, have_highest := True,
             seen := (seen t)[unat sequence := True], valid := valid t + 1\<rparr>))"

fun receive_batch :: "FrameLayer \<Rightarrow> u64 \<Rightarrow> bytes list \<Rightarrow> tally \<Rightarrow> tally option" where
  "receive_batch layer expected [] t = Some t"
| "receive_batch layer expected (f # fs) t = do {
     r \<leftarrow> read_sequence layer expected f;
     receive_batch layer expected fs
       (case r of None \<Rightarrow> t\<lparr>invalid := invalid t + 1\<rparr> | Some q \<Rightarrow> record_sequence q t)
   }"

text \<open>The loop ends at the deadline (the end of the list) or when every sequence number was seen.\<close>

fun receive_loop :: "FrameLayer \<Rightarrow> u64 \<Rightarrow> bytes list list \<Rightarrow> tally \<Rightarrow> tally option" where
  "receive_loop layer expected [] t = Some t"
| "receive_loop layer expected (fs # rest) t =
     (if valid t < expected then do {
        t \<leftarrow> receive_batch layer expected fs t;
        receive_loop layer expected rest t
      } else Some t)"

definition report :: "u64 \<Rightarrow> tally \<Rightarrow> string" where
  "report expected t =
     (let line = (\<lambda>name v. name @ '','' @ dec (unat (v :: u64)) @ [CHR 0x0A])
      in line ''expected'' expected @ line ''received'' (valid t) @ line ''missing'' (expected - valid t) @
         line ''duplicates'' (duplicates t) @ line ''reordered'' (reordered t) @ line ''invalid'' (invalid t))"

definition receive :: "FrameLayer \<Rightarrow> u64 \<Rightarrow> bytes list list \<Rightarrow> (int \<times> string \<times> tally) option" where
  "receive layer expected batches = do {
     t \<leftarrow> receive_loop layer expected batches (start_tally expected);
     let missing = expected - valid t;
     Some (if missing = 0 \<and> duplicates t = 0 \<and> invalid t = 0 then 0 else 2, report expected t, t)
   }"

subsection \<open>What the counters mean\<close>

fun reorders :: "u64 list \<Rightarrow> u64 list \<Rightarrow> nat" where
  "reorders prev [] = 0"
| "reorders prev (q # qs) =
     (if q \<notin> set prev \<and> (\<exists>p \<in> set prev. q < p) then 1 else 0) + reorders (prev @ [q]) qs"

definition summary :: "u64 \<Rightarrow> u64 list \<Rightarrow> nat \<Rightarrow> tally \<Rightarrow> bool" where
  "summary expected qs bad t =
     ((\<forall>q \<in> set qs. q < expected) \<and>
      seen t = map (\<lambda>i. of_nat i \<in> set qs) [0..<unat expected] \<and>
      valid t = of_nat (card (set qs)) \<and> duplicates t = of_nat (length qs - card (set qs)) \<and>
      reordered t = of_nat (reorders [] qs) \<and> invalid t = of_nat bad \<and>
      have_highest t = (qs \<noteq> []) \<and> (qs \<noteq> [] \<longrightarrow> highest t = Max (set qs)))"

lemma reorders_snoc:
  "reorders prev (qs @ [q]) = reorders prev qs +
     (if q \<notin> set (prev @ qs) \<and> (\<exists>p \<in> set (prev @ qs). q < p) then 1 else 0)"
  by (induction qs arbitrary: prev) auto

lemma summary_start: "summary expected [] 0 (start_tally expected)"
  by (simp add: summary_def start_tally_def map_replicate_const)

lemma summary_invalid: "summary expected qs bad t \<Longrightarrow> summary expected qs (Suc bad) (t\<lparr>invalid := invalid t + 1\<rparr>)"
  by (simp add: summary_def)

lemma seen_nth:
  assumes "summary expected qs bad t" and "q < expected"
  shows "seen t ! unat q \<longleftrightarrow> q \<in> set qs"
proof -
  have "unat q < unat expected" using assms(2) by (simp add: word_less_nat_alt)
  with assms(1) show ?thesis by (simp add: summary_def)
qed

lemma summary_sequence:
  assumes "summary expected qs bad t" and "q < expected"
  shows "summary expected (qs @ [q]) bad (record_sequence q t)"
proof (cases "q \<in> set qs")
  case True
  have "card (set qs) \<le> length qs" by (rule card_length)
  with True assms seen_nth [OF assms] show ?thesis
    by (auto simp: summary_def record_sequence_def insert_absorb reorders_snoc Suc_diff_le)
next
  case False
  have seen: "(seen t)[unat q := True] = map (\<lambda>i. of_nat i \<in> set (qs @ [q])) [0..<unat expected]"
  proof (rule nth_equalityI)
    have old: "seen t = map (\<lambda>i. of_nat i \<in> set qs) [0..<unat expected]"
      using assms(1) by (simp add: summary_def)
    then show "length ((seen t)[unat q := True]) = length (map (\<lambda>i. of_nat i \<in> set (qs @ [q])) [0..<unat expected])"
      by simp
    fix i assume "i < length ((seen t)[unat q := True])"
    then have i: "i < unat expected" by (simp add: old)
    then have "i < 2 ^ 64" using unat_less [of expected] by simp
    then have "of_nat i = q \<longleftrightarrow> i = unat q" by (auto simp: unat_of_nat)
    with i show "(seen t)[unat q := True] ! i = map (\<lambda>i. of_nat i \<in> set (qs @ [q])) [0..<unat expected] ! i"
      by (cases "i = unat q") (simp_all add: old)
  qed
  have hi: "(if have_highest t then max (highest t) q else q) = Max (set (qs @ [q]))"
    using assms(1) by (auto simp: summary_def max.commute)
  have below: "have_highest t \<and> q < highest t \<longleftrightarrow> (\<exists>p \<in> set qs. q < p)"
    using assms(1) by (auto simp: summary_def Max_gr_iff)
  have "card (set (qs @ [q])) = Suc (card (set qs))" using False by simp
  with False assms seen_nth [OF assms] seen hi below show ?thesis
    by (auto simp: summary_def record_sequence_def Let_def reorders_snoc)
qed

text \<open>The frames of a batch, read one by one.\<close>

definition sequences :: "FrameLayer \<Rightarrow> u64 \<Rightarrow> bytes list \<Rightarrow> u64 list" where
  "sequences layer expected fs = List.map_filter (\<lambda>f. Option.bind (read_sequence layer expected f) id) fs"

definition invalid_frames :: "FrameLayer \<Rightarrow> u64 \<Rightarrow> bytes list \<Rightarrow> nat" where
  "invalid_frames layer expected fs = length (filter (\<lambda>f. read_sequence layer expected f = Some None) fs)"

lemma read_sequence_less: "read_sequence layer expected f = Some (Some q) \<Longrightarrow> q < expected"
  by (auto simp: read_sequence_def bind_eq_Some_conv case_prod_beta not_le split: option.splits if_splits)

lemma receive_batch_summary:
  assumes "summary expected qs bad t" and "receive_batch layer expected fs t = Some t'"
  shows "summary expected (qs @ sequences layer expected fs) (bad + invalid_frames layer expected fs) t'"
  using assms
proof (induction fs arbitrary: qs bad t)
  case Nil
  then show ?case by (simp add: sequences_def invalid_frames_def)
next
  case (Cons f fs)
  then obtain r where r: "read_sequence layer expected f = Some r" by (auto simp: bind_eq_Some_conv)
  show ?case
  proof (cases r)
    case None
    with Cons.prems(2) r Cons.IH [OF summary_invalid [OF Cons.prems(1)]] show ?thesis
      by (simp add: sequences_def invalid_frames_def List.map_filter_simps)
  next
    case (Some q)
    with r have "q < expected" by (simp add: read_sequence_less)
    with Cons.prems(2) r Some Cons.IH [OF summary_sequence [OF Cons.prems(1)]] show ?thesis
      by (simp add: sequences_def invalid_frames_def List.map_filter_simps)
  qed
qed

lemma receive_loop_summary:
  assumes "summary expected qs bad t" and "receive_loop layer expected batches t = Some t'"
  shows "\<exists>n. summary expected (qs @ sequences layer expected (concat (take n batches)))
      (bad + invalid_frames layer expected (concat (take n batches))) t' \<and>
    (n = length batches \<or> \<not> valid t' < expected)"
  using assms
proof (induction batches arbitrary: qs bad t)
  case Nil
  then show ?case by (simp add: sequences_def invalid_frames_def List.map_filter_simps)
next
  case (Cons fs batches)
  show ?case
  proof (cases "valid t < expected")
    case True
    with Cons.prems(2) obtain t1 where t1: "receive_batch layer expected fs t = Some t1"
      and rest: "receive_loop layer expected batches t1 = Some t'"
      by (auto simp: bind_eq_Some_conv)
    obtain n where "summary expected
        ((qs @ sequences layer expected fs) @ sequences layer expected (concat (take n batches)))
        (bad + invalid_frames layer expected fs + invalid_frames layer expected (concat (take n batches))) t'"
      and "n = length batches \<or> \<not> valid t' < expected"
      using Cons.IH [OF receive_batch_summary [OF Cons.prems(1) t1] rest] by blast
    then show ?thesis
      by (intro exI [of _ "Suc n"]) (simp add: sequences_def invalid_frames_def List.map_filter_def add.assoc)
  next
    case False
    with Cons.prems show ?thesis
      by (intro exI [of _ 0]) (simp add: sequences_def invalid_frames_def List.map_filter_simps)
  qed
qed

subsection \<open>The sender's datagrams\<close>

lemma length_header_bytes [simp]: "length (header_bytes q) = 16"
  by (simp add: header_bytes_def)

lemma read_header:
  "load32 (header_bytes q) 0 = Some (htonl kMagic)" "load64 (header_bytes q) 4 = Some (htobe64 q)"
  using load32_at [of "[]" 0 "htonl kMagic"] load64_at [of "le_bytes 4 (htonl kMagic)" 4 "htobe64 q"]
  by (simp_all add: header_bytes_def)

lemma read_sequence_header:
  assumes "q < expected"
  shows "read_sequence kL4Payload expected (header_bytes q) = Some (Some q)"
proof -
  have "load_bytes 16 (header_bytes q) 0 = Some (header_bytes q)" by (simp add: load_bytes_def)
  with assms show ?thesis by (simp add: read_sequence_def payload_def read_header)
qed

subsection \<open>The verdict\<close>

lemma card_below: "card {q :: u64. q < e} = unat e"
proof -
  have "unat ` {q. q < e} = {..<unat e}"
  proof
    show "{..<unat e} \<subseteq> unat ` {q. q < e}"
    proof
      fix i assume "i \<in> {..<unat e}"
      then have i: "i < unat e" by simp
      then have "unat (of_nat i :: u64) = i" using unat_less [of e] by (simp add: unat_of_nat)
      with i show "i \<in> unat ` {q. q < e}" by (intro image_eqI [of _ _ "of_nat i"]) (simp_all add: word_less_nat_alt)
    qed
  qed (auto simp: word_less_nat_alt)
  moreover have "inj_on unat {q :: u64. q < e}" by (rule inj_onI) (simp add: word_unat_eq_iff)
  ultimately show ?thesis by (metis card_image card_lessThan)
qed

lemma summary_valid:
  assumes "summary expected qs bad t"
  shows "unat (valid t) = card (set qs)" and "card (set qs) \<le> unat expected"
proof -
  have "set qs \<subseteq> {q. q < expected}" using assms by (auto simp: summary_def)
  then show le: "card (set qs) \<le> unat expected" by (metis card_below card_mono finite)
  then have "card (set qs) < 2 ^ 64" using unat_less [of expected] by simp
  then show "unat (valid t) = card (set qs)" using assms by (simp add: summary_def unat_of_nat)
qed

text \<open>Exit code 0 in terms of the sequence numbers, when no count can wrap.\<close>

lemma summary_verdict:
  assumes "summary expected qs bad t" and "length qs < 2 ^ 64" and "bad < 2 ^ 64"
  shows "expected - valid t = 0 \<and> duplicates t = 0 \<and> invalid t = 0 \<longleftrightarrow>
    set qs = {q. q < expected} \<and> distinct qs \<and> bad = 0"
proof -
  have sub: "set qs \<subseteq> {q. q < expected}" using assms(1) by (auto simp: summary_def)
  have zero: "of_nat n = (0 :: u64) \<longleftrightarrow> n = 0" if "n < 2 ^ 64" for n
    using that by (simp add: word_unat_eq_iff unat_of_nat)
  have "unat (valid t) = card (set qs)"
    using summary_valid [OF assms(1)] by simp
  then have "expected - valid t = 0 \<longleftrightarrow> card (set qs) = unat expected"
    by (auto simp: word_unat_eq_iff [of expected])
  also have "\<dots> \<longleftrightarrow> set qs = {q. q < expected}"
    using sub by (metis card_below card_subset_eq finite)
  finally have "expected - valid t = 0 \<longleftrightarrow> set qs = {q. q < expected}" .
  moreover have "duplicates t = 0 \<longleftrightarrow> distinct qs"
  proof -
    have "duplicates t = of_nat (length qs - card (set qs))" using assms(1) by (simp add: summary_def)
    moreover have "length qs - card (set qs) = 0 \<longleftrightarrow> distinct qs"
    proof
      assume "length qs - card (set qs) = 0"
      then have "card (set qs) = length qs" using card_length [of qs] by linarith
      then show "distinct qs" by (rule card_distinct)
    next
      assume "distinct qs"
      then show "length qs - card (set qs) = 0" using distinct_card [of qs] by linarith
    qed
    moreover have "length qs - card (set qs) < 2 ^ 64" using assms(2) by simp
    ultimately show ?thesis using zero by metis
  qed
  moreover have "invalid t = of_nat bad" using assms(1) by (simp add: summary_def)
  then have "invalid t = 0 \<longleftrightarrow> bad = 0" using zero [OF assms(3)] by simp
  ultimately show ?thesis by blast
qed

lemma sequences_length: "length (sequences layer expected fs) \<le> length fs"
  by (induction fs) (auto simp: sequences_def List.map_filter_simps split: option.split)

lemma receive_batch_some:
  "\<forall>f \<in> set fs. read_sequence layer expected f \<noteq> None \<Longrightarrow> \<exists>t'. receive_batch layer expected fs t = Some t'"
  by (induction fs arbitrary: t) auto

lemma receive_loop_some:
  "\<forall>f \<in> set (concat batches). read_sequence layer expected f \<noteq> None \<Longrightarrow>
     \<exists>t'. receive_loop layer expected batches t = Some t'"
proof (induction batches arbitrary: t)
  case (Cons fs batches)
  obtain t1 where "receive_batch layer expected fs t = Some t1"
    using receive_batch_some [of fs layer expected t] Cons.prems by auto
  with Cons show ?case by auto
qed simp

lemma concat_take_append: "concat xs = concat (take n xs) @ concat (drop n xs)"
  by (metis append_take_drop_id concat_append)

lemma invalid_frames_length: "invalid_frames layer expected fs \<le> length fs"
  by (simp add: invalid_frames_def)

lemma receive_loop_verdict:
  assumes "receive_loop layer expected batches (start_tally expected) = Some t"
    and "length (concat batches) < 2 ^ 64"
  obtains n where "n = length batches \<or> \<not> valid t < expected"
    and "summary expected (sequences layer expected (concat (take n batches)))
      (invalid_frames layer expected (concat (take n batches))) t"
    and "expected - valid t = 0 \<and> duplicates t = 0 \<and> invalid t = 0 \<longleftrightarrow>
      set (sequences layer expected (concat (take n batches))) = {q. q < expected} \<and>
      distinct (sequences layer expected (concat (take n batches))) \<and>
      invalid_frames layer expected (concat (take n batches)) = 0"
proof -
  obtain n where "summary expected ([] @ sequences layer expected (concat (take n batches)))
      (0 + invalid_frames layer expected (concat (take n batches))) t"
    and n: "n = length batches \<or> \<not> valid t < expected"
    using receive_loop_summary [OF summary_start assms(1)] by blast
  then have sum: "summary expected (sequences layer expected (concat (take n batches)))
      (invalid_frames layer expected (concat (take n batches))) t" by simp
  have "length (concat (take n batches)) < 2 ^ 64"
    using assms(2) by (subst (asm) concat_take_append [of _ n]) simp
  then have "length (sequences layer expected (concat (take n batches))) < 2 ^ 64"
    and "invalid_frames layer expected (concat (take n batches)) < 2 ^ 64"
    using sequences_length [of layer expected "concat (take n batches)"]
      invalid_frames_length [of layer expected "concat (take n batches)"] by simp_all
  from that [OF n sum summary_verdict [OF sum this]] show ?thesis .
qed

text \<open>The sender's datagrams are read back as what they are.\<close>

lemma header_bytes_inj: "header_bytes p = header_bytes q \<longleftrightarrow> p = q"
  using read_header(2) [of p] read_header(2) [of q] by (metis htobe64_htobe64 option.inject)

lemma read_transmitted:
  assumes "f \<in> set (transmit n)"
  obtains q where "q < n" and "read_sequence kL4Payload n f = Some (Some q)" and "f = header_bytes q"
proof -
  obtain i where i: "i < unat n" "f = header_bytes (of_nat i)" using assms by (auto simp: transmit_def)
  then have "unat (of_nat i :: u64) = i" using unat_less [of n] by (simp add: unat_of_nat)
  with i show ?thesis by (intro that [of "of_nat i"]) (simp_all add: word_less_nat_alt read_sequence_header)
qed

lemma sequences_transmitted:
  "set fs \<subseteq> set (transmit n) \<Longrightarrow>
     map header_bytes (sequences kL4Payload n fs) = fs \<and> invalid_frames kL4Payload n fs = 0"
proof (induction fs)
  case (Cons f fs)
  then obtain q where "read_sequence kL4Payload n f = Some (Some q)" "f = header_bytes q"
    by (auto elim: read_transmitted)
  with Cons show ?case by (simp add: sequences_def invalid_frames_def List.map_filter_simps)
qed (simp add: sequences_def invalid_frames_def List.map_filter_simps)

lemma transmit_set: "set (transmit n) = header_bytes ` {q. q < n}"
proof
  show "set (transmit n) \<subseteq> header_bytes ` {q. q < n}" by (auto elim: read_transmitted)
  show "header_bytes ` {q. q < n} \<subseteq> set (transmit n)"
  proof
    fix f assume "f \<in> header_bytes ` {q. q < n}"
    then obtain q where "q < n" and f: "f = header_bytes q" by auto
    then have "unat q < unat n" by (simp add: word_less_nat_alt)
    then show "f \<in> set (transmit n)" by (auto simp: transmit_def f intro!: image_eqI [of _ _ "unat q"])
  qed
qed

lemma transmit_distinct: "distinct (transmit n)"
proof -
  have "i = j" if "i < unat n" and "j < unat n" and "of_nat i = (of_nat j :: u64)" for i j
    using that unat_less [of n] by (auto simp: word_unat_eq_iff unat_of_nat)
  then show ?thesis by (auto simp: transmit_def distinct_map inj_on_def header_bytes_inj)
qed

text \<open>Datagrams that are delivered twice are counted once as valid and once as duplicates.\<close>

lemma repeated_batch:
  assumes "set ds \<subseteq> set (transmit n)" and "distinct ds"
    and "receive_batch kL4Payload n (ds @ ds) (start_tally n) = Some t"
  shows "valid t = of_nat (length ds) \<and> duplicates t = of_nat (length ds)"
proof -
  let ?qs = "sequences kL4Payload n (ds @ ds)"
  have qs: "map header_bytes ?qs = ds @ ds" using sequences_transmitted [of "ds @ ds" n] assms(1) by simp
  have "header_bytes ` set ?qs = set ds" using arg_cong [OF qs, of set] by simp
  moreover have "card (header_bytes ` set ?qs) = card (set ?qs)"
    by (rule card_image) (simp add: inj_on_def header_bytes_inj)
  ultimately have "card (set ?qs) = length ds" using distinct_card [OF assms(2)] by simp
  moreover have "length ?qs = 2 * length ds" using arg_cong [OF qs, of length] by simp
  ultimately show ?thesis
    using receive_batch_summary [OF summary_start assms(3)] by (simp add: summary_def)
qed

end
