(* ===== verification/Bench_Properties.thy ===== *)
theory Bench_Properties
  imports Frame_Build Packet_Filter Socket_Backend Af_Packet_Backend Af_Xdp_Backend Validate
begin

section \<open>Properties of the benchmark suite\<close>

text \<open>
  The theorems about \<open>benchmark/\<close>: the frames its sender builds, the frames its filters take,
  what its three backends hand out, and what its validator's verdict means.
\<close>

subsection \<open>Frames\<close>

lemma built_frame_prefix:
  assumes "8 \<le> unat n"
  shows "take 14 (built_frame n ts port src_ip dst_ip) =
      [0xff, 0xff, 0xff, 0xff, 0xff, 0xff, 0x02, 0x00, 0x00, 0x00, 0x00, 0x02, 0x08, 0x00]"
    and "take 20 (drop 14 (built_frame n ts port src_ip dst_ip)) =
      (let w = ip_checksum (ip_header_bytes n 0 0 src_ip dst_ip)
       in ip_header_bytes n (byte_hi w) (byte_lo w) src_ip dst_ip)"
  by (simp_all add: built_frame_def Let_def)

lemma ip_header_split:
  "ip_header_bytes n c0 c1 src_ip dst_ip =
     take 10 (ip_header_bytes n 0 0 src_ip dst_ip) @ [c0, c1] @ le_bytes 4 src_ip @ le_bytes 4 dst_ip"
  by (simp add: ip_header_bytes_def Let_def)

lemma ucast_tot_len: "unat (ucast (20 + 8 + n :: u64) :: u16) = (28 + unat n) mod 65536"
proof -
  have "unat (20 + 8 + n) = (28 + unat n) mod 2 ^ 64" by (simp add: unat_word_ariths(1) mod_simps)
  then have "unat (ucast (20 + 8 + n) :: u16) = (28 + unat n) mod 2 ^ 64 mod 2 ^ 16"
    by (simp only: unsigned_ucast_eq take_bit_eq_mod) simp
  then show ?thesis by (simp add: mod_mod_cancel)
qed

text \<open>C22: a frame that \<open>build_frame\<close> writes has a valid IPv4 header: version 4 with 20 bytes of
  header, the total length of the datagram (modulo its 16 bits), protocol UDP, the two addresses,
  and a checksum with which the header's 16-bit words, added up as natural numbers, are a
  positive multiple of 65535: the one's-complement sum is all ones, the test of RFC 1071.\<close>

theorem build_frame_checksum:
  assumes "8 \<le> unat n" and "42 + unat n \<le> length buf"
  shows "\<exists>buf' hdr. build_frame buf n ts port src_ip dst_ip = Some (buf', 42 + n) \<and>
    hdr = take 20 (drop 14 buf') \<and> length hdr = 20 \<and>
    hdr ! 0 = 0x45 \<and> unat (hdr ! 2) * 256 + unat (hdr ! 3) = (28 + unat n) mod 65536 \<and> hdr ! 9 = 17 \<and>
    take 4 (drop 12 hdr) = le_bytes 4 src_ip \<and> drop 16 hdr = le_bytes 4 dst_ip \<and>
    0 < words_sum hdr \<and> words_sum hdr mod 65535 = 0"
proof -
  let ?h = "ip_header_bytes n 0 0 src_ip dst_ip"
  let ?w = "ip_checksum ?h" and ?post = "le_bytes 4 src_ip @ le_bytes 4 dst_ip"
  let ?hdr = "ip_header_bytes n (byte_hi ?w) (byte_lo ?w) src_ip dst_ip"
  let ?buf = "built_frame n ts port src_ip dst_ip @ drop (42 + unat n) buf"
  show ?thesis
  proof (intro exI conjI)
    show "build_frame buf n ts port src_ip dst_ip = Some (?buf, 42 + n)"
      by (rule build_frame_built [OF assms])
    show "?hdr = take 20 (drop 14 ?buf)"
      using built_frame_prefix(2) [OF assms(1)] length_built_frame [OF assms(1)] by (simp add: Let_def)
    show "words_sum ?hdr mod 65535 = 0" and "0 < words_sum ?hdr"
      using ip_checksum_verifies [of "take 10 ?h" ?post] ip_header_split [of n 0 0 src_ip dst_ip]
        ip_header_split [of n "byte_hi ?w" "byte_lo ?w" src_ip dst_ip]
      by simp_all
    show "unat (?hdr ! 2) * 256 + unat (?hdr ! 3) = (28 + unat n) mod 65536"
      using unat_bytes_of_checksum [of "ucast (20 + 8 + n)"] ucast_tot_len [of n]
      by (simp add: ip_header_bytes_def Let_def)
  qed (simp_all add: ip_header_bytes_def Let_def)
qed

theorem build_frame_checksum_witness:
  "\<exists>buf' hdr. build_frame (replicate 58 0) 16 7 9100 0x0200000A 0x0100000A = Some (buf', 58) \<and>
     hdr = take 20 (drop 14 buf') \<and> unat (hdr ! 2) * 256 + unat (hdr ! 3) = 44 \<and> words_sum hdr mod 65535 = 0"
proof -
  have "8 \<le> unat (16 :: u64)" and "42 + unat (16 :: u64) \<le> length (replicate 58 (0 :: u8))" by simp_all
  from build_frame_checksum [OF this, of 7 9100 "0x0200000A" "0x0100000A"] show ?thesis by auto
qed

text \<open>The timestamp survives the trip. What the receiver reads from a frame the sender built
  in a buffer of its size is the sender's timestamp, for every payload size from 8 bytes that the
  length fields can hold.\<close>

lemma timestamp_round_trip:
  assumes "8 \<le> unat n" and "unat n < 2 ^ 32" and "length buf = 42 + unat n"
  shows "\<exists>buf'. build_frame buf n ts port src_ip dst_ip = Some (buf', 42 + n) \<and>
    frame_ts kL2Ethernet buf' (42 + n) = Some ts"
proof -
  let ?f = "built_frame n ts port src_ip dst_ip"
  have len: "length ?f = 42 + unat n" using assms(1) by (rule length_built_frame)
  have build: "build_frame buf n ts port src_ip dst_ip = Some (?f, 42 + n)"
    using build_frame_built [of n buf] assms by simp
  have size: "42 + n = of_nat (length ?f)" by (simp add: len)
  have "frame_ts kL2Ethernet ?f (42 + n) = Some ts"
    unfolding size using built_frame_ts [OF assms(1,2)] .
  with build show ?thesis by blast
qed

text \<open>C23: the exact frames on which \<open>frame_ts\<close> reads outside the frame: IPv4 UDP frames whose
  header length points beyond the end of the frame (the remaining length wraps to a huge one),
  and those whose UDP payload is shorter than the eight bytes of a timestamp.\<close>

theorem frame_ts_outside_iff:
  assumes "length mem < 2 ^ 64"
  shows "frame_ts kL2Ethernet mem (of_nat (length mem)) = None \<longleftrightarrow>
    frame_is_udp mem \<and>
    (length mem < 14 + ip_header_len mem \<or>
     14 + ip_header_len mem + 8 \<le> length mem \<and> length mem < 14 + ip_header_len mem + 16)"
  unfolding frame_ts_value [OF assms] by (auto simp: load64_def load_bytes_def)

theorem frame_ts_outside_iff_witness:
  "frame_ts kL2Ethernet
     ([255, 255, 255, 255, 255, 255, 2, 0, 0, 0, 0, 2, 8, 0, 0x4F, 0, 0, 20, 0, 0, 0x40, 0, 64, 17,
       0, 0, 10, 0, 0, 2, 10, 0, 0, 1]) 34 = None"
  using frame_ts_outside_iff [of "[255, 255, 255, 255, 255, 255, 2, 0, 0, 0, 0, 2, 8, 0, 0x4F, 0, 0, 20, 0, 0,
      0x40, 0, 64, 17, 0, 0, 10, 0, 0, 2, 10, 0, 0, 1]"]
  by (simp add: frame_is_udp_def ip_header_len_def)

text \<open>\<open>build_frame\<close> writes outside its buffer for a payload of fewer than eight bytes, when the
  buffer is allocated as the sender does, headers plus payload; only the combined mode of
  \<open>main\<close> refuses such a size.\<close>

lemma build_frame_small_payload:
  assumes "unat n < 8" and "length buf = 42 + unat n"
  shows "build_frame buf n ts port src_ip dst_ip = None"
proof (rule ccontr)
  assume "build_frame buf n ts port src_ip dst_ip \<noteq> None"
  then obtain r where "build_frame buf n ts port src_ip dst_ip = Some r" by blast
  then show False
    using assms unfolding build_frame_def Let_def
    by (auto simp: bind_eq_Some_conv dest!: store_bytes_SomeD)
qed

subsection \<open>Filters\<close>

text \<open>The classic BPF filter of the AF\_PACKET backend takes exactly the frames with UDP
  protocol byte and destination port 9100 where an IPv4 header without options, or an IPv6 header
  without extensions, has them; a frame too short for a field it needs is refused.\<close>

lemma filter_takes_exactly:
  "filter_accepts pkt \<longleftrightarrow>
     (be16_at pkt 12 0x0800 \<and> pkt ! 23 = 17 \<and> be16_at pkt 36 9100) \<or>
     (be16_at pkt 12 0x86DD \<and> pkt ! 20 = 17 \<and> be16_at pkt 56 9100)"
  using filter_accepts_iff by (simp add: udp4_to_9100_def udp6_to_9100_def)

text \<open>C24: the XDP program never reads outside a frame, and steers only frames that the classic
  filter takes too. The two agree on every frame with a complete UDP header and no IPv4 options;
  with options they differ whenever the bytes at the fixed offset look like port 9100.\<close>

theorem xdp_steers_as_filter:
  "\<exists>steers. (\<forall>redirect q. falcon_xdp_redirect redirect q pkt = Some (if steers then redirect q else XDP_PASS)) \<and>
     (steers \<longrightarrow> filter_accepts pkt) \<and>
     ((be16_at pkt 12 0x0800 \<longrightarrow> pkt ! 14 AND 15 = 5 \<and> 42 \<le> length pkt) \<and>
      (be16_at pkt 12 0x86DD \<longrightarrow> 62 \<le> length pkt) \<longrightarrow> (steers \<longleftrightarrow> filter_accepts pkt)) \<and>
     (udp4_to_9100 pkt \<and> pkt ! 14 AND 15 \<noteq> 5 \<longrightarrow> filter_accepts pkt \<and> \<not> steers)"
proof -
  have "\<not> (udp4_to_9100 pkt \<and> udp6_to_9100 pkt)"
    using be16_at_inj [of pkt 12 "0x0800" "0x86DD"] by (auto simp: udp4_to_9100_def udp6_to_9100_def)
  then show ?thesis
    by (intro exI [of _ "udp4_to_9100 pkt \<and> pkt ! 14 AND 15 = 5 \<and> 42 \<le> length pkt \<or>
          udp6_to_9100 pkt \<and> 62 \<le> length pkt"])
      (auto simp: falcon_xdp_redirect_iff filter_accepts_iff udp4_to_9100_def udp6_to_9100_def)
qed

definition options_frame :: bytes where
  "options_frame = [255, 255, 255, 255, 255, 255, 2, 0, 0, 0, 0, 2, 8, 0, 0x46, 0, 0, 36, 0, 0, 0x40, 0, 64, 17,
     0, 0, 10, 0, 0, 2, 10, 0, 0, 1, 1, 1, 0x23, 0x8C, 0xC3, 0x50, 0, 80, 0, 12, 0, 0, 0, 0, 0, 0]"

lemma options_frame_udp4: "udp4_to_9100 options_frame"
  by (simp add: udp4_to_9100_def be16_at_def options_frame_def le_bytes_numeral)

theorem xdp_steers_as_filter_witness:
  "filter_accepts options_frame \<and> falcon_xdp_redirect (\<lambda>_. XDP_REDIRECT) 0 options_frame = Some XDP_PASS"
  using xdp_steers_as_filter [of options_frame] options_frame_udp4 by (auto simp: options_frame_def)

lemma rev_le_bytes_2: "rev (le_bytes 2 v) = [byte_hi v, byte_lo v]"
proof -
  have "byte_lo v = ucast v"
    by (rule bit_word_eqI) (auto simp: byte_lo_def bit_simps less_Suc_eq numeral_eq_Suc)
  then show ?thesis by (simp add: le_bytes_numeral byte_hi_def)
qed

lemma bytes_of_u16_inj: "byte_hi v = byte_hi w \<and> byte_lo v = byte_lo w \<longleftrightarrow> v = w"
  by (metis unat_bytes_of_checksum word_unat_eq_iff)

text \<open>C25: the sender's frames reach the receivers. A frame that \<open>build_frame\<close> writes is taken by
  the AF\_PACKET filter and steered by the XDP program exactly when its port is 9100.\<close>

theorem built_frames_reach_receivers:
  assumes "8 \<le> unat n" and "length buf = 42 + unat n"
  shows "\<exists>frame. build_frame buf n ts port src_ip dst_ip = Some (frame, 42 + n) \<and>
    (filter_accepts frame \<longleftrightarrow> port = 9100) \<and>
    falcon_xdp_redirect redirect q frame = Some (if port = 9100 then redirect q else XDP_PASS)"
proof -
  let ?f = "built_frame n ts port src_ip dst_ip"
  have len: "length ?f = 42 + unat n" using assms(1) by (rule length_built_frame)
  have "take 2 (drop 12 ?f) = [0x08, 0x00]" and "take 2 (drop 36 ?f) = [byte_hi port, byte_lo port]"
    and b23: "?f ! 23 = 17" and b14: "?f ! 14 = 0x45"
    by (simp_all add: built_frame_def ip_header_bytes_def Let_def)
  then have ip: "be16_at ?f 12 0x0800" and dst: "be16_at ?f 36 9100 \<longleftrightarrow> port = 9100"
    using len bytes_of_u16_inj [of port 9100]
    by (simp_all add: be16_at_def rev_le_bytes_2) (simp_all add: byte_hi_def byte_lo_def)
  then have "udp4_to_9100 ?f \<longleftrightarrow> port = 9100" and "\<not> udp6_to_9100 ?f"
    using b23 be16_at_inj [of ?f 12 "0x0800" "0x86DD"] by (auto simp: udp4_to_9100_def udp6_to_9100_def)
  then show ?thesis
    using build_frame_built [of n buf] assms len b14
    by (simp add: filter_accepts_iff falcon_xdp_redirect_iff)
qed

theorem built_frames_reach_receivers_witness:
  "\<exists>frame. build_frame (replicate 58 0) 16 7 9100 0x0200000A 0x0100000A = Some (frame, 42 + 16) \<and>
     filter_accepts frame \<and> falcon_xdp_redirect (\<lambda>_. XDP_REDIRECT) 3 frame = Some XDP_REDIRECT"
  using built_frames_reach_receivers [of 16 "replicate 58 0" 7 9100 "0x0200000A" "0x0100000A" "\<lambda>_. XDP_REDIRECT" 3]
  by simp

subsection \<open>Backends\<close>

text \<open>C26: with an array of at most 64 entries, a call of the socket backend hands out exactly the
  datagrams it read, in order, each truncated to 2048 bytes, and its counters grow by exactly
  these frames.\<close>

theorem socket_delivers_batch:
  assumes "cap \<le> kBATCH" and "0 < epoll_ready w" and "mmsgs w = Got ds # rs" and "length ds \<le> cap"
    and "slots_ok b"
  shows "\<exists>out b'. socket_recv w cap b = Inr (out, b') \<and> length out \<le> cap \<and>
    map (frame_content b') out = map (take 2048) ds \<and> sock_stats b' = count_frames out (sock_stats b)"
proof -
  obtain b' where recv: "socket_recv w cap b = Inr (batch_frames ds, b')"
    and cont: "map (frame_content b') (batch_frames ds) = map (take kBUFSIZE) ds"
    using socket_recv_small [OF assms] by blast
  have "sock_stats b' = count_frames (batch_frames ds) (sock_stats b)"
    using recv recv_loop_counts [of "min cap kBATCH" cap "mmsgs w" "[]" b "batch_frames ds" b'] assms(2)
    by (auto simp: socket_recv_def Let_def)
  with recv cont assms(4) show ?thesis by (simp add: kBUFSIZE_def)
qed

definition empty_socket :: socket_backend where
  "empty_socket = \<lparr>slots = replicate 64 (replicate 2048 0), sock_stats = \<lparr>packets = 0, bytes = 0, drops = 0\<rparr>\<rparr>"

lemma empty_socket_ok: "slots_ok empty_socket"
  by (simp add: slots_ok_def empty_socket_def kBATCH_def kBUFSIZE_def)

theorem socket_delivers_batch_witness:
  "\<exists>out b'. socket_recv \<lparr>epoll_ready = 1, mmsgs = [Got [[1, 2], [3]]]\<rparr> 64 empty_socket = Inr (out, b') \<and>
     length out \<le> 64 \<and> map (frame_content b') out = [[1, 2], [3]] \<and>
     sock_stats b' = count_frames out (sock_stats empty_socket)"
  using socket_delivers_batch [of 64 "\<lparr>epoll_ready = 1, mmsgs = [Got [[1, 2], [3]]]\<rparr>" "[[1, 2], [3]]" "[]" empty_socket]
    empty_socket_ok
  by (simp add: kBATCH_def)

text \<open>With a larger array, as the validator and the throughput benchmarks pass it, the second
  batch of a call is read into the slots of the first: the frames of the first batch then show
  the second batch's datagrams, so the first 64 datagrams are lost and others appear twice.\<close>

lemma socket_overwrites_batch:
  assumes "64 < cap" and "0 < epoll_ready w" and "mmsgs w = [Got as, Got bs]"
    and "length as = 64" and "length bs = 64" and "\<forall>d \<in> set (as @ bs). length d = k" and "k \<le> 2048"
    and "slots_ok b"
  shows "\<exists>out b'. socket_recv w cap b = Inr (out, b') \<and> map (frame_content b') out = bs @ bs"
proof -
  have same: "length (as ! i) = length (bs ! i)" "take kBUFSIZE (bs ! i) = bs ! i" if "i < 64" for i
    using that assms(4-7) by (auto simp: kBUFSIZE_def)
  obtain b' where recv: "socket_recv w cap b = Inr (batch_frames as @ batch_frames bs, b')"
    and cont: "\<forall>i < length bs. frame_content b' (batch_frames bs ! i) = take kBUFSIZE (bs ! i) \<and>
      (length (as ! i) = length (bs ! i) \<longrightarrow> frame_content b' (batch_frames as ! i) = take kBUFSIZE (bs ! i))"
    using socket_recv_overwrites [of cap w as bs b] assms by (auto simp: kBATCH_def)
  have "map (frame_content b') (batch_frames as) = bs" and "map (frame_content b') (batch_frames bs) = bs"
    using cont same assms(4,5) by (auto intro!: nth_equalityI)
  with recv show ?thesis by simp
qed

text \<open>C27: the AF\_PACKET backend hands out the packets of a block in order and each exactly once. In
  a block the kernel has handed over, a call returns as many of the block's pending frames as the
  array holds, leaves the ring untouched so that the frames stay valid, and keeps the rest
  pending; after the last frame it marks the block for release, which the next call does.\<close>

theorem af_packet_in_order:
  assumes "in_block (release_finished b)" and "0 < cap"
  shows "\<exists>b'. ap_recv ws cap b = Inr (take cap (pending (release_finished b)), b') \<and>
    ring b' = ring (release_finished b) \<and> block_index b' = block_index (release_finished b) \<and>
    (if length (pending (release_finished b)) \<le> cap
     then release_block b' \<and> packet_index b' = 0
     else \<not> release_block b' \<and> in_block b' \<and> pending b' = drop cap (pending (release_finished b)))"
proof -
  have "\<not> release_block (release_finished b)" by (simp add: release_finished_def)
  then show ?thesis
    using ap_loop_in_block [OF assms(1), of "[]" cap ws] assms(2) by (auto simp: ap_recv_def)
qed

text \<open>A ring of which the kernel has handed over the first block, with three packets.\<close>

definition sample_block :: ring_block where
  "sample_block =
     \<lparr>block_status = 1, num_pkts = 3, offset_to_first_pkt = 48,
      pkt_at = (\<lambda>off. \<lparr>tp_mac = 66, tp_snaplen = 60, tp_next_offset = 128\<rparr>)\<rparr>"

definition sample_ring :: af_packet where
  "sample_ring =
     \<lparr>ring = sample_block # replicate 63 (sample_block\<lparr>block_status := 0\<rparr>), block_index = 0, packet_index = 0,
      packets_in_block = 0, packet_offset = 0, release_block = False,
      ap_stats = \<lparr>packets = 0, bytes = 0, drops = 0\<rparr>\<rparr>"

theorem af_packet_in_order_witness:
  "\<exists>b'. ap_recv [] 2 sample_ring = Inr ([\<lparr>data = 114, len = 60\<rparr>, \<lparr>data = 242, len = 60\<rparr>], b') \<and>
     pending b' = [\<lparr>data = 370, len = 60\<rparr>]"
proof -
  have rel: "release_finished sample_ring = sample_ring"
    by (simp add: release_finished_def sample_ring_def)
  have inb: "in_block sample_ring" by (simp add: in_block_def sample_ring_def sample_block_def TP_STATUS_USER_def)
  have cur: "ring sample_ring ! 0 = sample_block" "packet_index sample_ring = 0" "block_index sample_ring = 0"
    by (simp_all add: sample_ring_def)
  have three: "[0..<unat (num_pkts sample_block)] = [0, Suc 0, Suc (Suc 0)]"
    by (simp add: sample_block_def upt_rec)
  have off: "pkt_offset sample_block 0 = 48" "pkt_offset sample_block (Suc 0) = 176"
    "pkt_offset sample_block (Suc (Suc 0)) = 304"
    by (simp_all add: sample_block_def)
  have fr: "packet_frame 0 sample_block off = \<lparr>data = unat off + 66, len = 60\<rparr>" for off
    by (simp add: packet_frame_def sample_block_def)
  have pend: "pending sample_ring = [\<lparr>data = 114, len = 60\<rparr>, \<lparr>data = 242, len = 60\<rparr>, \<lparr>data = 370, len = 60\<rparr>]"
    unfolding pending_def block_frames_def cur(2,3) cur(1) three by (simp add: off fr del: pkt_offset.simps)
  show ?thesis
    using af_packet_in_order [of sample_ring 2 "[]"] by (auto simp: rel inb pend)
qed

text \<open>C28: the AF\_XDP backend never loses or duplicates a chunk of packet memory. In every state
  reachable from the constructor, by the kernel moving chunks between the rings and by the caller
  receiving, the chunks on the two rings and those the backend holds back are exactly the 8192
  chunks; so no frame of the caller's last call lies in a chunk the kernel may write.\<close>

theorem xdp_chunks_conserved:
  assumes "xsk_rings X fv rv" and "xdp_reach X kern p0 c0 fs b" and "fv p0 = []" and "rv c0 = []"
    and "\<forall>k pc. kern k \<longrightarrow> ring_chunks fv rv (k pc) = ring_chunks fv rv pc"
  shows "xdp_chunks fv rv b = mset [0..<8192] \<and>
    (\<forall>f \<in> set fs. data f div 2048 \<notin># ring_chunks fv rv (fill_ring b, rx_ring b))"
  using xsk_rings.xdp_reach_inv [OF assms] xsk_rings.xdp_reach_held [OF assms]
  by (simp add: kChunks_def kChunkSize_def)

text \<open>The kernel moves the first chunk of the fill ring to the receive ring, 256 bytes into it.\<close>

definition receive_one :: "(u64 list \<times> u64 list) \<times> xdp_desc list \<Rightarrow> (u64 list \<times> u64 list) \<times> xdp_desc list" where
  "receive_one pc =
     (case pc of
        ((a # as, new), c) \<Rightarrow> ((as, new), c @ [\<lparr>desc_addr = of_nat (chunk_of a * kChunkSize + 256), desc_len = 60\<rparr>])
      | _ \<Rightarrow> pc)"

lemma chunk_of_packet: "chunk_of (of_nat (chunk_of a * kChunkSize + 256)) = chunk_of a"
proof -
  have "chunk_of a * 2048 + 256 < 2 ^ 64"
  proof -
    have "chunk_of a \<le> (2 ^ 64 - 1) div 2048"
      unfolding chunk_of_def kChunkSize_def using unat_less [of a] by (intro div_le_mono) simp
    then show ?thesis by simp
  qed
  then have "unat (of_nat (chunk_of a * 2048 + 256) :: u64) = chunk_of a * 2048 + 256"
    by (simp only: unat_of_nat len_num1) simp
  then have "unat (of_nat (chunk_of a * 2048 + 256) :: u64) div 2048 = chunk_of a" by simp
  then show ?thesis unfolding kChunkSize_def by (subst chunk_of_def) (simp add: kChunkSize_def)
qed

lemma receive_one_keeps: "ring_chunks fst id (receive_one pc) = ring_chunks fst id pc"
  by (auto simp: receive_one_def ring_chunks_def chunk_of_packet simp del: of_nat_mult of_nat_add
      split: prod.split list.split)

theorem xdp_chunks_conserved_witness:
  "\<exists>p fs b. fill_all list_rings ([], []) = Some p \<and>
     xdp_recv list_rings (1, receive_one) 64
       \<lparr>fill_ring = p, rx_ring = [], recycle_addrs = [], xdp_stats = \<lparr>packets = 0, bytes = 0, drops = 0\<rparr>\<rparr> = Inr (fs, b) \<and>
     xdp_chunks fst id b = mset [0..<8192] \<and>
     (\<forall>f \<in> set fs. data f div 2048 \<notin># ring_chunks fst id (fill_ring b, rx_ring b))"
proof -
  obtain p where p: "fill_all list_rings ([], []) = Some p"
    by (simp add: fill_all_def list_rings_def kChunks_def kRingSize_def)
  let ?b0 = "\<lparr>fill_ring = p, rx_ring = [], recycle_addrs = [], xdp_stats = \<lparr>packets = 0, bytes = 0, drops = 0\<rparr>\<rparr>"
  obtain fs b where recv: "xdp_recv list_rings (1, receive_one) 64 ?b0 = Inr (fs, b)"
    by (rule xdp_recv_returns)
  have "xdp_reach list_rings (\<lambda>k. k = receive_one) ([], []) [] fs b"
    using xdp_reach.received [OF xdp_reach.constructed [OF p], of "\<lambda>k. k = receive_one" "(1, receive_one)"] recv by simp
  from xdp_chunks_conserved [OF list_xsk.xsk_rings_axioms this] p recv receive_one_keeps
  show ?thesis by auto
qed

subsection \<open>The validator\<close>

text \<open>C29: the validator's verdict is right. When its receiver ends, it has looked at the frames of a
  prefix of the batches (all of them, unless it had already seen every number), its counters are
  the summary of these frames, and it exits with 0 exactly when each expected sequence number was
  received once and no frame was invalid.\<close>

theorem receive_verdict:
  assumes "receive layer expected batches = Some (rc, rep, t)" and "length (concat batches) < 2 ^ 64"
  shows "\<exists>n. let fs = concat (take n batches); qs = sequences layer expected fs in
    (n = length batches \<or> \<not> valid t < expected) \<and>
    summary expected qs (invalid_frames layer expected fs) t \<and> rep = report expected t \<and>
    rc = (if set qs = {q. q < expected} \<and> distinct qs \<and> invalid_frames layer expected fs = 0 then 0 else 2)"
proof -
  have loop: "receive_loop layer expected batches (start_tally expected) = Some t"
    and rc: "rc = (if expected - valid t = 0 \<and> duplicates t = 0 \<and> invalid t = 0 then 0 else 2)"
    and rep: "rep = report expected t"
    using assms(1) by (auto simp: receive_def Let_def bind_eq_Some_conv)
  show ?thesis
    using loop assms(2)
  proof (rule receive_loop_verdict)
    fix n
    assume "n = length batches \<or> \<not> valid t < expected"
      and "summary expected (sequences layer expected (concat (take n batches)))
        (invalid_frames layer expected (concat (take n batches))) t"
      and verdict: "expected - valid t = 0 \<and> duplicates t = 0 \<and> invalid t = 0 \<longleftrightarrow>
        set (sequences layer expected (concat (take n batches))) = {q. q < expected} \<and>
        distinct (sequences layer expected (concat (take n batches))) \<and>
        invalid_frames layer expected (concat (take n batches)) = 0"
    then show ?thesis unfolding rc rep verdict by (intro exI [of _ n]) (simp add: Let_def)
  qed
qed

theorem receive_verdict_witness:
  "\<exists>rc rep t n. receive kL4Payload 2 [[header_bytes 1], [[7], header_bytes 0]] = Some (rc, rep, t) \<and>
     summary 2 (sequences kL4Payload 2 (concat (take n [[header_bytes 1], [[7], header_bytes 0]])))
       (invalid_frames kL4Payload 2 (concat (take n [[header_bytes 1], [[7], header_bytes 0]]))) t"
proof -
  have "\<forall>f \<in> set (concat [[header_bytes 1], [[7], header_bytes 0]]). read_sequence kL4Payload 2 f \<noteq> None"
    by (simp add: read_sequence_header) (simp add: read_sequence_def payload_def)
  then obtain t where "receive_loop kL4Payload 2 [[header_bytes 1], [[7], header_bytes 0]] (start_tally 2) = Some t"
    using receive_loop_some by blast
  then have "\<exists>rc rep. receive kL4Payload 2 [[header_bytes 1], [[7], header_bytes 0]] = Some (rc, rep, t)"
    by (simp add: receive_def Let_def)
  then obtain rc rep where run: "receive kL4Payload 2 [[header_bytes 1], [[7], header_bytes 0]] = Some (rc, rep, t)"
    by blast
  show ?thesis using receive_verdict [OF run] run by (auto simp: Let_def)
qed

text \<open>C30: nothing lost, nothing repeated is exit code 0. When the frames received before the deadline
  are the sender's datagrams, in any order and in any batches, the receiver exits with 0.\<close>

theorem receive_accepts_transmitted:
  assumes "mset (concat batches) = mset (transmit n)"
  shows "\<exists>rep t. receive kL4Payload n batches = Some (0, rep, t)"
proof -
  have set: "set (concat batches) = set (transmit n)" using assms by (metis set_mset_mset)
  have dist: "distinct (concat batches)" using assms transmit_distinct by (metis mset_eq_imp_distinct_iff)
  have "length (concat batches) = unat n"
    using assms by (metis length_map length_upt minus_nat.diff_0 size_mset transmit_def)
  then have len: "length (concat batches) < 2 ^ 64" using unat_less [of n] by simp
  have "\<forall>f \<in> set (concat batches). read_sequence kL4Payload n f \<noteq> None"
    unfolding set by (auto elim!: read_transmitted)
  then obtain t where loop: "receive_loop kL4Payload n batches (start_tally n) = Some t"
    using receive_loop_some by blast
  show ?thesis
    using loop len
  proof (rule receive_loop_verdict)
    fix k
    let ?fs = "concat (take k batches)"
    let ?qs = "sequences kL4Payload n ?fs"
    assume k: "k = length batches \<or> \<not> valid t < n" and sum: "summary n ?qs (invalid_frames kL4Payload n ?fs) t"
      and verdict: "n - valid t = 0 \<and> duplicates t = 0 \<and> invalid t = 0 \<longleftrightarrow>
        set ?qs = {q. q < n} \<and> distinct ?qs \<and> invalid_frames kL4Payload n ?fs = 0"
    have part: "concat batches = ?fs @ concat (drop k batches)" by (rule concat_take_append)
    then have sub: "set ?fs \<subseteq> set (transmit n)" and "distinct ?fs" using set dist by (auto simp: set_eq_iff)
    moreover from sub have qs: "map header_bytes ?qs = ?fs" and "invalid_frames kL4Payload n ?fs = 0"
      using sequences_transmitted by blast+
    ultimately have "distinct ?qs" by (metis distinct_map)
    moreover have "set ?qs = {q. q < n}"
      using k
    proof
      assume "k = length batches"
      then have "header_bytes ` set ?qs = header_bytes ` {q. q < n}"
        using qs set transmit_set [of n] by (metis list.set_map take_all order_refl)
      then show ?thesis by (rule inj_image_eq_iff [THEN iffD1, rotated]) (simp add: inj_def header_bytes_inj)
    next
      assume "\<not> valid t < n"
      then have "card (set ?qs) = unat n"
        using summary_valid [OF sum] by (simp add: word_less_nat_alt)
      moreover have "set ?qs \<subseteq> {q. q < n}" using sum by (auto simp: summary_def)
      ultimately show ?thesis by (metis card_below card_subset_eq finite)
    qed
    ultimately show ?thesis
      using loop verdict \<open>invalid_frames kL4Payload n ?fs = 0\<close> by (simp add: receive_def Let_def)
  qed
qed

theorem receive_accepts_transmitted_witness:
  "\<exists>rep t. receive kL4Payload 3 [[header_bytes 2], [], [header_bytes 0, header_bytes 1]] = Some (0, rep, t)"
proof (rule receive_accepts_transmitted)
  have "[0..<3] = [0, 1, 2 :: nat]" by (simp add: upt_rec)
  then show "mset (concat [[header_bytes 2], [], [header_bytes 0, header_bytes 1]]) = mset (transmit 3)"
    by (simp add: transmit_def)
qed

end
