(* ===== verification/Backend_Setup.thy ===== *)
theory Backend_Setup
  imports Packet_Filter C_Strings Socket_Backend Af_Packet_Backend Af_Xdp_Backend
begin

section \<open>Constructors and destructors of the backends\<close>

text \<open>
  The constructors of \<open>SocketBackend\<close>, \<open>AfPacketBackend\<close> and \<open>AfXdpBackend\<close> acquire what the
  backend works with, one call after the other, and throw when a call fails; a constructor that
  throws does not run its destructor. What each call returns is a field of an environment; a
  constructor is the list of the calls that took effect, with the object or the exception's
  text, and a destructor is a list of calls.

  \<open>held\<close> is what a list of calls leaves in the process's hands. The lemmas show what every path
  of a constructor leaves behind: the AF\_XDP constructor gives back everything on every
  error but the last one, the two others leave their descriptors open.
\<close>

datatype call =
    Open_fd int
  | Close_fd int
  | Set_nonblocking int
  | Bind_port int u16
  | Bind_interface int int
  | Set_version int
  | Attach_filter int "cbpf list"
  | Set_rx_ring int nat nat nat nat
  | Epoll_add int int
  | Map_ring nat
  | Unmap_ring nat
  | Open_object
  | Load_object
  | Close_object
  | Attach_xdp int bool
  | Detach_xdp int bool
  | Alloc_umem nat
  | Free_umem
  | Create_umem
  | Delete_umem
  | Create_xsk string u32 bool
  | Delete_xsk
  | Update_xskmap

definition to_string :: "int \<Rightarrow> string" where
  "to_string n = (if n < 0 then CHR ''-'' # dec (nat (- n)) else dec (nat n))"

definition no_stats :: PacketStats where
  "no_stats = \<lparr>packets = 0, bytes = 0, drops = 0\<rparr>"

subsection \<open>SocketBackend\<close>

record socket_env =
  se_socket :: int
  se_bind :: "u16 \<Rightarrow> int"
  se_epoll_create :: int
  se_epoll_ctl :: int
  se_strerror :: string

record socket_object =
  so_fd :: int
  so_epoll_fd :: int
  so_backend :: socket_backend

definition SocketBackend :: "socket_env \<Rightarrow> u16 \<Rightarrow> call list \<times> (string + socket_object)" where
  "SocketBackend E port =
     (let fd = se_socket E; ep = se_epoll_create E
      in if fd < 0 then ([], Inl (''socket() failed: '' @ se_strerror E))
         else if se_bind E port < 0
         then ([Open_fd fd, Set_nonblocking fd], Inl (''bind() failed: '' @ se_strerror E))
         else if ep < 0
         then ([Open_fd fd, Set_nonblocking fd, Bind_port fd port], Inl (''epoll_create1() failed: '' @ se_strerror E))
         else if se_epoll_ctl E < 0
         then ([Open_fd fd, Set_nonblocking fd, Bind_port fd port, Open_fd ep],
               Inl (''epoll_ctl() failed: '' @ se_strerror E))
         else ([Open_fd fd, Set_nonblocking fd, Bind_port fd port, Open_fd ep, Epoll_add ep fd],
               Inr \<lparr>so_fd = fd, so_epoll_fd = ep,
                    so_backend = \<lparr>slots = replicate kBATCH (replicate kBUFSIZE 0), sock_stats = no_stats\<rparr>\<rparr>))"

definition destroy_socket :: "socket_object \<Rightarrow> call list" where
  "destroy_socket s =
     (if so_epoll_fd s \<ge> 0 then [Close_fd (so_epoll_fd s)] else []) @
     (if so_fd s \<ge> 0 then [Close_fd (so_fd s)] else [])"

subsection \<open>AfPacketBackend\<close>

definition kFrameSize :: nat where "kFrameSize = 2048"
definition kBlockRetireMs :: nat where "kBlockRetireMs = 0"

record packet_env =
  pe_socket :: int
  pe_version :: int
  pe_nametoindex :: "string \<Rightarrow> int"
  pe_bind :: "int \<Rightarrow> int"
  pe_filter :: int
  pe_rx_ring :: int
  pe_mmap :: "ring_block list option"
  pe_epoll_create :: int
  pe_epoll_ctl :: int
  pe_strerror :: string

record packet_object =
  po_fd :: int
  po_epoll_fd :: int
  po_ring_len :: nat
  po_backend :: af_packet

definition AfPacketBackend :: "packet_env \<Rightarrow> string \<Rightarrow> call list \<times> (string + packet_object)" where
  "AfPacketBackend E ifname =
     (let fd = pe_socket E; ifindex = pe_nametoindex E ifname; ep = pe_epoll_create E;
          ring_len = kBlockSize * kBlockCount; failed = (\<lambda>what. Inl (what @ '' failed: '' @ pe_strerror E));
          opened = [Open_fd fd, Set_nonblocking fd];
          bound = opened @ [Set_version fd, Bind_interface fd ifindex];
          filtered = bound @ [Attach_filter fd af_packet_filter];
          ringed = filtered @ [Set_rx_ring fd kBlockSize kBlockCount kFrameSize kBlockRetireMs]
      in if fd < 0 then ([], failed ''socket(AF_PACKET)'')
         else if pe_version E < 0 then (opened, failed ''PACKET_VERSION'')
         else if ifindex = 0 then (opened @ [Set_version fd], Inl (''bad interface name: '' @ ifname))
         else if pe_bind E ifindex < 0 then (opened @ [Set_version fd], failed ''bind()'')
         else if pe_filter E < 0 then (bound, failed ''SO_ATTACH_FILTER'')
         else if pe_rx_ring E < 0 then (filtered, failed ''PACKET_RX_RING'')
         else (case pe_mmap E of
                 None \<Rightarrow> (ringed, failed ''mmap(PACKET_RX_RING)'')
               | Some blocks \<Rightarrow>
                   if ep < 0 then (ringed @ [Map_ring ring_len], failed ''epoll_create1()'')
                   else if pe_epoll_ctl E < 0
                   then (ringed @ [Map_ring ring_len, Open_fd ep], failed ''epoll_ctl()'')
                   else (ringed @ [Map_ring ring_len, Open_fd ep, Epoll_add ep fd],
                         Inr \<lparr>po_fd = fd, po_epoll_fd = ep, po_ring_len = ring_len,
                              po_backend = \<lparr>ring = blocks, block_index = 0, packet_index = 0, packets_in_block = 0,
                                packet_offset = 0, release_block = False, ap_stats = no_stats\<rparr>\<rparr>)))"

text \<open>\<open>ring_\<close> is not null in every object, since the constructor throws otherwise.\<close>

definition destroy_packet :: "packet_object \<Rightarrow> call list" where
  "destroy_packet s =
     (if po_epoll_fd s \<ge> 0 then [Close_fd (po_epoll_fd s)] else []) @
     [Unmap_ring (po_ring_len s)] @
     (if po_fd s \<ge> 0 then [Close_fd (po_fd s)] else [])"

text \<open>\<open>kernelDrops\<close>: \<open>tp_drops\<close> of the socket's statistics, or the exception.\<close>

definition packet_kernel_drops :: "string + u32 \<Rightarrow> string + u64" where
  "packet_kernel_drops statistics =
     (case statistics of
        Inl e \<Rightarrow> Inl (''get PACKET_STATISTICS failed: '' @ e)
      | Inr tp_drops \<Rightarrow> Inr (ucast tp_drops))"

subsection \<open>AfXdpBackend\<close>

datatype AfXdpMode = kCopy | kZeroCopy

record ('p, 'c) xdp_env =
  xe_nametoindex :: "string \<Rightarrow> int"
  xe_open :: int
  xe_load :: int
  xe_program :: bool
  xe_map :: bool
  xe_attach :: "int \<Rightarrow> bool \<Rightarrow> int"
  xe_memalign :: int
  xe_umem_create :: int
  xe_xsk_create :: "string \<Rightarrow> u32 \<Rightarrow> AfXdpMode \<Rightarrow> int"
  xe_update_xskmap :: int
  xe_errno :: int
  xe_strerror :: "int \<Rightarrow> string"
  xe_fill_ring :: 'p
  xe_rx_ring :: 'c

record ('p, 'c) xdp_object =
  xo_ifindex :: int
  xo_generic :: bool
  xo_has_xsk :: bool
  xo_has_umem :: bool
  xo_has_umem_buf :: bool
  xo_attached :: bool
  xo_backend :: "('p, 'c) af_xdp"

definition AfXdpBackend :: "('p, 'c) xsk_ops \<Rightarrow> ('p, 'c) xdp_env \<Rightarrow> string \<Rightarrow> AfXdpMode \<Rightarrow> bool \<Rightarrow> u32 \<Rightarrow>
    call list \<times> (string + ('p, 'c) xdp_object)" where
  "AfXdpBackend X E ifname mode generic queue_id =
     (let ifindex = xe_nametoindex E ifname; err = xe_strerror E;
          opened = [Open_object]; loaded = opened @ [Load_object];
          attached = loaded @ [Attach_xdp ifindex generic];
          allocated = attached @ [Alloc_umem (kChunks * kChunkSize)];
          umem = allocated @ [Create_umem];
          xsk = umem @ [Create_xsk ifname queue_id (mode = kCopy)];
          undo_attach = [Detach_xdp ifindex generic, Close_object]
      in if ifindex = 0 then ([], Inl (''bad interface name: '' @ ifname))
         else if xe_open E \<noteq> 0 then ([], Inl (''open XDP program failed: '' @ to_string (- xe_open E)))
         else if xe_load E \<noteq> 0
         then (opened @ [Close_object], Inl (''load XDP program failed: '' @ err (xe_errno E)))
         else if \<not> xe_program E \<or> \<not> xe_map E
         then (loaded @ [Close_object], Inl ''XDP program is missing falcon_xdp_redirect or falcon_xsks'')
         else if xe_attach E ifindex generic \<noteq> 0
         then (loaded @ [Close_object], Inl (''attach XDP program failed: '' @ err (- xe_attach E ifindex generic)))
         else if xe_memalign E \<noteq> 0 then (attached @ undo_attach, Inl ''allocate AF_XDP UMEM failed'')
         else if xe_umem_create E \<noteq> 0
         then (allocated @ [Free_umem] @ undo_attach,
               Inl (''create AF_XDP UMEM failed: '' @ err (- xe_umem_create E)))
         else if xe_xsk_create E ifname queue_id mode \<noteq> 0
         then (umem @ [Delete_umem, Free_umem] @ undo_attach,
               Inl (''create AF_XDP socket failed: '' @ err (- xe_xsk_create E ifname queue_id mode)))
         else if xe_update_xskmap E \<noteq> 0
         then (xsk @ [Delete_xsk, Delete_umem, Free_umem] @ undo_attach,
               Inl (''register AF_XDP socket in XSKMAP failed: '' @ err (- xe_update_xskmap E)))
         else (case fill_all X (xe_fill_ring E) of
                 None \<Rightarrow> (xsk @ [Update_xskmap], Inl ''reserve AF_XDP fill ring failed'')
               | Some p \<Rightarrow>
                   (xsk @ [Update_xskmap, Close_object],
                    Inr \<lparr>xo_ifindex = ifindex, xo_generic = generic, xo_has_xsk = True, xo_has_umem = True,
                         xo_has_umem_buf = True, xo_attached = True,
                         xo_backend = \<lparr>fill_ring = p, rx_ring = xe_rx_ring E, recycle_addrs = [],
                           xdp_stats = no_stats\<rparr>\<rparr>)))"

definition destroy_xdp :: "('p, 'c) xdp_object \<Rightarrow> call list" where
  "destroy_xdp s =
     (if xo_has_xsk s then [Delete_xsk] else []) @ (if xo_has_umem s then [Delete_umem] else []) @
     (if xo_has_umem_buf s then [Free_umem] else []) @
     (if xo_attached s then [Detach_xdp (xo_ifindex s) (xo_generic s)] else [])"

definition xdp_kernel_drops :: "string + u64 \<times> u64 \<Rightarrow> string + u64" where
  "xdp_kernel_drops statistics =
     (case statistics of
        Inl e \<Rightarrow> Inl (''get AF_XDP statistics failed: '' @ e)
      | Inr (rx_dropped, rx_invalid_descs) \<Rightarrow> Inr (rx_dropped + rx_invalid_descs))"

subsection \<open>What the calls leave behind\<close>

datatype resource = Fd int | Ring | Object | Xdp int bool | Umem_buffer | Umem | Xsk

fun held_after :: "call \<Rightarrow> resource set \<Rightarrow> resource set" where
  "held_after (Open_fd fd) H = insert (Fd fd) H"
| "held_after (Close_fd fd) H = H - {Fd fd}"
| "held_after (Map_ring _) H = insert Ring H"
| "held_after (Unmap_ring _) H = H - {Ring}"
| "held_after Open_object H = insert Object H"
| "held_after Close_object H = H - {Object}"
| "held_after (Attach_xdp i g) H = insert (Xdp i g) H"
| "held_after (Detach_xdp i g) H = H - {Xdp i g}"
| "held_after (Alloc_umem _) H = insert Umem_buffer H"
| "held_after Free_umem H = H - {Umem_buffer}"
| "held_after Create_umem H = insert Umem H"
| "held_after Delete_umem H = H - {Umem}"
| "held_after (Create_xsk _ _ _) H = insert Xsk H"
| "held_after Delete_xsk H = H - {Xsk}"
| "held_after _ H = H"

abbreviation held :: "call list \<Rightarrow> resource set" where
  "held calls \<equiv> fold held_after calls {}"

text \<open>What an object holds while it lives, and nothing after its destructor.\<close>

lemma socket_lifecycle:
  assumes "SocketBackend E port = (calls, Inr s)"
  shows "held calls = {Fd (so_fd s), Fd (so_epoll_fd s)}" and "held (calls @ destroy_socket s) = {}"
    and "slots_ok (so_backend s)" and "sock_stats (so_backend s) = no_stats"
  using assms
  by (auto simp: SocketBackend_def destroy_socket_def Let_def slots_ok_def split: if_splits)

lemma packet_lifecycle:
  assumes "AfPacketBackend E ifname = (calls, Inr s)"
  shows "held calls = {Fd (po_fd s), Ring, Fd (po_epoll_fd s)}" and "held (calls @ destroy_packet s) = {}"
    and "ap_stats (po_backend s) = no_stats"
  using assms
  by (auto simp: AfPacketBackend_def destroy_packet_def Let_def split: if_splits option.splits)

lemma xdp_lifecycle:
  assumes "AfXdpBackend X E ifname mode generic q = (calls, Inr s)"
  shows "held calls = {Xdp (xo_ifindex s) generic, Umem_buffer, Umem, Xsk}" and "held (calls @ destroy_xdp s) = {}"
    and "xdp_stats (xo_backend s) = no_stats"
    and "fill_all X (xe_fill_ring E) = Some (fill_ring (xo_backend s)) \<and> recycle_addrs (xo_backend s) = []"
  using assms
  by (auto simp: AfXdpBackend_def destroy_xdp_def Let_def split: if_splits option.splits)

text \<open>A constructed AF\_XDP backend is an initial state of \<open>xdp_reach\<close>: the chunk invariant starts with it.\<close>

lemma xdp_object_reach:
  assumes "AfXdpBackend X E ifname mode generic q = (calls, Inr s)"
  shows "xdp_reach X kern (xe_fill_ring E) (xe_rx_ring E) [] (xo_backend s)"
proof -
  have "\<exists>p. fill_all X (xe_fill_ring E) = Some p \<and> xo_backend s =
      \<lparr>fill_ring = p, rx_ring = xe_rx_ring E, recycle_addrs = [], xdp_stats = \<lparr>packets = 0, bytes = 0, drops = 0\<rparr>\<rparr>"
    using assms by (auto simp: AfXdpBackend_def Let_def no_stats_def split: if_splits option.splits)
  then show ?thesis using xdp_reach.constructed by metis
qed

text \<open>What a constructor that throws leaves behind.\<close>

lemma socket_throws:
  assumes "SocketBackend E port = (calls, Inl e)"
  shows "held calls =
    (if se_socket E < 0 then {} else {Fd (se_socket E)}) \<union>
    (if 0 \<le> se_socket E \<and> 0 \<le> se_bind E port \<and> 0 \<le> se_epoll_create E then {Fd (se_epoll_create E)} else {})"
  using assms by (auto simp: SocketBackend_def Let_def split: if_splits)

lemma packet_throws:
  assumes "AfPacketBackend E ifname = (calls, Inl e)" and "0 \<le> pe_socket E"
  shows "Fd (pe_socket E) \<in> held calls"
  using assms by (auto simp: AfPacketBackend_def Let_def split: if_splits option.splits)

lemma xdp_throws:
  assumes "AfXdpBackend X E ifname mode generic q = (calls, Inl e)"
  shows "held calls = {} \<or>
    fill_all X (xe_fill_ring E) = None \<and>
    held calls = {Object, Xdp (xe_nametoindex E ifname) generic, Umem_buffer, Umem, Xsk}"
  using assms unfolding AfXdpBackend_def Let_def
  by (auto split: if_splits option.splits)

end
