(* ===== verification/Doubles.thy ===== *)
theory Doubles
  imports Prelude Complex_Main
begin

section \<open>Double-precision arithmetic of the benchmarks\<close>

text \<open>
  The benchmarks compute rates, durations and percentages in \<open>double\<close>. A double is a real
  number, an infinity or NaN; every operation rounds its exact result with \<open>rnd\<close>, an argument
  of the definitions, and division by zero gives an infinity or NaN. Signed zeros are not
  distinguished, and the exponent range is not bounded: the quantities here lie between a
  nanosecond and \<open>2 ^ 70\<close>, far inside it.

  The locale \<open>ieee_rounding\<close> states what the lemmas use of the rounding: it is monotone,
  exact on integers below \<open>2 ^ 53\<close>, and has relative error at most \<open>2 ^ -53\<close>. It is interpreted
  on \<open>binary64\<close>, rounding to nearest with ties to even.
\<close>

datatype double = Fin real | PInf | NInf | NaN

type_synonym rounding = "real \<Rightarrow> real"

definition d_of_int :: "rounding \<Rightarrow> int \<Rightarrow> double" where
  "d_of_int rnd n = Fin (rnd (of_int n))"

definition d_of_u64 :: "rounding \<Rightarrow> u64 \<Rightarrow> double" where
  "d_of_u64 rnd w = Fin (rnd (of_nat (unat w)))"

definition d_infinite :: "real \<Rightarrow> double" where
  "d_infinite a = (if a > 0 then PInf else if a < 0 then NInf else NaN)"

fun d_sign :: "double \<Rightarrow> real" where
  "d_sign (Fin a) = sgn a"
| "d_sign PInf = 1"
| "d_sign NInf = - 1"
| "d_sign NaN = 0"

fun d_div :: "rounding \<Rightarrow> double \<Rightarrow> double \<Rightarrow> double" where
  "d_div rnd NaN y = NaN"
| "d_div rnd x NaN = NaN"
| "d_div rnd (Fin a) (Fin b) = (if b = 0 then d_infinite a else Fin (rnd (a / b)))"
| "d_div rnd (Fin a) y = Fin 0"
| "d_div rnd x (Fin b) = (if b < 0 then d_infinite (- d_sign x) else x)"
| "d_div rnd x y = NaN"

fun d_mul :: "rounding \<Rightarrow> double \<Rightarrow> double \<Rightarrow> double" where
  "d_mul rnd (Fin a) (Fin b) = Fin (rnd (a * b))"
| "d_mul rnd x y = d_infinite (d_sign x * d_sign y)"

fun d_add :: "rounding \<Rightarrow> double \<Rightarrow> double \<Rightarrow> double" where
  "d_add rnd (Fin a) (Fin b) = Fin (rnd (a + b))"
| "d_add rnd NaN y = NaN"
| "d_add rnd x NaN = NaN"
| "d_add rnd (Fin a) y = y"
| "d_add rnd x (Fin b) = x"
| "d_add rnd x y = (if x = y then x else NaN)"

fun d_neg :: "double \<Rightarrow> double" where
  "d_neg (Fin a) = Fin (- a)"
| "d_neg PInf = NInf"
| "d_neg NInf = PInf"
| "d_neg NaN = NaN"

definition d_sub :: "rounding \<Rightarrow> double \<Rightarrow> double \<Rightarrow> double" where
  "d_sub rnd x y = d_add rnd x (d_neg y)"

text \<open>\<open>a >= b\<close> and \<open>a > b\<close>: both are false when an operand is NaN.\<close>

fun d_ge :: "double \<Rightarrow> double \<Rightarrow> bool" where
  "d_ge (Fin a) (Fin b) = (a \<ge> b)"
| "d_ge NaN y = False"
| "d_ge x NaN = False"
| "d_ge x NInf = True"
| "d_ge PInf y = True"
| "d_ge x y = False"

definition d_gt :: "double \<Rightarrow> double \<Rightarrow> bool" where
  "d_gt x y = (d_ge x y \<and> x \<noteq> y)"

text \<open>
  \<open>std::chrono::duration<double>(d).count()\<close> of a number of nanoseconds, the conversion of a
  double to an unsigned integer (which drops the fraction), and what \<open>printf\<close> makes of a
  double with \<open>k\<close> digits, which is left to the C library.
\<close>

definition d_seconds :: "rounding \<Rightarrow> int \<Rightarrow> double" where
  "d_seconds rnd ns = d_div rnd (d_of_int rnd ns) (Fin 1000000000)"

fun d_to_u64 :: "double \<Rightarrow> u64 option" where
  "d_to_u64 (Fin a) = (if - 1 < a \<and> a < 2 ^ 64 then Some (of_nat (nat \<lfloor>a\<rfloor>)) else None)"
| "d_to_u64 _ = None"

type_synonym printf_f = "nat \<Rightarrow> double \<Rightarrow> string"

subsection \<open>The laws of rounding\<close>

locale ieee_rounding =
  fixes rnd :: rounding
  assumes rnd_mono: "x \<le> y \<Longrightarrow> rnd x \<le> rnd y"
    and rnd_int: "\<bar>n\<bar> < 2 ^ 53 \<Longrightarrow> rnd (of_int n) = of_int n"
    and rnd_error: "\<bar>rnd x - x\<bar> \<le> \<bar>x\<bar> / 2 ^ 53"
begin

lemma rnd_0 [simp]: "rnd 0 = 0"
  using rnd_int [of 0] by simp

lemma rnd_nonneg: "0 \<le> x \<Longrightarrow> 0 \<le> rnd x"
  using rnd_mono [of 0 x] by simp

lemma rnd_upper: "0 \<le> x \<Longrightarrow> rnd x \<le> x * (1 + 1 / 2 ^ 53)"
  using rnd_error [of x] by (simp add: field_simps abs_if split: if_splits)

lemma rnd_lower: "0 \<le> x \<Longrightarrow> x * (1 - 1 / 2 ^ 53) \<le> rnd x"
  using rnd_error [of x] by (simp add: field_simps abs_if split: if_splits)

text \<open>A duration that is at least a given number of seconds also is so after rounding.\<close>

lemma d_seconds_ge:
  assumes "\<bar>ns\<bar> < 2 ^ 53" and "s * 1000000000 \<le> of_int ns" and "rnd s = s"
  shows "d_ge (d_seconds rnd ns) (Fin s)"
proof -
  have "s \<le> of_int ns / 1000000000" using assms(2) by simp
  then have "rnd s \<le> rnd (of_int ns / 1000000000)" by (rule rnd_mono)
  then show ?thesis using assms(1,3) by (simp add: d_seconds_def d_of_int_def rnd_int)
qed

end

subsection \<open>Rounding to nearest, ties to even\<close>

definition nearest_even :: "real \<Rightarrow> int" where
  "nearest_even x =
     (let n = \<lfloor>x\<rfloor>; r = x - of_int n
      in if r < 1 / 2 then n else if r > 1 / 2 then n + 1 else if even n then n else n + 1)"

definition ulp :: "real \<Rightarrow> real" where
  "ulp x = 2 powr (of_int \<lfloor>log 2 \<bar>x\<bar>\<rfloor> - 52)"

definition binary64 :: rounding where
  "binary64 x = (if x = 0 then 0 else ulp x * of_int (nearest_even (x / ulp x)))"

lemma nearest_even_error: "\<bar>of_int (nearest_even x) - x\<bar> \<le> 1 / 2"
  unfolding nearest_even_def Let_def by (auto simp: abs_le_iff)

lemma nearest_even_of_int [simp]: "nearest_even (of_int n) = n"
  by (simp add: nearest_even_def)

lemma nearest_even_mono:
  assumes "x \<le> y"
  shows "nearest_even x \<le> nearest_even y"
proof (cases "\<lfloor>x\<rfloor> = \<lfloor>y\<rfloor>")
  case True
  with assms show ?thesis by (auto simp: nearest_even_def Let_def)
next
  case False
  then have "\<lfloor>x\<rfloor> + 1 \<le> \<lfloor>y\<rfloor>" using floor_mono [OF assms] by linarith
  then show ?thesis by (auto simp: nearest_even_def Let_def)
qed

lemma ulp_pos: "0 < ulp x"
  by (simp add: ulp_def)

lemma ulp_minus [simp]: "ulp (- x) = ulp x"
  by (simp add: ulp_def)

text \<open>A number lies between \<open>2 ^ 52\<close> and \<open>2 ^ 53\<close> units in the last place.\<close>

lemma ulp_bounds:
  assumes "x \<noteq> 0"
  shows "2 ^ 52 * ulp x \<le> \<bar>x\<bar>" and "\<bar>x\<bar> < 2 ^ 53 * ulp x"
proof -
  have "2 powr of_int \<lfloor>log 2 \<bar>x\<bar>\<rfloor> \<le> \<bar>x\<bar> \<and> \<bar>x\<bar> < 2 powr (of_int \<lfloor>log 2 \<bar>x\<bar>\<rfloor> + 1)"
    using floor_log_eq_powr_iff [of "\<bar>x\<bar>" 2 "\<lfloor>log 2 \<bar>x\<bar>\<rfloor>"] assms by simp
  moreover have "2 ^ 52 * ulp x = 2 powr of_int \<lfloor>log 2 \<bar>x\<bar>\<rfloor>"
    and "2 ^ 53 * ulp x = 2 powr (of_int \<lfloor>log 2 \<bar>x\<bar>\<rfloor> + 1)"
    by (simp_all add: ulp_def powr_diff powr_add)
  ultimately show "2 ^ 52 * ulp x \<le> \<bar>x\<bar>" and "\<bar>x\<bar> < 2 ^ 53 * ulp x" by simp_all
qed

lemma nearest_even_minus: "nearest_even (- x) = - nearest_even x"
proof (cases "x = of_int \<lfloor>x\<rfloor>")
  case True
  then show ?thesis by (metis nearest_even_of_int of_int_minus)
next
  case False
  then have "\<lfloor>- x\<rfloor> = - \<lfloor>x\<rfloor> - 1" by linarith
  then show ?thesis by (auto simp: nearest_even_def Let_def)
qed

lemma binary64_minus: "binary64 (- x) = - binary64 x"
  by (simp add: binary64_def nearest_even_minus)

lemma binary64_error: "\<bar>binary64 x - x\<bar> \<le> \<bar>x\<bar> / 2 ^ 53"
proof (cases "x = 0")
  case False
  have "binary64 x - x = ulp x * (of_int (nearest_even (x / ulp x)) - x / ulp x)"
    using False ulp_pos [of x] by (simp add: binary64_def right_diff_distrib)
  then have "\<bar>binary64 x - x\<bar> = ulp x * \<bar>of_int (nearest_even (x / ulp x)) - x / ulp x\<bar>"
    using ulp_pos [of x] by (simp add: abs_mult)
  also have "\<dots> \<le> ulp x * (1 / 2)"
    using nearest_even_error ulp_pos [of x] by (intro mult_left_mono) auto
  also have "\<dots> \<le> \<bar>x\<bar> / 2 ^ 53" using ulp_bounds(1) [OF False] by simp
  finally show ?thesis .
qed (simp add: binary64_def)

text \<open>Rounding stays within the binade: between \<open>2 ^ 52\<close> and \<open>2 ^ 53\<close> units.\<close>

lemma binary64_binade:
  assumes "0 < x"
  shows "2 ^ 52 * ulp x \<le> binary64 x" and "binary64 x \<le> 2 ^ 53 * ulp x"
proof -
  have "2 ^ 52 \<le> x / ulp x" and "x / ulp x \<le> 2 ^ 53"
    using ulp_bounds [of x] assms ulp_pos [of x] by (simp_all add: field_simps)
  then have "2 ^ 52 \<le> nearest_even (x / ulp x)" and "nearest_even (x / ulp x) \<le> 2 ^ 53"
    using nearest_even_mono [of "2 ^ 52" "x / ulp x"] nearest_even_mono [of "x / ulp x" "2 ^ 53"]
      nearest_even_of_int [of "2 ^ 52"] nearest_even_of_int [of "2 ^ 53"] by simp_all
  then have "2 ^ 52 \<le> real_of_int (nearest_even (x / ulp x))" and "real_of_int (nearest_even (x / ulp x)) \<le> 2 ^ 53"
    by (metis of_int_le_iff of_int_numeral of_int_power)+
  then show "2 ^ 52 * ulp x \<le> binary64 x" and "binary64 x \<le> 2 ^ 53 * ulp x"
    using assms ulp_pos [of x] by (simp_all add: binary64_def)
qed

lemma ulp_step:
  assumes "0 < x" and "x \<le> y" and "ulp x \<noteq> ulp y"
  shows "2 * ulp x \<le> ulp y"
proof -
  let ?k = "\<lfloor>log 2 x\<rfloor>" and ?l = "\<lfloor>log 2 y\<rfloor>"
  have "?k \<le> ?l" using assms by (intro floor_mono) simp
  moreover have "?k \<noteq> ?l" using assms by (auto simp: ulp_def)
  ultimately have "(2 :: real) powr (of_int ?k + 1 - 52) \<le> 2 powr (of_int ?l - 52)"
    by (intro powr_mono) linarith+
  then show ?thesis using assms by (simp add: ulp_def powr_add powr_diff)
qed

lemma binary64_mono_pos:
  assumes "0 < x" and "x \<le> y"
  shows "binary64 x \<le> binary64 y"
proof (cases "ulp x = ulp y")
  case True
  have "nearest_even (x / ulp y) \<le> nearest_even (y / ulp y)"
    using assms(2) ulp_pos [of y] by (intro nearest_even_mono divide_right_mono) simp_all
  then show ?thesis using True assms ulp_pos [of y] by (simp add: binary64_def)
next
  case False
  have "binary64 x \<le> 2 ^ 53 * ulp x" using binary64_binade(2) [OF assms(1)] .
  also have "\<dots> \<le> 2 ^ 52 * ulp y" using ulp_step [OF assms False] by simp
  also have "\<dots> \<le> binary64 y" using binary64_binade(1) [of y] assms by simp
  finally show ?thesis .
qed

lemma binary64_sign: "0 \<le> x \<Longrightarrow> 0 \<le> binary64 x"
  using binary64_binade(1) [of x] ulp_pos [of x] by (cases "x = 0") (auto simp: binary64_def)

lemma binary64_mono:
  assumes "x \<le> y"
  shows "binary64 x \<le> binary64 y"
proof -
  consider "0 < x" | "y < 0" | "x \<le> 0" "0 \<le> y" using assms by linarith
  then show ?thesis
  proof cases
    case 1
    then show ?thesis using assms by (rule binary64_mono_pos)
  next
    case 2
    then have "binary64 (- y) \<le> binary64 (- x)" using assms by (intro binary64_mono_pos) simp_all
    then show ?thesis by (simp add: binary64_minus)
  next
    case 3
    then show ?thesis using binary64_sign [of "- x"] binary64_sign [of y] by (simp add: binary64_minus)
  qed
qed

lemma binary64_int:
  assumes "\<bar>n\<bar> < 2 ^ 53"
  shows "binary64 (of_int n) = of_int n"
proof (cases "n = 0")
  case False
  let ?k = "\<lfloor>log 2 \<bar>of_int n :: real\<bar>\<rfloor>"
  have "1 \<le> \<bar>of_int n :: real\<bar>" using False by (simp add: abs_if)
  then have low: "0 \<le> ?k" by simp
  have "log 2 \<bar>of_int n :: real\<bar> < 53"
  proof -
    have "\<bar>of_int n :: real\<bar> < 2 powr 53" using assms by (simp add: powr_numeral)
    then show ?thesis using False by (subst log_less_iff) auto
  qed
  then have "?k \<le> 52" by linarith
  then obtain j where j: "?k = 52 - int j" by (metis zle_iff_zadd add_diff_cancel_right')
  then have "ulp (of_int n) = 1 / 2 ^ j"
    by (simp add: ulp_def powr_minus powr_realpow divide_inverse)
  then have "of_int n / ulp (of_int n) = of_int (n * 2 ^ j)" by simp
  then have "nearest_even (of_int n / ulp (of_int n)) = n * 2 ^ j" by (metis nearest_even_of_int)
  then show ?thesis
    using False \<open>ulp (of_int n) = 1 / 2 ^ j\<close> by (simp add: binary64_def)
qed (simp add: binary64_def)

interpretation binary64: ieee_rounding binary64
proof
  show "binary64 x \<le> binary64 y" if "x \<le> y" for x y using that by (rule binary64_mono)
  show "\<bar>binary64 x - x\<bar> \<le> \<bar>x\<bar> / 2 ^ 53" for x by (rule binary64_error)
  show "binary64 (of_int n) = of_int n" if "\<bar>n\<bar> < 2 ^ 53" for n using that by (rule binary64_int)
qed

end
