(* ===== verification/Bench_Sender.thy ===== *)
theory Bench_Sender
  imports Frame_Build Backend_Setup Doubles
begin

section \<open>The sender of falcon-bench (tx\_thread of bench/bench\_main.cpp)\<close>

text \<open>
  \<open>tx_thread\<close> enters a network namespace if there is one, opens a socket and sends timestamped
  datagrams, crafted frames with \<open>raw_tx\<close>, until the burst is complete, the time is over, a send
  fails or the receiver says stop. A \<open>tx_turn\<close> is what one turn of its loop meets: the stop flag,
  the timestamp, the value of \<open>sendto\<close> and the clock. The result has the calls, what was sent, the
  messages, whether the thread itself set the stop flag, and how it ended: \<open>Tx_fault\<close> is a write
  outside the send buffer, \<open>Tx_running\<close> a list of turns that ended before the loop.

  The lemmas show that the loop stays inside its buffer from a payload of eight bytes on, sends a
  complete burst, and that every path closes what it opened.
\<close>

record BenchCfg =
  c_port :: u16
  c_ifname :: string
  c_tx_netns :: string
  c_tx_iface :: string
  c_src_ip :: string
  c_dst_ip :: string
  c_payload_size :: u64
  c_seconds :: double
  c_burst :: u64
  c_window_sec :: double
  c_raw_tx :: bool

definition default_cfg :: BenchCfg where
  "default_cfg = \<lparr>c_port = 9100, c_ifname = ''lo'', c_tx_netns = '''', c_tx_iface = '''', c_src_ip = ''10.0.0.2'',
     c_dst_ip = ''10.0.0.1'', c_payload_size = 16, c_seconds = Fin 3, c_burst = 0, c_window_sec = Fin 1,
     c_raw_tx = False\<rparr>"

record tx_turn =
  x_stop :: bool
  x_ts :: u64
  x_written :: int
  x_now :: int

datatype tx_end = Tx_fault | Tx_running | Tx_done

record tx_result =
  r_sent :: "bytes list"
  r_count :: u64
  r_msgs :: "message list"
  r_end :: tx_end

text \<open>
  The loop both transports share: \<open>build\<close> writes the datagram with a timestamp into the buffer and
  returns its size, \<open>msg\<close> is the error message of a failed send. \<open>x_now\<close> counts from \<open>t0\<close>.
\<close>

fun tx_loop :: "rounding \<Rightarrow> (bytes \<Rightarrow> u64 \<Rightarrow> (bytes \<times> u64) option) \<Rightarrow> string \<Rightarrow> double \<Rightarrow> u64 \<Rightarrow> tx_turn list \<Rightarrow>
    bytes \<Rightarrow> u64 \<Rightarrow> tx_result" where
  "tx_loop rnd build msg seconds burst [] buf sent =
     \<lparr>r_sent = [], r_count = sent, r_msgs = [], r_end = Tx_running\<rparr>"
| "tx_loop rnd build msg seconds burst (t # ts) buf sent =
     (if x_stop t then \<lparr>r_sent = [], r_count = sent, r_msgs = [], r_end = Tx_done\<rparr>
      else (case build buf (x_ts t) of
              None \<Rightarrow> \<lparr>r_sent = [], r_count = sent, r_msgs = [], r_end = Tx_fault\<rparr>
            | Some (buf', frame_size) \<Rightarrow>
                if x_written t \<noteq> int (unat frame_size)
                then \<lparr>r_sent = [], r_count = sent, r_msgs = [Err msg], r_end = Tx_done\<rparr>
                else if burst > 0 \<and> sent + 1 \<ge> burst \<or> burst = 0 \<and> d_ge (d_seconds rnd (x_now t)) seconds
                then \<lparr>r_sent = [take (unat frame_size) buf'], r_count = sent + 1, r_msgs = [], r_end = Tx_done\<rparr>
                else (let r = tx_loop rnd build msg seconds burst ts buf' (sent + 1)
                      in r\<lparr>r_sent := take (unat frame_size) buf' # r_sent r\<rparr>)))"

text \<open>What the UDP sender puts into its buffer.\<close>

definition build_udp :: "u64 \<Rightarrow> bytes \<Rightarrow> u64 \<Rightarrow> (bytes \<times> u64) option" where
  "build_udp payload_size buf ts = do {
     buf \<leftarrow> store_bytes buf 0 (le_bytes 8 ts);
     buf \<leftarrow> store_bytes buf 8 (replicate (unat (payload_size - 8)) 0);
     Some (buf, of_nat (length buf))
   }"

text \<open>
  What the thread meets outside: the results of its calls. \<open>te_pton\<close> is \<open>inet_pton\<close>, \<open>te_garbage\<close>
  what the uninitialised address variables hold when the raw sender ignores its failure.
\<close>

record tx_env =
  te_open_netns :: int
  te_setns :: int
  te_raw_socket :: int
  te_nametoindex :: "string \<Rightarrow> int"
  te_udp_socket :: int
  te_bind_device :: int
  te_bind :: int
  te_pton :: "string \<Rightarrow> u32 option"
  te_garbage :: u32
  te_strerror :: string
  te_turns :: "tx_turn list"

definition tx_failed :: "string option \<Rightarrow> tx_result" where
  "tx_failed m = \<lparr>r_sent = [], r_count = 0, r_msgs = (case m of None \<Rightarrow> [] | Some e \<Rightarrow> [Err e]), r_end = Tx_done\<rparr>"

text \<open>The last steps of a sender whose loop ended: close the socket, print the count.\<close>

definition tx_finish :: "int \<Rightarrow> string \<Rightarrow> call list \<Rightarrow> tx_result \<Rightarrow> call list \<times> bool \<times> tx_result" where
  "tx_finish s what calls r =
     (if r_end r = Tx_done
      then (calls @ [Close_fd s], False,
            r\<lparr>r_msgs := r_msgs r @ [Out (''  transmitted: '' @ dec (unat (r_count r)) @ '' '' @ what)]\<rparr>)
      else (calls, False, r))"

definition tx_raw :: "rounding \<Rightarrow> tx_env \<Rightarrow> BenchCfg \<Rightarrow> call list \<times> bool \<times> tx_result" where
  "tx_raw rnd E conf =
     (let s = te_raw_socket E; pton = (\<lambda>a. case te_pton E a of None \<Rightarrow> te_garbage E | Some v \<Rightarrow> v)
      in if s < 0 then ([], True, tx_failed None)
         else if te_nametoindex E (c_tx_iface conf) = 0 then ([Open_fd s, Close_fd s], True, tx_failed None)
         else tx_finish s ''raw frames'' [Open_fd s]
           (tx_loop rnd
              (\<lambda>buf ts. build_frame buf (c_payload_size conf) ts (c_port conf) (pton (c_src_ip conf)) (pton (c_dst_ip conf)))
              (''raw send on '' @ c_tx_iface conf @ '' failed: '' @ te_strerror E)
              (c_seconds conf) (c_burst conf) (te_turns E)
              (replicate (unat (14 + 20 + 8 + c_payload_size conf)) 0) 0))"

definition tx_udp :: "rounding \<Rightarrow> tx_env \<Rightarrow> BenchCfg \<Rightarrow> call list \<times> bool \<times> tx_result" where
  "tx_udp rnd E conf =
     (let s = te_udp_socket E; iface = c_tx_iface conf; err = te_strerror E;
          fail = (\<lambda>m. ([Open_fd s, Close_fd s], True, tx_failed (Some m)))
      in if s < 0 then ([], True, tx_failed None)
         else if iface \<noteq> [] \<and> te_bind_device E < 0
         then fail (''bind UDP socket to '' @ iface @ '' failed: '' @ err)
         else if iface \<noteq> [] \<and> (te_pton E (c_src_ip conf) = None \<or> te_bind E < 0)
         then fail (''bind UDP source '' @ c_src_ip conf @ '' failed: '' @ err)
         else if te_pton E (if iface = [] then ''127.0.0.1'' else c_dst_ip conf) = None
         then fail (''invalid UDP destination: '' @ c_dst_ip conf)
         else tx_finish s ''UDP datagrams'' [Open_fd s]
           (tx_loop rnd (build_udp (c_payload_size conf))
              (''UDP send to '' @ c_dst_ip conf @ '':'' @ dec (unat (c_port conf)) @ '' failed: '' @ err)
              (c_seconds conf) (c_burst conf) (te_turns E) (replicate (unat (c_payload_size conf)) 0) 0))"

definition tx_thread :: "rounding \<Rightarrow> tx_env \<Rightarrow> BenchCfg \<Rightarrow> call list \<times> bool \<times> tx_result" where
  "tx_thread rnd E conf =
     (let n = te_open_netns E; send = (if c_raw_tx conf then tx_raw rnd E conf else tx_udp rnd E conf)
      in if c_tx_netns conf = [] then send
         else if n < 0 \<or> te_setns E < 0
         then (if n \<ge> 0 then [Open_fd n, Close_fd n] else [], True,
               tx_failed (Some (''enter network namespace '' @ c_tx_netns conf @ '' failed: '' @ te_strerror E)))
         else (case send of (calls, r) \<Rightarrow> ([Open_fd n, Close_fd n] @ calls, r)))"

subsection \<open>Inside the buffer\<close>

text \<open>From a buffer of the sender's length, \<open>build\<close> makes the datagram \<open>content ts\<close> of that length.\<close>

definition builds :: "nat \<Rightarrow> (u64 \<Rightarrow> bytes) \<Rightarrow> (bytes \<Rightarrow> u64 \<Rightarrow> (bytes \<times> u64) option) \<Rightarrow> bool" where
  "builds n content build =
     (\<forall>buf ts. length buf = n \<longrightarrow> build buf ts = Some (content ts, of_nat n) \<and> length (content ts) = n)"

definition udp_content :: "u64 \<Rightarrow> u64 \<Rightarrow> bytes" where
  "udp_content k ts = le_bytes 8 ts @ replicate (unat k - 8) 0"

lemma build_udp_builds:
  assumes "8 \<le> unat k"
  shows "builds (unat k) (udp_content k) (build_udp k)"
proof -
  have "unat (k - 8) = unat k - 8" using assms by (subst unat_sub) (simp_all add: word_le_nat_alt)
  with assms show ?thesis
    by (auto simp: builds_def build_udp_def store_bytes_def udp_content_def)
qed

lemma build_frame_builds:
  assumes "8 \<le> unat k"
  shows "builds (42 + unat k) (\<lambda>ts. built_frame k ts port src_ip dst_ip)
    (\<lambda>buf ts. build_frame buf k ts port src_ip dst_ip)"
  using build_frame_built [OF assms] length_built_frame [OF assms] by (simp add: builds_def)

lemma tx_loop_no_fault:
  "builds n content build \<Longrightarrow> length buf = n \<Longrightarrow> r_end (tx_loop rnd build msg seconds burst ts buf sent) \<noteq> Tx_fault"
proof (induction ts arbitrary: buf sent)
  case (Cons t ts)
  then have "build buf (x_ts t) = Some (content (x_ts t), of_nat n)" and "length (content (x_ts t)) = n"
    by (simp_all add: builds_def)
  then show ?case using Cons.IH [OF Cons.prems(1), of "content (x_ts t)"] by (simp add: Let_def)
qed simp

text \<open>Whatever is sent carries the timestamps of the first turns, in order.\<close>

lemma tx_loop_sends:
  assumes "builds n content build" and "n < 2 ^ 64" and "length buf = n"
  shows "\<exists>k. r_sent (tx_loop rnd build msg seconds burst ts buf sent) = map (\<lambda>t. content (x_ts t)) (take k ts)"
  using assms(3)
proof (induction ts arbitrary: buf sent)
  case (Cons t ts)
  then have build: "build buf (x_ts t) = Some (content (x_ts t), of_nat n)" and len: "length (content (x_ts t)) = n"
    using assms(1) by (simp_all add: builds_def)
  have size: "unat (of_nat n :: u64) = n" using assms(2) by (simp add: unat_of_nat)
  obtain k where "r_sent (tx_loop rnd build msg seconds burst ts (content (x_ts t)) (sent + 1)) =
      map (\<lambda>t. content (x_ts t)) (take k ts)"
    using Cons.IH [OF len] by blast
  then show ?case
    using build len size exI [of _ 0] exI [of _ 1] exI [of _ "Suc k"]
    by (auto simp: Let_def intro: exI [of _ 0] exI [of _ "Suc 0"] exI [of _ "Suc k"])
qed simp

text \<open>A burst is complete when no send fails and nobody says stop.\<close>

lemma tx_loop_burst:
  assumes "builds n content build" and "n < 2 ^ 64"
    and "\<forall>t \<in> set ts. \<not> x_stop t \<and> x_written t = int n"
    and "length ts + unat sent = unat burst" and "ts \<noteq> []" and "length buf = n"
  shows "tx_loop rnd build msg seconds burst ts buf sent =
      \<lparr>r_sent = map (\<lambda>t. content (x_ts t)) ts, r_count = burst, r_msgs = [], r_end = Tx_done\<rparr>"
  using assms(3-6)
proof (induction ts arbitrary: buf sent)
  case (Cons t ts)
  have build: "build buf (x_ts t) = Some (content (x_ts t), of_nat n)" and len: "length (content (x_ts t)) = n"
    using assms(1) Cons.prems(4) by (simp_all add: builds_def)
  have size: "unat (of_nat n :: u64) = n" using assms(2) by (simp add: unat_of_nat)
  then have uint: "uint (of_nat n :: u64) = int n" by (metis of_nat_unat)
  have written: "x_written t = int n" and run: "\<not> x_stop t" using Cons.prems(1) by simp_all
  have next1: "unat (sent + 1) = unat sent + 1"
    using Cons.prems(2) unat_less [of burst] by (subst unat_Suc_no_wrap) simp_all
  have burst: "0 < burst" using Cons.prems(2) by (auto simp: word_less_nat_alt)
  show ?case
  proof (cases "ts = []")
    case True
    then have "sent + 1 = burst" using Cons.prems(2) next1 by (simp add: word_unat_eq_iff)
    then show ?thesis using run build len size uint written True burst by auto
  next
    case False
    then have "\<not> burst \<le> sent + 1" using Cons.prems(2) next1 by (cases ts) (auto simp: word_le_nat_alt)
    moreover have "tx_loop rnd build msg seconds burst ts (content (x_ts t)) (sent + 1) =
        \<lparr>r_sent = map (\<lambda>t. content (x_ts t)) ts, r_count = burst, r_msgs = [], r_end = Tx_done\<rparr>"
      using Cons.IH [of "sent + 1" "content (x_ts t)"] Cons.prems False len next1 by auto
    ultimately show ?thesis using run build size uint len written burst by auto
  qed
qed simp

subsection \<open>Every path closes what it opened\<close>

lemma tx_finish_held:
  "tx_finish s what [Open_fd s] r = (calls, stop, r') \<Longrightarrow> r_end r' \<noteq> Tx_done \<or> held calls = {}"
  by (auto simp: tx_finish_def split: if_splits)

lemma tx_raw_held: "tx_raw rnd E conf = (calls, stop, r) \<Longrightarrow> r_end r \<noteq> Tx_done \<or> held calls = {}"
  unfolding tx_raw_def Let_def by (auto dest!: tx_finish_held split: if_splits)

lemma tx_udp_held: "tx_udp rnd E conf = (calls, stop, r) \<Longrightarrow> r_end r \<noteq> Tx_done \<or> held calls = {}"
  unfolding tx_udp_def Let_def by (auto dest!: tx_finish_held split: if_splits)

lemma tx_thread_held:
  assumes "tx_thread rnd E conf = (calls, stop, r)" and "r_end r = Tx_done"
  shows "held calls = {}"
proof -
  obtain calls0 stop0 r0 where send: "(if c_raw_tx conf then tx_raw rnd E conf else tx_udp rnd E conf) = (calls0, stop0, r0)"
    by (metis prod_cases3)
  then have "r_end r0 \<noteq> Tx_done \<or> held calls0 = {}"
    using tx_raw_held tx_udp_held by (metis (full_types))
  with assms send show ?thesis by (auto simp: tx_thread_def Let_def split: if_splits)
qed

subsection \<open>What the transports send\<close>

lemma tx_finish_result [simp]:
  "r_sent (snd (snd (tx_finish s what calls r))) = r_sent r" "r_end (snd (snd (tx_finish s what calls r))) = r_end r"
  by (simp_all add: tx_finish_def)

text \<open>A transport that does not even start its loop sends nothing.\<close>

lemma tx_failed_result [simp]: "r_sent (tx_failed m) = []" "r_end (tx_failed m) = Tx_done"
  by (simp_all add: tx_failed_def)

lemma tx_raw_sends:
  assumes "8 \<le> unat (c_payload_size c)" and "unat (c_payload_size c) < 2 ^ 32"
  shows "r_end (snd (snd (tx_raw rnd E c))) \<noteq> Tx_fault \<and>
    (\<exists>k src_ip dst_ip. r_sent (snd (snd (tx_raw rnd E c))) =
       map (\<lambda>t. built_frame (c_payload_size c) (x_ts t) (c_port c) src_ip dst_ip) (take k (te_turns E)))"
proof -
  let ?pton = "\<lambda>a. case te_pton E a of None \<Rightarrow> te_garbage E | Some v \<Rightarrow> v"
  note b = build_frame_builds [OF assms(1), of "c_port c" "?pton (c_src_ip c)" "?pton (c_dst_ip c)"]
  have small: "42 + unat (c_payload_size c) < 2 ^ 64" using assms(2) by simp
  then have len: "length (replicate (unat (14 + 20 + 8 + c_payload_size c)) (0 :: u8)) = 42 + unat (c_payload_size c)"
    by (simp add: unat_add_no_wrap)
  show ?thesis
    using tx_loop_no_fault [OF b len] tx_loop_sends [OF b small len] exI [of _ 0]
    unfolding tx_raw_def Let_def by (auto intro: exI [of _ 0] simp del: replicate_add length_replicate) blast+
qed

lemma tx_udp_sends:
  assumes "8 \<le> unat (c_payload_size c)"
  shows "r_end (snd (snd (tx_udp rnd E c))) \<noteq> Tx_fault \<and>
    (\<exists>k. r_sent (snd (snd (tx_udp rnd E c))) = map (\<lambda>t. udp_content (c_payload_size c) (x_ts t)) (take k (te_turns E)))"
proof -
  note b = build_udp_builds [OF assms]
  have len: "length (replicate (unat (c_payload_size c)) (0 :: u8)) = unat (c_payload_size c)" by simp
  have small: "unat (c_payload_size c) < 2 ^ 64" using unat_less [of "c_payload_size c"] by simp
  show ?thesis
    using tx_loop_no_fault [OF b len] tx_loop_sends [OF b small len]
    unfolding tx_udp_def Let_def by (auto intro: exI [of _ 0])
qed

lemma tx_thread_result:
  assumes "tx_thread rnd E c = (calls, stop, r)"
  shows "r = snd (snd (if c_raw_tx c then tx_raw rnd E c else tx_udp rnd E c)) \<or> r_sent r = [] \<and> r_end r = Tx_done"
proof -
  let ?send = "if c_raw_tx c then tx_raw rnd E c else tx_udp rnd E c"
  have "snd (snd (tx_thread rnd E c)) = snd (snd ?send) \<or>
      (\<exists>m. snd (snd (tx_thread rnd E c)) = tx_failed m)"
    unfolding tx_thread_def Let_def by (auto simp: case_prod_beta)
  with assms show ?thesis by auto
qed

text \<open>What a thread has sent, whatever happened: well-formed datagrams with its first turns' timestamps.\<close>

lemma tx_thread_sends:
  assumes "8 \<le> unat (c_payload_size c)" and "unat (c_payload_size c) < 2 ^ 32"
    and "tx_thread rnd E c = (calls, stop, r)"
  shows "r_end r \<noteq> Tx_fault \<and> (\<exists>k src_ip dst_ip. r_sent r = map (\<lambda>t.
    if c_raw_tx c then built_frame (c_payload_size c) (x_ts t) (c_port c) src_ip dst_ip
    else udp_content (c_payload_size c) (x_ts t)) (take k (te_turns E)))"
  using tx_thread_result [OF assms(3)] tx_raw_sends [OF assms(1,2), of rnd E] tx_udp_sends [OF assms(1), of rnd E]
  by (cases "c_raw_tx c") (auto intro: exI [of _ 0])

lemma udp_content_ts: "frame_ts kL4Payload (udp_content k ts) l = Some ts"
  using load64_at [of "[]" 0 ts] by (simp add: frame_ts_def udp_content_def)

end
