(* ===== verification/Rx_Bench.thy ===== *)
theory Rx_Bench
  imports Backend_Setup Doubles
begin

section \<open>The throughput benchmark (bench/rx\_bench.cpp)\<close>

text \<open>
  \<open>falcon-rxbench\<close> receives batches of up to 2048 frames from a backend, from the first frame on
  for a number of seconds or a number of packets, and prints rates once a second and at the end.
  The loop is written once for every backend, as the template \<open>run\<close> is: \<open>recv\<close> and \<open>kdrops\<close>
  are the backend's \<open>recv\<close> and \<open>kernelDrops\<close>. A \<open>turn\<close> of the loop is what the kernel does
  during its \<open>recv\<close> and the two clock readings it may take; a list of turns that ends before the
  loop does leaves it running, outcome \<open>None\<close>.

  The lemmas show that what the loop reports are the backend's own counters, whatever the
  backend, by the contract \<open>packet_io\<close>; when the loop ends, and when it does not.
\<close>

definition kBatchSize :: nat where "kBatchSize = 2048"

record 'w turn =
  t_kernel :: 'w
  t_first :: int
  t_now :: int

record floats =
  f_rnd :: rounding
  f_show :: printf_f

record rx_counts =
  rx_packets :: u64
  rx_bytes :: u64
  window_packets :: u64
  window_bytes :: u64
  rx_started :: bool
  rx_start :: int
  rx_window_start :: int

type_synonym ('w, 'st) receiver = "'w \<Rightarrow> nat \<Rightarrow> 'st \<Rightarrow> string + Frame list \<times> 'st"

definition rx_init :: rx_counts where
  "rx_init = \<lparr>rx_packets = 0, rx_bytes = 0, window_packets = 0, window_bytes = 0, rx_started = False,
     rx_start = 0, rx_window_start = 0\<rparr>"

definition rx_begin :: "Frame list \<Rightarrow> int \<Rightarrow> rx_counts \<Rightarrow> rx_counts" where
  "rx_begin fs t s =
     (if fs \<noteq> [] \<and> \<not> rx_started s then s\<lparr>rx_started := True, rx_start := t, rx_window_start := t\<rparr> else s)"

definition rx_count :: "Frame list \<Rightarrow> rx_counts \<Rightarrow> rx_counts" where
  "rx_count fs s =
     s\<lparr>rx_packets := rx_packets s + of_nat (length fs), window_packets := window_packets s + of_nat (length fs),
       rx_bytes := rx_bytes s + sum_list (map len fs), window_bytes := window_bytes s + sum_list (map len fs)\<rparr>"

text \<open>\<open>bytes * 8.0 / seconds / 1e9\<close>.\<close>

definition gbit_s :: "rounding \<Rightarrow> u64 \<Rightarrow> double \<Rightarrow> double" where
  "gbit_s rnd b secs = d_div rnd (d_div rnd (d_mul rnd (d_of_u64 rnd b) (Fin 8)) secs) (Fin 1000000000)"

definition rx_window :: "floats \<Rightarrow> int \<Rightarrow> rx_counts \<Rightarrow> message list \<times> rx_counts" where
  "rx_window F now s =
     (let window_seconds = d_seconds (f_rnd F) (now - rx_window_start s)
      in if d_ge window_seconds (Fin 1)
         then ([Out (f_show F 3 (d_seconds (f_rnd F) (now - rx_start s)) @ '','' @
                     f_show F 0 (d_div (f_rnd F) (d_of_u64 (f_rnd F) (window_packets s)) window_seconds) @ '','' @
                     f_show F 3 (gbit_s (f_rnd F) (window_bytes s) window_seconds))],
               s\<lparr>window_packets := 0, window_bytes := 0, rx_window_start := now\<rparr>)
         else ([], s))"

definition rx_done :: "floats \<Rightarrow> double \<Rightarrow> u64 \<Rightarrow> int \<Rightarrow> rx_counts \<Rightarrow> bool" where
  "rx_done F seconds expected now s =
     (expected \<noteq> 0 \<and> rx_packets s \<ge> expected \<or> d_ge (d_seconds (f_rnd F) (now - rx_start s)) seconds)"

definition lost_packets :: "u64 \<Rightarrow> u64 \<Rightarrow> u64" where
  "lost_packets expected n = (if expected > n then expected - n else 0)"

definition rx_report :: "floats \<Rightarrow> u64 \<Rightarrow> int \<Rightarrow> u64 \<Rightarrow> rx_counts \<Rightarrow> message list" where
  "rx_report F expected now kernel_drops s =
     (let elapsed = d_seconds (f_rnd F) (now - rx_start s); u = (\<lambda>w. dec (unat (w :: u64)))
      in [Out (''total,'' @ f_show F 0 (d_div (f_rnd F) (d_of_u64 (f_rnd F) (rx_packets s)) elapsed) @ '','' @
               f_show F 3 (gbit_s (f_rnd F) (rx_bytes s) elapsed)),
          Out (''packets,'' @ u (rx_packets s)), Out (''bytes,'' @ u (rx_bytes s)),
          Out (''kernel_drops,'' @ u kernel_drops)] @
         (if expected \<noteq> 0
          then [Out (''offered_packets,'' @ u expected), Out (''lost_packets,'' @ u (lost_packets expected (rx_packets s)))]
          else []))"

fun rx_loop :: "floats \<Rightarrow> ('w, 'st) receiver \<Rightarrow> ('st \<Rightarrow> string + u64) \<Rightarrow> double \<Rightarrow> u64 \<Rightarrow> 'w turn list \<Rightarrow>
    'st \<Rightarrow> rx_counts \<Rightarrow> message list \<times> (string + rx_counts \<times> 'st) option" where
  "rx_loop F recv kdrops seconds expected [] st s = ([], None)"
| "rx_loop F recv kdrops seconds expected (turn # turns) st s =
     (case recv (t_kernel turn) kBatchSize st of
        Inl e \<Rightarrow> ([], Some (Inl e))
      | Inr (fs, st') \<Rightarrow>
          (let s1 = rx_begin fs (t_first turn) s
           in if \<not> rx_started s1 then rx_loop F recv kdrops seconds expected turns st' s1
              else (case rx_window F (t_now turn) (rx_count fs s1) of
                      (msgs, s2) \<Rightarrow>
                        if rx_done F seconds expected (t_now turn) s2 then
                          (case kdrops st' of
                             Inl e \<Rightarrow> (msgs, Some (Inl e))
                           | Inr d \<Rightarrow> (msgs @ rx_report F expected (t_now turn) d s2, Some (Inr (s2, st'))))
                        else (case rx_loop F recv kdrops seconds expected turns st' s2 of
                                (msgs', r) \<Rightarrow> (msgs @ msgs', r)))))"

text \<open>
  \<open>run\<close>: the constructor, the loop, the destructor (also when the loop throws). The result is
  the calls of the backend's life, the output and the outcome.
\<close>

definition rx_run :: "floats \<Rightarrow> call list \<times> (string + 'obj) \<Rightarrow> ('obj \<Rightarrow> 'st) \<Rightarrow> ('obj \<Rightarrow> call list) \<Rightarrow>
    ('w, 'st) receiver \<Rightarrow> ('st \<Rightarrow> string + u64) \<Rightarrow> double \<Rightarrow> u64 \<Rightarrow> 'w turn list \<Rightarrow>
    call list \<times> message list \<times> (string + rx_counts \<times> 'st) option" where
  "rx_run F made state destroy recv kdrops seconds expected turns =
     (case made of
        (calls, Inl e) \<Rightarrow> (calls, [], Some (Inl e))
      | (calls, Inr b) \<Rightarrow>
          (case rx_loop F recv kdrops seconds expected turns (state b) rx_init of
             (msgs, None) \<Rightarrow> (calls, msgs, None)
           | (msgs, Some r) \<Rightarrow> (calls @ destroy b, msgs, Some r)))"

text \<open>What the process meets: the environment of each backend and its turns.\<close>

record ('p, 'c) bench_host =
  bh_atof :: "string \<Rightarrow> double"
  bh_floats :: floats
  bh_socket :: socket_env
  bh_socket_turns :: "socket_world turn list"
  bh_packet :: packet_env
  bh_packet_turns :: "waits turn list"
  bh_packet_stats :: "string + u32"
  bh_xsk :: "('p, 'c) xsk_ops"
  bh_xdp :: "('p, 'c) xdp_env"
  bh_xdp_turns :: "(int \<times> ('p \<times> 'c \<Rightarrow> 'p \<times> 'c)) turn list"
  bh_xdp_stats :: "string + u64 \<times> u64"

definition run_socket :: "('p, 'c) bench_host \<Rightarrow> string \<Rightarrow> double \<Rightarrow> u64 \<Rightarrow>
    call list \<times> message list \<times> (string + rx_counts \<times> socket_backend) option" where
  "run_socket H target seconds expected =
     rx_run (bh_floats H) (SocketBackend (bh_socket H) (ucast (strtoul target))) so_backend destroy_socket
       socket_recv (\<lambda>_. Inr 0) seconds expected (bh_socket_turns H)"

definition run_packet :: "('p, 'c) bench_host \<Rightarrow> string \<Rightarrow> double \<Rightarrow> u64 \<Rightarrow>
    call list \<times> message list \<times> (string + rx_counts \<times> af_packet) option" where
  "run_packet H target seconds expected =
     rx_run (bh_floats H) (AfPacketBackend (bh_packet H) target) po_backend destroy_packet
       ap_recv (\<lambda>_. packet_kernel_drops (bh_packet_stats H)) seconds expected (bh_packet_turns H)"

definition run_xdp :: "('p, 'c) bench_host \<Rightarrow> AfXdpMode \<Rightarrow> string \<Rightarrow> double \<Rightarrow> u64 \<Rightarrow>
    call list \<times> message list \<times> (string + rx_counts \<times> ('p, 'c) af_xdp) option" where
  "run_xdp H mode target seconds expected =
     rx_run (bh_floats H) (AfXdpBackend (bh_xsk H) (bh_xdp H) target mode False 0) xo_backend destroy_xdp
       (xdp_recv (bh_xsk H)) (\<lambda>_. xdp_kernel_drops (bh_xdp_stats H)) seconds expected (bh_xdp_turns H)"

subsection \<open>main\<close>

definition rx_usage :: "message list" where
  "rx_usage = map Err
     [''usage: falcon-rxbench socket <port> <seconds>'',
      ''       falcon-rxbench packet <interface> <seconds>'',
      ''       falcon-rxbench xdp <interface> <seconds>'',
      ''       falcon-rxbench xdp-zc <interface> <seconds>'',
      ''       append [expected_packets] for a controlled finite run'']"

text \<open>The \<open>try\<close> block around a run: its exit code and what it prints.\<close>

definition caught :: "string \<Rightarrow> call list \<times> message list \<times> (string + 'r) option \<Rightarrow>
    call list \<times> message list \<times> int option" where
  "caught prog r =
     (case r of
        (calls, msgs, None) \<Rightarrow> (calls, msgs, None)
      | (calls, msgs, Some (Inl e)) \<Rightarrow> (calls, msgs @ [Err (prog @ '': '' @ e)], Some 1)
      | (calls, msgs, Some (Inr _)) \<Rightarrow> (calls, msgs, Some 0))"

definition rx_main :: "('p, 'c) bench_host \<Rightarrow> string list \<Rightarrow> call list \<times> message list \<times> int option" where
  "rx_main H argv =
     (if length argv \<noteq> 4 \<and> length argv \<noteq> 5 then ([], rx_usage, Some 1)
      else
        (let backend = argv ! 1; target = argv ! 2; seconds = bh_atof H (argv ! 3);
             expected = (if length argv = 5 then strtoull (argv ! 4) else 0);
             header = (\<lambda>(calls, msgs, r). (calls, Out ''elapsed_s,pps,gbit_s'' # msgs, r))
         in if d_ge (Fin 0) seconds then ([], [Err ''seconds must be positive''], Some 1)
            else if backend = ''socket'' then header (caught ''falcon-rxbench'' (run_socket H target seconds expected))
            else if backend = ''packet'' then header (caught ''falcon-rxbench'' (run_packet H target seconds expected))
            else if backend = ''xdp'' then header (caught ''falcon-rxbench'' (run_xdp H kCopy target seconds expected))
            else if backend = ''xdp-zc''
            then header (caught ''falcon-rxbench'' (run_xdp H kZeroCopy target seconds expected))
            else header ([], [Err (''unknown backend: '' @ backend)], Some 1)))"

subsection \<open>Ends\<close>

text \<open>Counting and printing a window leave the start of the run alone.\<close>

lemma rx_window_state:
  "rx_window F now s = (msgs, s') \<Longrightarrow>
     rx_packets s' = rx_packets s \<and> rx_bytes s' = rx_bytes s \<and> rx_started s' = rx_started s \<and> rx_start s' = rx_start s"
  by (auto simp: rx_window_def Let_def split: if_splits)

lemma rx_begin_started: "rx_started s \<Longrightarrow> rx_begin fs t s = s"
  by (simp add: rx_begin_def)

lemma rx_count_state [simp]:
  "rx_started (rx_count fs s) = rx_started s" "rx_start (rx_count fs s) = rx_start s"
  by (simp_all add: rx_count_def)

text \<open>Once a frame has arrived, the run ends at the latest when the clock shows its duration.\<close>

lemma rx_loop_ends:
  assumes "rx_started s" and "\<exists>turn \<in> set turns. d_ge (d_seconds (f_rnd F) (t_now turn - rx_start s)) seconds"
  shows "snd (rx_loop F recv kdrops seconds expected turns st s) \<noteq> None"
  using assms
proof (induction turns arbitrary: st s)
  case (Cons turn turns)
  show ?case
  proof (cases "recv (t_kernel turn) kBatchSize st")
    case (Inr r)
    obtain fs st' where r: "r = (fs, st')" by fastforce
    obtain msgs s2 where w: "rx_window F (t_now turn) (rx_count fs s) = (msgs, s2)" by fastforce
    have s2: "rx_started s2" "rx_start s2 = rx_start s" using rx_window_state [OF w] Cons.prems(1) by simp_all
    show ?thesis
    proof (cases "rx_done F seconds expected (t_now turn) s2")
      case True
      then show ?thesis using Inr r w Cons.prems(1) by (simp add: rx_begin_started split: sum.split)
    next
      case False
      then have "\<exists>turn \<in> set turns. d_ge (d_seconds (f_rnd F) (t_now turn - rx_start s2)) seconds"
        using Cons.prems(2) s2(2) by (auto simp: rx_done_def)
      then show ?thesis
        using Cons.IH [OF s2(1), of st'] False Inr r w Cons.prems(1)
        by (simp add: rx_begin_started case_prod_beta)
    qed
  qed simp
qed simp

text \<open>Without a frame it never does, whatever the clock shows.\<close>

lemma rx_loop_waits:
  assumes "\<not> rx_started s" and "\<forall>turn \<in> set turns. \<forall>st. \<exists>st'. recv (t_kernel turn) kBatchSize st = Inr ([], st')"
  shows "rx_loop F recv kdrops seconds expected turns st s = ([], None)"
  using assms
proof (induction turns arbitrary: st)
  case (Cons turn turns)
  then obtain st' where "recv (t_kernel turn) kBatchSize st = Inr ([], st')" by (meson list.set_intros(1))
  with Cons show ?case by (simp add: rx_begin_def)
qed simp

subsection \<open>Totals\<close>

text \<open>One turn of a loop that returns: what it makes of the batch it received.\<close>

lemma rx_loop_turn:
  assumes "rx_loop F recv kdrops seconds expected (turn # turns) st s = (msgs, Some (Inr (s', st')))"
  obtains fs st1 s1 where "recv (t_kernel turn) kBatchSize st = Inr (fs, st1)"
    and "rx_packets s1 = rx_packets s + of_nat (length fs)" and "rx_bytes s1 = rx_bytes s + sum_list (map len fs)"
    and "(\<exists>d pre. s' = s1 \<and> st' = st1 \<and> msgs = pre @ rx_report F expected (t_now turn) d s1 \<and>
            kdrops st1 = Inr d \<and> rx_done F seconds expected (t_now turn) s1) \<or>
         (\<exists>pre msgs1. msgs = pre @ msgs1 \<and> rx_loop F recv kdrops seconds expected turns st1 s1 = (msgs1, Some (Inr (s', st'))))"
proof -
  obtain fs st1 where recv: "recv (t_kernel turn) kBatchSize st = Inr (fs, st1)"
    using assms by (auto split: sum.splits)
  let ?s0 = "rx_begin fs (t_first turn) s"
  have s0: "rx_packets ?s0 = rx_packets s" "rx_bytes ?s0 = rx_bytes s" by (simp_all add: rx_begin_def)
  show thesis
  proof (cases "rx_started ?s0")
    case False
    then have "fs = []" by (auto simp: rx_begin_def split: if_splits)
    then show thesis using that [OF recv, of ?s0] assms recv False s0 by auto
  next
    case True
    obtain pre s1 where w: "rx_window F (t_now turn) (rx_count fs ?s0) = (pre, s1)" by fastforce
    have "rx_packets s1 = rx_packets s + of_nat (length fs)" "rx_bytes s1 = rx_bytes s + sum_list (map len fs)"
      using rx_window_state [OF w] s0 by (simp_all add: rx_count_def)
    then show thesis
      using that [OF recv, of s1] assms recv True w
      by (auto split: if_splits sum.splits prod.splits)
  qed
qed

text \<open>The report at the end is about the counts at the end, which meet the run's condition.\<close>

lemma rx_loop_report:
  "rx_loop F recv kdrops seconds expected turns st s = (msgs, Some (Inr (s', st'))) \<Longrightarrow>
     \<exists>pre turn d. turn \<in> set turns \<and> msgs = pre @ rx_report F expected (t_now turn) d s' \<and> kdrops st' = Inr d \<and>
       rx_done F seconds expected (t_now turn) s'"
proof (induction turns arbitrary: st s msgs)
  case (Cons turn turns)
  from Cons.prems show ?case
  proof (rule rx_loop_turn)
    fix fs st1 s1
    assume "(\<exists>d pre. s' = s1 \<and> st' = st1 \<and> msgs = pre @ rx_report F expected (t_now turn) d s1 \<and>
        kdrops st1 = Inr d \<and> rx_done F seconds expected (t_now turn) s1) \<or>
      (\<exists>pre msgs1. msgs = pre @ msgs1 \<and> rx_loop F recv kdrops seconds expected turns st1 s1 = (msgs1, Some (Inr (s', st'))))"
    then show ?thesis
    proof (elim disjE exE conjE)
      fix pre msgs1
      assume msgs: "msgs = pre @ msgs1"
        and "rx_loop F recv kdrops seconds expected turns st1 s1 = (msgs1, Some (Inr (s', st')))"
      from Cons.IH [OF this(2)] show ?thesis unfolding msgs by (metis append_assoc list.set_intros(2))
    qed auto
  qed
qed simp

context packet_io
begin

text \<open>What the loop has counted differs from the backend's counters by a constant.\<close>

lemma rx_loop_totals:
  "rx_loop F recv kdrops seconds expected turns st s = (msgs, Some (Inr (s', st'))) \<Longrightarrow>
     all_ok (map t_kernel turns) kBatchSize st \<Longrightarrow>
     rx_packets s' - packets (stats st') = rx_packets s - packets (stats st) \<and>
     rx_bytes s' - bytes (stats st') = rx_bytes s - bytes (stats st)"
proof (induction turns arbitrary: st s msgs)
  case (Cons turn turns)
  from Cons.prems(1) show ?case
  proof (rule rx_loop_turn)
    fix fs st1 s1
    assume recv: "recv (t_kernel turn) kBatchSize st = Inr (fs, st1)"
      and counts: "rx_packets s1 = rx_packets s + of_nat (length fs)" "rx_bytes s1 = rx_bytes s + sum_list (map len fs)"
      and rest: "(\<exists>d pre. s' = s1 \<and> st' = st1 \<and> msgs = pre @ rx_report F expected (t_now turn) d s1 \<and>
          kdrops st1 = Inr d \<and> rx_done F seconds expected (t_now turn) s1) \<or>
        (\<exists>pre msgs1. msgs = pre @ msgs1 \<and> rx_loop F recv kdrops seconds expected turns st1 s1 = (msgs1, Some (Inr (s', st'))))"
    have ok: "ok (t_kernel turn) kBatchSize st" "all_ok (map t_kernel turns) kBatchSize st1"
      using Cons.prems(2) recv by simp_all
    have "rx_packets s1 - packets (stats st1) = rx_packets s - packets (stats st)"
      and "rx_bytes s1 - bytes (stats st1) = rx_bytes s - bytes (stats st)"
      using recv_counts [OF ok(1) recv] counts by (simp_all add: count_frames_def)
    then show ?thesis using rest Cons.IH [OF _ ok(2)] by auto
  qed
qed simp

lemma rx_run_totals:
  assumes "rx_run F made state destroy recv kdrops seconds expected turns = (calls, msgs, Some (Inr (s, st)))"
    and "\<And>calls b. made = (calls, Inr b) \<Longrightarrow> stats (state b) = no_stats \<and> all_ok (map t_kernel turns) kBatchSize (state b)"
  shows "rx_packets s = packets (stats st) \<and> rx_bytes s = bytes (stats st)"
proof -
  obtain calls0 b where made: "made = (calls0, Inr b)"
    and loop: "rx_loop F recv kdrops seconds expected turns (state b) rx_init = (msgs, Some (Inr (s, st)))"
    using assms(1) by (auto simp: rx_run_def split: prod.splits sum.splits option.splits)
  show ?thesis
    using rx_loop_totals [OF loop] assms(2) [OF made] by (simp add: no_stats_def rx_init_def)
qed

end

text \<open>A run that returns has destroyed its backend and ends with its report.\<close>

lemma rx_run_returns:
  assumes "rx_run F made state destroy recv kdrops seconds expected turns = (calls, msgs, Some (Inr (s, st)))"
  obtains calls0 b pre now d where "made = (calls0, Inr b)" and "calls = calls0 @ destroy b"
    and "msgs = pre @ rx_report F expected now d s" and "kdrops st = Inr d" and "rx_done F seconds expected now s"
proof -
  obtain calls0 b where made: "made = (calls0, Inr b)" and calls: "calls = calls0 @ destroy b"
    and loop: "rx_loop F recv kdrops seconds expected turns (state b) rx_init = (msgs, Some (Inr (s, st)))"
    using assms by (auto simp: rx_run_def split: prod.splits sum.splits option.splits)
  from rx_loop_report [OF loop] made calls that show thesis by blast
qed

text \<open>The contract is kept by every turn of a backend that asks nothing of the kernel.\<close>

lemma all_ok_True: "packet_io recv stats (\<lambda>_ _ _. True) \<Longrightarrow> packet_io.all_ok recv (\<lambda>_ _ _. True) ws cap st"
proof (induction ws arbitrary: st)
  case (Cons w ws)
  then show ?case by (simp add: packet_io.all_ok.simps split: sum.split)
qed (simp add: packet_io.all_ok.simps)

text \<open>The socket's contract asks that \<open>recvmmsg\<close> returns at most the 64 messages it was asked for.\<close>

lemma socket_all_ok:
  "\<forall>turn \<in> set turns. batches_ok 64 (mmsgs (t_kernel turn)) \<Longrightarrow>
     socket_io.all_ok (map t_kernel turns) kBatchSize b"
  by (induction turns arbitrary: b)
    (auto simp: socket_ok_def kBATCH_def kBatchSize_def split: sum.split)

end
