(* ===== verification/Bench_Receiver.thy ===== *)
theory Bench_Receiver
  imports Bench_Sender Rx_Bench
begin

section \<open>The receiver of falcon-bench (run\_bench of bench/bench\_main.cpp)\<close>

text \<open>
  \<open>run_bench\<close> starts the sender, receives batches of up to 64 frames, computes the latency of every
  frame that carries a timestamp, and at the end sorts the latencies and reads the median and the
  99th percentile. A turn of the loop is what the kernel does in \<open>recv\<close>, the bytes of the frames,
  and the clock: \<open>b_clock i\<close> is read after frame \<open>i\<close>. A read outside a frame, an index outside the
  latencies and a conversion that does not fit are the fault \<open>B_fault\<close>.

  The lemmas show that the percentiles' indices are inside the latencies, for any number of
  them, although the second is computed in floating point, and how the percentiles rank.
\<close>

record 'w bench_turn = "'w turn" +
  b_memory :: "Frame \<Rightarrow> bytes"
  b_clock :: "nat \<Rightarrow> u64"

record BenchResult =
  br_packets :: u64
  br_bytes :: u64
  br_seconds :: double
  br_pps :: double
  br_p50 :: double
  br_p99 :: double
  br_cpu_pct :: double

record bench_counts =
  latencies :: "u64 list"
  bc_packets :: u64
  bc_bytes :: u64
  win_packets :: u64
  win_start :: int

datatype 'a bench_end = B_fault | B_running | B_throws string | B_done 'a

text \<open>The latencies of a batch, from its frame \<open>i\<close> on.\<close>

fun batch_latencies :: "FrameLayer \<Rightarrow> (Frame \<Rightarrow> bytes) \<Rightarrow> (nat \<Rightarrow> u64) \<Rightarrow> nat \<Rightarrow> Frame list \<Rightarrow> u64 list option" where
  "batch_latencies layer mem clock i [] = Some []"
| "batch_latencies layer mem clock i (f # fs) = do {
     ts \<leftarrow> frame_ts layer (mem f) (len f);
     ls \<leftarrow> batch_latencies layer mem clock (Suc i) fs;
     Some (if ts \<noteq> 0 then (clock i - ts) # ls else ls)
   }"

definition pad :: "nat \<Rightarrow> string \<Rightarrow> string" where
  "pad n s = replicate (n - length s) (CHR '' '') @ s"

definition bench_count :: "u64 list \<Rightarrow> Frame list \<Rightarrow> bench_counts \<Rightarrow> bench_counts" where
  "bench_count ls fs s =
     s\<lparr>latencies := latencies s @ ls, bc_bytes := bc_bytes s + sum_list (map len fs),
       bc_packets := bc_packets s + of_nat (length fs), win_packets := win_packets s + of_nat (length fs)\<rparr>"

definition bench_window :: "floats \<Rightarrow> double \<Rightarrow> int \<Rightarrow> int \<Rightarrow> bench_counts \<Rightarrow> (message list \<times> bench_counts) option" where
  "bench_window F window_sec t0 now s =
     (let rnd = f_rnd F; win_elapsed = d_seconds rnd (now - win_start s)
      in if d_ge win_elapsed window_sec then do {
           pps \<leftarrow> d_to_u64 (d_div rnd (d_of_u64 rnd (win_packets s)) win_elapsed);
           Some ([Out (''  window '' @ pad 5 (f_show F 1 (d_seconds rnd (now - t0))) @ ''s: '' @ pad 8 (dec (unat pps)) @
                    '' pps | total '' @ dec (unat (bc_packets s)) @ '' pkts '' @ dec (unat (bc_bytes s)) @ '' B'')],
                 s\<lparr>win_packets := 0, win_start := now\<rparr>)
         } else Some ([], s))"

fun bench_loop :: "floats \<Rightarrow> FrameLayer \<Rightarrow> BenchCfg \<Rightarrow> int \<Rightarrow> ('w, 'st) receiver \<Rightarrow> 'w bench_turn list \<Rightarrow> 'st \<Rightarrow>
    bench_counts \<Rightarrow> message list \<times> bench_counts bench_end" where
  "bench_loop F layer conf t0 recv [] st s = ([], B_running)"
| "bench_loop F layer conf t0 recv (turn # turns) st s =
     (case recv (t_kernel turn) 64 st of
        Inl e \<Rightarrow> ([], B_throws e)
      | Inr (fs, st') \<Rightarrow>
          (case batch_latencies layer (b_memory turn) (b_clock turn) 0 fs of
             None \<Rightarrow> ([], B_fault)
           | Some ls \<Rightarrow>
               (case bench_window F (c_window_sec conf) t0 (t_now turn) (bench_count ls fs s) of
                  None \<Rightarrow> ([], B_fault)
                | Some (msgs, s') \<Rightarrow>
                    if d_ge (d_seconds (f_rnd F) (t_now turn - t0)) (c_seconds conf) \<or>
                       c_burst conf > 0 \<and> of_nat (length (latencies s')) \<ge> c_burst conf
                    then (msgs, B_done s')
                    else (case bench_loop F layer conf t0 recv turns st' s' of (msgs', r) \<Rightarrow> (msgs @ msgs', r)))))"

definition thread_cpu_ns :: "rounding \<Rightarrow> int \<times> int \<Rightarrow> double" where
  "thread_cpu_ns rnd ts =
     (case ts of (tv_sec, tv_nsec) \<Rightarrow>
        d_add rnd (d_mul rnd (d_of_int rnd tv_sec) (Fin 1000000000)) (d_of_int rnd tv_nsec))"

definition p50_index :: "nat \<Rightarrow> nat" where "p50_index n = n div 2"

definition p99_index :: "rounding \<Rightarrow> nat \<Rightarrow> u64 option" where
  "p99_index rnd n = d_to_u64 (d_mul rnd (d_of_u64 rnd (of_nat n)) (Fin (rnd (99 / 100))))"

definition percentiles :: "rounding \<Rightarrow> u64 list \<Rightarrow> (u64 \<times> u64) option" where
  "percentiles rnd ls =
     (let v = sort ls; elem = (\<lambda>i. if i < length v then Some (v ! i) else None)
      in do {
        p50 \<leftarrow> elem (p50_index (length v));
        i99 \<leftarrow> p99_index rnd (length v);
        p99 \<leftarrow> elem (unat i99);
        Some (p50, p99)
      })"

text \<open>The numbers of the result: \<open>t0\<close> and \<open>t1\<close> are the clock, \<open>cpu0\<close> and \<open>cpu1\<close> the thread's times.\<close>

definition bench_result :: "rounding \<Rightarrow> int \<Rightarrow> int \<Rightarrow> int \<times> int \<Rightarrow> int \<times> int \<Rightarrow> bench_counts \<Rightarrow> BenchResult option" where
  "bench_result rnd t0 t1 cpu0 cpu1 s =
     (let secs = d_seconds rnd (t1 - t0);
          r = \<lparr>br_packets = bc_packets s, br_bytes = bc_bytes s, br_seconds = secs,
               br_pps = d_div rnd (d_of_u64 rnd (bc_packets s)) secs, br_p50 = Fin 0, br_p99 = Fin 0,
               br_cpu_pct = d_mul rnd (d_div rnd (d_sub rnd (thread_cpu_ns rnd cpu1) (thread_cpu_ns rnd cpu0))
                 (d_mul rnd secs (Fin 1000000000))) (Fin 100)\<rparr>
      in if latencies s = [] then Some r
         else do {
           (p50, p99) \<leftarrow> percentiles rnd (latencies s);
           Some (r\<lparr>br_p50 := d_of_u64 rnd p50, br_p99 := d_of_u64 rnd p99\<rparr>)
         })"

text \<open>
  The sender as the receiver sees it: a thread, a process whose exit status it checks, or none;
  \<open>fork\<close> may fail. No caller catches the exceptions of \<open>run_bench\<close>: they end the process
  without unwinding, so that the destructor does not run.
\<close>

record bench_times =
  bt_t0 :: int
  bt_t1 :: int
  bt_cpu0 :: "int \<times> int"
  bt_cpu1 :: "int \<times> int"
  bt_fork :: int
  bt_tx_exit_ok :: bool
  bt_strerror :: string

definition run_bench :: "floats \<Rightarrow> FrameLayer \<Rightarrow> bench_times \<Rightarrow> BenchCfg \<Rightarrow> bool \<Rightarrow> call list \<times> (string + 'obj) \<Rightarrow>
    ('obj \<Rightarrow> 'st) \<Rightarrow> ('obj \<Rightarrow> call list) \<Rightarrow> ('w, 'st) receiver \<Rightarrow> 'w bench_turn list \<Rightarrow>
    call list \<times> message list \<times> BenchResult bench_end" where
  "run_bench F layer T conf start_sender made state destroy recv turns =
     (case made of
        (calls, Inl e) \<Rightarrow> (calls, [], B_throws e)
      | (calls, Inr b) \<Rightarrow>
          (let forked = start_sender \<and> c_tx_netns conf \<noteq> []
           in if forked \<and> bt_fork T < 0
              then (calls, [], B_throws (''fork() failed: '' @ bt_strerror T))
              else (case bench_loop F layer conf (bt_t0 T) recv turns (state b)
                          \<lparr>latencies = [], bc_packets = 0, bc_bytes = 0, win_packets = 0, win_start = bt_t0 T\<rparr> of
                      (msgs, B_running) \<Rightarrow> (calls, msgs, B_running)
                    | (msgs, B_fault) \<Rightarrow> (calls, msgs, B_fault)
                    | (msgs, B_throws e) \<Rightarrow> (calls, msgs, B_throws e)
                    | (msgs, B_done s) \<Rightarrow>
                        if forked \<and> \<not> bt_tx_exit_ok T
                        then (calls, msgs, B_throws ''transmitter process failed'')
                        else (case bench_result (f_rnd F) (bt_t0 T) (bt_t1 T) (bt_cpu0 T) (bt_cpu1 T) s of
                                None \<Rightarrow> (calls, msgs, B_fault)
                              | Some r \<Rightarrow> (calls @ destroy b, msgs, B_done r)))))"

subsection \<open>Percentiles\<close>

text \<open>Rank: at least \<open>k + 1\<close> elements are at most the element at position \<open>k\<close> of the sorted list,
  and at least \<open>n - k\<close> are at least as large.\<close>

lemma length_filter_sort: "length (filter P (sort xs)) = length (filter P xs)"
  by (metis mset_filter mset_sort size_mset)

lemma sort_rank:
  fixes xs :: "'a::linorder list"
  assumes "k < length xs"
  shows "k + 1 \<le> length (filter (\<lambda>x. x \<le> sort xs ! k) xs)"
    and "length xs - k \<le> length (filter (\<lambda>x. sort xs ! k \<le> x) xs)"
proof -
  let ?v = "sort xs"
  have sorted: "?v ! i \<le> ?v ! j" if "i \<le> j" "j < length xs" for i j
    using that by (intro sorted_nth_mono) simp_all
  have "filter (\<lambda>x. x \<le> ?v ! k) (take (k + 1) ?v) = take (k + 1) ?v"
    using sorted assms by (auto simp: filter_id_conv in_set_conv_nth)
  then have "length (take (k + 1) ?v) \<le> length (filter (\<lambda>x. x \<le> ?v ! k) (take (k + 1) ?v @ drop (k + 1) ?v))"
    unfolding filter_append by simp
  then show "k + 1 \<le> length (filter (\<lambda>x. x \<le> ?v ! k) xs)"
    using assms unfolding append_take_drop_id length_filter_sort by simp
  have "filter (\<lambda>x. ?v ! k \<le> x) (drop k ?v) = drop k ?v"
    using sorted assms by (auto simp: filter_id_conv in_set_conv_nth)
  then have "length (drop k ?v) \<le> length (filter (\<lambda>x. ?v ! k \<le> x) (take k ?v @ drop k ?v))"
    unfolding filter_append by simp
  then show "length xs - k \<le> length (filter (\<lambda>x. ?v ! k \<le> x) xs)"
    unfolding append_take_drop_id length_filter_sort by simp
qed

context ieee_rounding
begin

text \<open>The product \<open>n * 0.99\<close>, rounded twice, is 99 percent of \<open>n\<close> up to a tenth, and below \<open>n\<close>.\<close>

lemma rounded_99_percent:
  fixes n :: nat
  assumes "0 < n" and "n < 2 ^ 48"
  defines "x \<equiv> rnd (real n * rnd (99 / 100))"
  shows "0 \<le> x" and "x < real n" and "x \<le> 99 / 100 * real n + 1 / 10" and "99 / 100 * real n - 1 / 10 \<le> x"
proof -
  let ?c = "rnd (99 / 100)" and ?e = "1 / 2 ^ 53 :: real"
  have c: "99 / 100 * (1 - ?e) \<le> ?c" "?c \<le> 99 / 100 * (1 + ?e)"
    using rnd_lower [of "99 / 100"] rnd_upper [of "99 / 100"] by simp_all
  have c0: "0 \<le> real n * ?c" using c(1) by simp
  then show "0 \<le> x" unfolding x_def by (rule rnd_nonneg)
  have lo1: "real n * (99 / 100 * (1 - ?e)) \<le> real n * ?c" and hi1: "real n * ?c \<le> real n * (99 / 100 * (1 + ?e))"
    by (rule mult_left_mono [OF c(1)], simp) (rule mult_left_mono [OF c(2)], simp)
  have hi: "x \<le> real n * (99 / 100 * (1 + ?e) * (1 + ?e))" and lo: "real n * (99 / 100 * (1 - ?e) * (1 - ?e)) \<le> x"
    unfolding x_def
    using order_trans [OF rnd_upper [OF c0] mult_right_mono [OF hi1]]
      order_trans [OF mult_right_mono [OF lo1] rnd_lower [OF c0]] by (simp_all add: mult.assoc)
  have "real n < 2 ^ 48" using assms(2) by (metis of_nat_less_iff of_nat_numeral of_nat_power)
  then show "x < real n" and "x \<le> 99 / 100 * real n + 1 / 10" and "99 / 100 * real n - 1 / 10 \<le> x"
    using hi lo assms(1) by (simp_all add: field_simps)
qed

text \<open>The index of the 99th percentile, computed in floating point, is inside the list.\<close>

lemma p99_index_bounds:
  assumes "0 < n" and "n < 2 ^ 48"
  obtains i where "p99_index rnd n = Some i" and "unat i < n" and "n div 2 \<le> unat i"
    and "real (unat i) \<le> 99 / 100 * n + 1 / 10" and "99 / 100 * real n - 11 / 10 < real (unat i)"
proof -
  let ?x = "rnd (real n * rnd (99 / 100))"
  note x0 = rounded_99_percent(1) [OF assms] and up = rounded_99_percent(3,2) [OF assms]
    and down = rounded_99_percent(4) [OF assms]
  have n: "rnd (real (unat (of_nat n :: u64))) = real n"
    using rnd_int [of "int n"] assms(2) by (simp add: unat_of_nat)
  define i where "i = (of_nat (nat \<lfloor>?x\<rfloor>) :: u64)"
  have "real n < 2 ^ 48" using assms(2) by (metis of_nat_less_iff of_nat_numeral of_nat_power)
  then have big: "?x < 2 ^ 64" using up(2) by simp
  have "nat \<lfloor>?x\<rfloor> < n" using up(2) x0 by linarith
  then have i: "unat i = nat \<lfloor>?x\<rfloor>" using assms(2) by (simp add: i_def unat_of_nat)
  have fl: "real (unat i) \<le> ?x" "?x < real (unat i) + 1" using x0 i by linarith+
  have "p99_index rnd n = Some i"
    using big x0 n by (simp add: p99_index_def d_of_u64_def i_def)
  moreover have "n div 2 \<le> unat i"
  proof (cases "n \<le> 2")
    case True
    then have "n = 1 \<or> n = 2" using assms(1) by linarith
    then show ?thesis
    proof
      assume "n = 2"
      then have "real n = 2" by simp
      then have "0 < real (unat i)" using fl(2) down by linarith
      with \<open>n = 2\<close> show ?thesis by linarith
    qed simp
  next
    case False
    then have "real n / 2 \<le> 99 / 100 * real n - 11 / 10" by simp
    then have "real n / 2 < real (unat i)" using fl(2) down by linarith
    then show ?thesis by linarith
  qed
  moreover have "unat i < n" using \<open>nat \<lfloor>?x\<rfloor> < n\<close> i by simp
  moreover have "real (unat i) \<le> 99 / 100 * real n + 1 / 10" and "99 / 100 * real n - 11 / 10 < real (unat i)"
    using fl up(1) down by linarith+
  ultimately show thesis using that by blast
qed

lemma percentiles_rank:
  assumes "ls \<noteq> []" and "length ls < 2 ^ 48"
  obtains p50 p99 i where "percentiles rnd ls = Some (p50, p99)" and "p50 \<le> p99"
    and "p50 = sort ls ! (length ls div 2)" and "p99 = sort ls ! i" and "i < length ls"
    and "99 / 100 * real (length ls) - 11 / 10 < real i" and "real i \<le> 99 / 100 * real (length ls) + 1 / 10"
proof -
  have n: "0 < length ls" using assms(1) by simp
  obtain i where i: "p99_index rnd (length ls) = Some i" "unat i < length ls" "length ls div 2 \<le> unat i"
    "real (unat i) \<le> 99 / 100 * length ls + 1 / 10" "99 / 100 * real (length ls) - 11 / 10 < real (unat i)"
    using p99_index_bounds [OF n assms(2)] by blast
  have "percentiles rnd ls = Some (sort ls ! (length ls div 2), sort ls ! unat i)"
    using i n by (simp add: percentiles_def p50_index_def Let_def)
  moreover have "sort ls ! (length ls div 2) \<le> sort ls ! unat i"
    using i(2,3) by (intro sorted_nth_mono) simp_all
  ultimately show thesis using that i by blast
qed

end

end
