(* ===== verification/Bench_Main.thy ===== *)
theory Bench_Main
  imports Bench_Receiver
begin

section \<open>Command line of falcon-bench (main of bench/bench\_main.cpp)\<close>

text \<open>
  \<open>main\<close> reads its arguments one after the other, each optional, into a \<open>BenchCfg\<close> and then sends
  (\<open>tx\<close>), receives (\<open>rx\<close>) or does both. \<open>bench_args\<close> is this reading: it refuses with a message or
  chooses a job. \<open>bench_main\<close> runs the job with the components above; an exception of the job is
  not caught (\<open>B_throws\<close>) and ends the process.

  The lemmas show which configurations \<open>bench_args\<close> lets through: the payload size is checked in
  the receiving and combined modes, not in the sending mode.
\<close>

datatype bench_job =
    Refuse string
  | Send BenchCfg
  | Bench string BenchCfg bool

text \<open>\<open>if (argc > arg) f(argv[arg++])\<close>.\<close>

definition opt_arg :: "(string \<Rightarrow> BenchCfg \<Rightarrow> BenchCfg) \<Rightarrow> string list \<times> BenchCfg \<Rightarrow> string list \<times> BenchCfg" where
  "opt_arg f ac = (case ac of ([], c) \<Rightarrow> ([], c) | (x # xs, c) \<Rightarrow> (xs, f x c))"

definition set_port :: "string \<Rightarrow> BenchCfg \<Rightarrow> BenchCfg" where
  "set_port x c = c\<lparr>c_port := word_of_int (atoi x)\<rparr>"

definition set_payload :: "string \<Rightarrow> BenchCfg \<Rightarrow> BenchCfg" where
  "set_payload x c = c\<lparr>c_payload_size := strtoul x\<rparr>"

definition addr_args :: "string list \<times> BenchCfg \<Rightarrow> string list \<times> BenchCfg" where
  "addr_args ac = opt_arg (\<lambda>x c. c\<lparr>c_dst_ip := x\<rparr>) (opt_arg (\<lambda>x c. c\<lparr>c_src_ip := x\<rparr>) ac)"

definition time_args :: "(string \<Rightarrow> double) \<Rightarrow> string list \<times> BenchCfg \<Rightarrow> string list \<times> BenchCfg" where
  "time_args atof ac = opt_arg (\<lambda>x c. c\<lparr>c_burst := strtoull x\<rparr>) (opt_arg (\<lambda>x c. c\<lparr>c_seconds := atof x\<rparr>) ac)"

definition tx_args :: "(string \<Rightarrow> double) \<Rightarrow> string list \<Rightarrow> bench_job" where
  "tx_args atof args =
     (let tx_kind = (case args of [] \<Rightarrow> ''udp'' | x # _ \<Rightarrow> x);
          ac = (if tx_kind = ''udp'' \<or> tx_kind = ''raw''
                then (drop 1 args, default_cfg\<lparr>c_raw_tx := (tx_kind = ''raw'')\<rparr>) else (args, default_cfg));
          (rest, c) = opt_arg set_payload (addr_args (opt_arg (\<lambda>x c. c\<lparr>c_tx_iface := x\<rparr>)
                        (time_args atof (opt_arg set_port ac))))
      in if c_tx_iface c = [] then Refuse ''tx mode requires an interface'' else Send c)"

text \<open>\<open>netns_exists\<close> is \<open>access("/var/run/netns/" + name, F_OK) == 0\<close>.\<close>

definition sender_args :: "(string \<Rightarrow> bool) \<Rightarrow> string list \<times> BenchCfg \<Rightarrow> string list \<times> BenchCfg" where
  "sender_args netns_exists ac =
     (case ac of
        ([], c) \<Rightarrow> ([], c)
      | (x # xs, c) \<Rightarrow>
          if netns_exists x
          then addr_args (opt_arg (\<lambda>y c. c\<lparr>c_tx_iface := y\<rparr>) (xs, c\<lparr>c_tx_netns := x\<rparr>))
          else (case addr_args (xs, c\<lparr>c_tx_iface := x\<rparr>) of (rest, c) \<Rightarrow> (rest, c\<lparr>c_raw_tx := True\<rparr>)))"

definition known_backend :: "string \<Rightarrow> bool" where
  "known_backend backend = (backend = ''socket'' \<or> backend = ''packet'' \<or> backend = ''xdp'')"

definition check_payload :: "string \<Rightarrow> bool \<Rightarrow> BenchCfg \<Rightarrow> bench_job" where
  "check_payload backend receiver_only c =
     (if c_payload_size c < 8 \<or> c_payload_size c > 1400
      then Refuse ''payload size must be between 8 and 1400 bytes''
      else Bench backend c receiver_only)"

definition bench_args :: "(string \<Rightarrow> double) \<Rightarrow> (string \<Rightarrow> bool) \<Rightarrow> string list \<Rightarrow> bench_job" where
  "bench_args atof netns_exists argv =
     (let first = (case drop 1 argv of [] \<Rightarrow> ''socket'' | x # _ \<Rightarrow> x); args = drop 2 argv
      in if first = ''tx'' then tx_args atof args
         else if first = ''rx'' \<and> args = []
         then Refuse ''usage: falcon-bench rx [socket|packet|xdp] [port|iface] [seconds] [burst]''
         else
           (let receiver_only = (first = ''rx''); backend = (if receiver_only then hd args else first);
                ac = (if receiver_only then tl args else args, default_cfg)
            in if \<not> known_backend backend
               then Refuse (''unknown backend: '' @ backend @ '' (use: socket | packet | xdp)'')
               else
                 (let ac = time_args atof (opt_arg (if backend = ''socket'' then set_port
                             else (\<lambda>x c. c\<lparr>c_ifname := x\<rparr>)) ac);
                      (rest, c) = opt_arg set_payload (if receiver_only then ac else sender_args netns_exists ac)
                  in check_payload backend receiver_only c)))"

subsection \<open>main\<close>

text \<open>What the process meets: the environment and the turns of each backend and of the sender.\<close>

record ('p, 'c) main_host =
  ma_atof :: "string \<Rightarrow> double"
  ma_netns :: "string \<Rightarrow> bool"
  ma_floats :: floats
  ma_times :: bench_times
  ma_tx :: tx_env
  ma_socket :: socket_env
  ma_socket_turns :: "socket_world bench_turn list"
  ma_packet :: packet_env
  ma_packet_turns :: "waits bench_turn list"
  ma_xsk :: "('p, 'c) xsk_ops"
  ma_xdp :: "('p, 'c) xdp_env"
  ma_xdp_turns :: "(int \<times> ('p \<times> 'c \<Rightarrow> 'p \<times> 'c)) bench_turn list"

definition tx_banner :: "floats \<Rightarrow> BenchCfg \<Rightarrow> message" where
  "tx_banner F c =
     Out (''falcon-bench | mode=tx | transport='' @ (if c_raw_tx c then ''raw'' else ''udp'') @ '' | port='' @
          dec (unat (c_port c)) @ '' | seconds='' @ f_show F 1 (c_seconds c) @ '' | burst='' @ dec (unat (c_burst c)) @
          '' | tx='' @ c_tx_iface c @ '' '' @ c_src_ip c @ ''->'' @ c_dst_ip c)"

definition bench_banner :: "floats \<Rightarrow> string \<Rightarrow> BenchCfg \<Rightarrow> bool \<Rightarrow> message" where
  "bench_banner F backend c receiver_only =
     Out (''falcon-bench | mode='' @ (if receiver_only then ''rx'' else ''combined'') @ '' | backend='' @ backend @
          '' | iface/port='' @ (if backend = ''socket'' then dec (unat (c_port c)) else c_ifname c) @ '' | seconds='' @
          f_show F 1 (c_seconds c) @ '' | burst='' @ dec (unat (c_burst c)) @ '' | payload='' @
          dec (unat (c_payload_size c)) @ (if c_tx_netns c = [] then [] else '' | tx_netns='' @ c_tx_netns c) @
          (if c_tx_iface c = [] then [] else '' | tx='' @ c_tx_iface c @ '' '' @ c_src_ip c @ ''->'' @ c_dst_ip c))"

definition result_lines :: "floats \<Rightarrow> BenchResult \<Rightarrow> message list" where
  "result_lines F r =
     [Out '''', Out ''=== results ==='', Out (''  packets : '' @ dec (unat (br_packets r))),
      Out (''  bytes   : '' @ dec (unat (br_bytes r))), Out (''  seconds : '' @ f_show F 3 (br_seconds r)),
      Out (''  pps     : '' @ f_show F 0 (br_pps r)), Out (''  p50     : '' @ f_show F 0 (br_p50 r) @ '' ns''),
      Out (''  p99     : '' @ f_show F 0 (br_p99 r) @ '' ns''),
      Out (''  cpu     : '' @ f_show F 1 (br_cpu_pct r) @ ''% (receiver thread, one core)'')]"

definition run_backend :: "('p, 'c) main_host \<Rightarrow> string \<Rightarrow> BenchCfg \<Rightarrow> bool \<Rightarrow>
    call list \<times> message list \<times> BenchResult bench_end" where
  "run_backend H backend c start_sender =
     (if backend = ''socket''
      then run_bench (ma_floats H) kL4Payload (ma_times H) c start_sender (SocketBackend (ma_socket H) (c_port c))
        so_backend destroy_socket socket_recv (ma_socket_turns H)
      else if backend = ''packet''
      then run_bench (ma_floats H) kL2Ethernet (ma_times H) c start_sender (AfPacketBackend (ma_packet H) (c_ifname c))
        po_backend destroy_packet ap_recv (ma_packet_turns H)
      else run_bench (ma_floats H) kL2Ethernet (ma_times H) c start_sender
        (AfXdpBackend (ma_xsk H) (ma_xdp H) (c_ifname c) kCopy True 0)
        xo_backend destroy_xdp (xdp_recv (ma_xsk H)) (ma_xdp_turns H))"

text \<open>
  \<open>main\<close>: the calls and the output of the thread it runs in (the sender's of the combined mode run
  beside it), and the exit code.
\<close>

definition bench_main :: "('p, 'c) main_host \<Rightarrow> string list \<Rightarrow> call list \<times> message list \<times> int bench_end" where
  "bench_main H argv =
     (case bench_args (ma_atof H) (ma_netns H) argv of
        Refuse e \<Rightarrow> ([], [Err e], B_done 1)
      | Send c \<Rightarrow>
          (case tx_thread (f_rnd (ma_floats H)) (ma_tx H) c of
             (calls, stop, r) \<Rightarrow>
               (calls, tx_banner (ma_floats H) c # r_msgs r,
                case r_end r of Tx_fault \<Rightarrow> B_fault | Tx_running \<Rightarrow> B_running | Tx_done \<Rightarrow> B_done 0))
      | Bench backend c receiver_only \<Rightarrow>
          (case run_backend H backend c (\<not> receiver_only) of
             (calls, msgs, r) \<Rightarrow>
               (case r of
                  B_done res \<Rightarrow>
                    (calls, bench_banner (ma_floats H) backend c receiver_only # msgs @ result_lines (ma_floats H) res, B_done 0)
                | B_throws e \<Rightarrow> (calls, bench_banner (ma_floats H) backend c receiver_only # msgs, B_throws e)
                | B_running \<Rightarrow> (calls, bench_banner (ma_floats H) backend c receiver_only # msgs, B_running)
                | B_fault \<Rightarrow> (calls, bench_banner (ma_floats H) backend c receiver_only # msgs, B_fault))))"

subsection \<open>What the arguments allow\<close>

lemma tx_args_not_Bench: "tx_args atof args \<noteq> Bench backend c receiver_only"
  by (simp add: tx_args_def Let_def case_prod_beta)

lemma check_payload_Bench:
  "check_payload b r c' = Bench backend c receiver_only \<Longrightarrow>
     backend = b \<and> c = c' \<and> 8 \<le> unat (c_payload_size c) \<and> unat (c_payload_size c) \<le> 1400"
  by (auto simp: check_payload_def word_less_nat_alt not_less split: if_splits)

lemma bench_args_payload:
  assumes "bench_args atof netns_exists argv = Bench backend c receiver_only"
  shows "8 \<le> unat (c_payload_size c) \<and> unat (c_payload_size c) \<le> 1400 \<and> known_backend backend"
  using assms tx_args_not_Bench unfolding bench_args_def Let_def case_prod_beta
  by (auto dest!: check_payload_Bench split: if_split_asm)

lemma opt_arg_simps [simp]:
  "opt_arg f ([], c) = ([], c)" "opt_arg f (x # xs, c) = (xs, f x c)"
  by (simp_all add: opt_arg_def)

text \<open>The sending mode takes any payload size.\<close>

lemma tx_args_any_payload:
  assumes "iface \<noteq> []"
  shows "bench_args atof netns_exists [prog, ''tx'', ''raw'', port, secs, burst, iface, src, dst, dec n] =
    Send (default_cfg\<lparr>c_raw_tx := True, c_port := word_of_int (atoi port), c_seconds := atof secs,
      c_burst := strtoull burst, c_tx_iface := iface, c_src_ip := src, c_dst_ip := dst,
      c_payload_size := strtoul (dec n)\<rparr>)"
  using assms
  by (simp add: bench_args_def tx_args_def time_args_def addr_args_def set_port_def set_payload_def default_cfg_def Let_def)

subsection \<open>Latencies\<close>

text \<open>
  The latencies of a batch of the sender's frames: each is its clock reading minus the timestamp
  the sender put into the frame (a timestamp of zero counts as none).
\<close>

lemma batch_latencies_stamped:
  assumes "\<forall>f \<in> set fs. frame_ts layer (mem f) (len f) = Some (stamp f)"
  shows "batch_latencies layer mem clock i fs =
    Some (map (\<lambda>(j, f). clock j - stamp f) (filter (\<lambda>(j, f). stamp f \<noteq> 0) (enumerate i fs)))"
  using assms by (induction fs arbitrary: i) simp_all

end
