(* ===== verification/Rx_Bench_Mq.thy ===== *)
theory Rx_Bench_Mq
  imports Rx_Bench
begin

section \<open>The multi-queue benchmark (bench/rx\_bench\_mq.cpp)\<close>

text \<open>
  \<open>falcon-rxbench-mq\<close> forks one process per queue, pinned to a CPU. Each runs the receive loop of
  \<open>run_queue\<close>, reads the CPU's times from \<open>/proc/stat\<close> at its start and end, and sends its
  result through a pipe; the parent adds the results up. \<open>/proc/stat\<close> is the list of its lines.
  A child that throws ends without writing to its pipe, so that the parent reads nothing and
  keeps the zeros the result was initialised with.

  The lemmas bound the CPU percentage, computed with 64-bit counters and rounded doubles, show
  that a queue reports its backend's counters, and what the totals are.
\<close>

subsection \<open>CPU times\<close>

record CpuTimes =
  cpu_user :: u64
  cpu_nice :: u64
  cpu_system :: u64
  cpu_idle :: u64
  cpu_iowait :: u64
  cpu_irq :: u64
  cpu_softirq :: u64
  cpu_steal :: u64

definition no_times :: CpuTimes where
  "no_times = \<lparr>cpu_user = 0, cpu_nice = 0, cpu_system = 0, cpu_idle = 0, cpu_iowait = 0, cpu_irq = 0,
     cpu_softirq = 0, cpu_steal = 0\<rparr>"

text \<open>\<open>%llu\<close> and \<open>%*d\<close> of \<open>sscanf\<close>: what follows the number, \<open>None\<close> when there is no digit.\<close>

definition scan_rest :: "string \<Rightarrow> string option" where
  "scan_rest s =
     (case split_sign (dropWhile is_space s) of
        (neg, ds) \<Rightarrow> (case ds of [] \<Rightarrow> None | c # _ \<Rightarrow> if is_digit c then Some (dropWhile is_digit ds) else None))"

fun scan_u64s :: "nat \<Rightarrow> string \<Rightarrow> u64 list" where
  "scan_u64s 0 s = []"
| "scan_u64s (Suc n) s = (case scan_rest s of None \<Rightarrow> [] | Some rest \<Rightarrow> strtoull s # scan_u64s n rest)"

definition scan_cpu_line :: "string \<Rightarrow> CpuTimes" where
  "scan_cpu_line line =
     (let vs = (case scan_rest (drop 3 line) of None \<Rightarrow> [] | Some rest \<Rightarrow> scan_u64s 8 rest);
          v = (\<lambda>i. if i < length vs then vs ! i else 0)
      in \<lparr>cpu_user = v 0, cpu_nice = v 1, cpu_system = v 2, cpu_idle = v 3, cpu_iowait = v 4, cpu_irq = v 5,
          cpu_softirq = v 6, cpu_steal = v 7\<rparr>)"

fun read_cpu_times :: "nat \<Rightarrow> string list \<Rightarrow> CpuTimes" where
  "read_cpu_times cpu [] = no_times"
| "read_cpu_times cpu (line # rest) =
     (let prefix = ''cpu'' @ dec cpu @ '' ''
      in if take (length prefix) line = prefix then scan_cpu_line line else read_cpu_times cpu rest)"

definition cpu_total :: "CpuTimes \<Rightarrow> u64" where
  "cpu_total t = cpu_user t + cpu_nice t + cpu_system t + cpu_idle t + cpu_iowait t + cpu_irq t + cpu_softirq t + cpu_steal t"

definition cpu_idle_total :: "CpuTimes \<Rightarrow> u64" where
  "cpu_idle_total t = cpu_idle t + cpu_iowait t"

definition cpu_usage_percent :: "rounding \<Rightarrow> CpuTimes \<Rightarrow> CpuTimes \<Rightarrow> double" where
  "cpu_usage_percent rnd before after =
     (let total_delta = cpu_total after - cpu_total before;
          idle_delta = cpu_idle_total after - cpu_idle_total before
      in if total_delta = 0 then Fin 0
         else d_div rnd (d_mul rnd (Fin 100) (d_of_u64 rnd (total_delta - idle_delta))) (d_of_u64 rnd total_delta))"

subsection \<open>One queue\<close>

record QueueResult =
  q_packets :: u64
  q_bytes :: u64
  q_kernel_drops :: u64
  q_elapsed :: double
  q_cpu :: double
  q_pps :: double
  q_gbps :: double

definition no_result :: QueueResult where
  "no_result = \<lparr>q_packets = 0, q_bytes = 0, q_kernel_drops = 0, q_elapsed = Fin 0, q_cpu = Fin 0, q_pps = Fin 0,
     q_gbps = Fin 0\<rparr>"

record 'w mq_turn = "'w turn" +
  t_stat_first :: "string list"
  t_stat_end :: "string list"

record mq_counts =
  mq_packets :: u64
  mq_bytes :: u64
  mq_start :: "(int \<times> CpuTimes) option"

definition queue_result :: "rounding \<Rightarrow> mq_counts \<Rightarrow> double \<Rightarrow> CpuTimes \<Rightarrow> CpuTimes \<Rightarrow> u64 \<Rightarrow> QueueResult" where
  "queue_result rnd s elapsed cpu_start cpu_end d =
     \<lparr>q_packets = mq_packets s, q_bytes = mq_bytes s, q_kernel_drops = d, q_elapsed = elapsed,
      q_cpu = cpu_usage_percent rnd cpu_start cpu_end, q_pps = d_div rnd (d_of_u64 rnd (mq_packets s)) elapsed,
      q_gbps = gbit_s rnd (mq_bytes s) elapsed\<rparr>"

text \<open>\<open>started\<close>, \<open>start\<close> and \<open>cpu_start\<close> of the source are set together: \<open>mq_start\<close>.\<close>

fun mq_loop :: "rounding \<Rightarrow> nat \<Rightarrow> ('w, 'st) receiver \<Rightarrow> ('st \<Rightarrow> string + u64) \<Rightarrow> double \<Rightarrow> u64 \<Rightarrow> 'w mq_turn list \<Rightarrow>
    'st \<Rightarrow> mq_counts \<Rightarrow> (string + QueueResult \<times> 'st) option" where
  "mq_loop rnd cpu recv kdrops seconds expected [] st s = None"
| "mq_loop rnd cpu recv kdrops seconds expected (turn # turns) st s =
     (case recv (t_kernel turn) kBatchSize st of
        Inl e \<Rightarrow> Some (Inl e)
      | Inr (fs, st') \<Rightarrow>
          (case (if fs \<noteq> [] \<and> mq_start s = None
                 then Some (t_first turn, read_cpu_times cpu (t_stat_first turn)) else mq_start s) of
             None \<Rightarrow> mq_loop rnd cpu recv kdrops seconds expected turns st' s
           | Some (start, cpu_start) \<Rightarrow>
               (let s1 = s\<lparr>mq_start := Some (start, cpu_start), mq_packets := mq_packets s + of_nat (length fs),
                           mq_bytes := mq_bytes s + sum_list (map len fs)\<rparr>;
                    elapsed = d_seconds rnd (t_now turn - start)
                in if expected \<noteq> 0 \<and> mq_packets s1 \<ge> expected \<or> d_ge elapsed seconds then
                     (case kdrops st' of
                        Inl e \<Rightarrow> Some (Inl e)
                      | Inr d \<Rightarrow> Some (Inr (queue_result rnd s1 elapsed cpu_start
                          (read_cpu_times cpu (t_stat_end turn)) d, st')))
                   else mq_loop rnd cpu recv kdrops seconds expected turns st' s1)))"

definition run_queue :: "rounding \<Rightarrow> bool \<Rightarrow> nat \<Rightarrow> call list \<times> (string + 'obj) \<Rightarrow> ('obj \<Rightarrow> 'st) \<Rightarrow> ('w, 'st) receiver \<Rightarrow>
    ('st \<Rightarrow> string + u64) \<Rightarrow> double \<Rightarrow> u64 \<Rightarrow> 'w mq_turn list \<Rightarrow> message list \<times> (string + QueueResult) option" where
  "run_queue rnd pinned cpu made state recv kdrops seconds expected turns =
     (if pinned then [] else [Err (''warning: failed to pin to CPU '' @ dec cpu)],
      (case snd made of
         Inl e \<Rightarrow> Some (Inl e)
       | Inr b \<Rightarrow> map_option (map_sum id fst)
           (mq_loop rnd cpu recv kdrops seconds expected turns (state b) \<lparr>mq_packets = 0, mq_bytes = 0, mq_start = None\<rparr>)))"

subsection \<open>All queues\<close>

text \<open>
  What becomes of the process of a queue: \<open>fork\<close> fails, or the child runs. The parent's \<open>read\<close>
  waits for a child that is still running (\<open>None\<close>); it gets nothing from one that threw.
\<close>

datatype child = Fork_failed | Child "(string + QueueResult) option"

fun read_result :: "child \<Rightarrow> QueueResult option" where
  "read_result Fork_failed = Some no_result"
| "read_result (Child None) = None"
| "read_result (Child (Some (Inl e))) = Some no_result"
| "read_result (Child (Some (Inr r))) = Some r"

record mq_totals =
  total_packets :: u64
  total_bytes :: u64
  total_drops :: u64
  max_elapsed :: double
  total_cpu :: double

definition no_totals :: mq_totals where
  "no_totals = \<lparr>total_packets = 0, total_bytes = 0, total_drops = 0, max_elapsed = Fin 0, total_cpu = Fin 0\<rparr>"

definition add_result :: "rounding \<Rightarrow> QueueResult \<Rightarrow> mq_totals \<Rightarrow> mq_totals" where
  "add_result rnd r t =
     \<lparr>total_packets = total_packets t + q_packets r, total_bytes = total_bytes t + q_bytes r,
      total_drops = total_drops t + q_kernel_drops r,
      max_elapsed = (if d_gt (q_elapsed r) (max_elapsed t) then q_elapsed r else max_elapsed t),
      total_cpu = d_add rnd (total_cpu t) (q_cpu r)\<rparr>"

definition queue_line :: "floats \<Rightarrow> nat \<times> QueueResult \<Rightarrow> message" where
  "queue_line F qr =
     (case qr of (q, r) \<Rightarrow>
        Out (dec q @ '','' @ dec (unat (q_packets r)) @ '','' @ f_show F 0 (q_pps r) @ '','' @ f_show F 3 (q_gbps r) @
             '','' @ f_show F 1 (q_cpu r) @ '','' @ dec (unat (q_kernel_drops r))))"

definition totals_lines :: "floats \<Rightarrow> u64 \<Rightarrow> nat \<Rightarrow> mq_totals \<Rightarrow> message list" where
  "totals_lines F expected num_queues t =
     (let rnd = f_rnd F; u = (\<lambda>w. dec (unat (w :: u64)))
      in [Out '''', Out (''total,packets,'' @ u (total_packets t)), Out (''total,bytes,'' @ u (total_bytes t)),
          Out (''total,kernel_drops,'' @ u (total_drops t)),
          Out (''total,pps,'' @ f_show F 0 (d_div rnd (d_of_u64 rnd (total_packets t)) (max_elapsed t))),
          Out (''total,gbps,'' @ f_show F 3 (gbit_s rnd (total_bytes t) (max_elapsed t))),
          Out (''total,cpu_percent_avg,'' @ f_show F 1 (d_div rnd (total_cpu t) (Fin (of_nat num_queues)))),
          Out (''total,cpu_percent_sum,'' @ f_show F 1 (total_cpu t))] @
         (if expected \<noteq> 0
          then [Out (''offered_packets,'' @ u (expected * of_nat num_queues)),
                Out (''lost_packets,'' @ u (lost_packets (expected * of_nat num_queues) (total_packets t)))]
          else []))"

text \<open>\<open>run_multi\<close>: the first failing \<open>pipe\<close> ends it; otherwise it waits for every queue's result.\<close>

definition run_multi :: "floats \<Rightarrow> (nat \<Rightarrow> string option) \<Rightarrow> (nat \<Rightarrow> child) \<Rightarrow> u64 \<Rightarrow> nat \<Rightarrow>
    (message list \<times> int) option" where
  "run_multi F pipe_error children expected num_queues =
     (case List.find (\<lambda>q. pipe_error q \<noteq> None) [0..<num_queues] of
        Some q \<Rightarrow> Some ([Err (''pipe: '' @ the (pipe_error q))], 1)
      | None \<Rightarrow> do {
          results \<leftarrow> those (map (\<lambda>q. read_result (children q)) [0..<num_queues]);
          let t = fold (add_result (f_rnd F)) results no_totals;
          Some ([Out '''', Out ''queue,packets,pps,gbps,cpu_percent,kernel_drops''] @
                map (queue_line F) (enumerate 0 results) @ totals_lines F expected num_queues t, 0)
        })"

subsection \<open>main\<close>

text \<open>What the process of one queue meets.\<close>

record ('p, 'c) mq_queue =
  mh_forks :: bool
  mh_pinned :: bool
  mh_socket :: socket_env
  mh_socket_turns :: "socket_world mq_turn list"
  mh_packet :: packet_env
  mh_packet_turns :: "waits mq_turn list"
  mh_packet_stats :: "string + u32"
  mh_xsk :: "('p, 'c) xsk_ops"
  mh_xdp :: "('p, 'c) xdp_env"
  mh_xdp_turns :: "(int \<times> ('p \<times> 'c \<Rightarrow> 'p \<times> 'c)) mq_turn list"
  mh_xdp_stats :: "string + u64 \<times> u64"

definition socket_queue :: "rounding \<Rightarrow> string \<Rightarrow> double \<Rightarrow> u64 \<Rightarrow> nat \<Rightarrow> ('p, 'c) mq_queue \<Rightarrow> child" where
  "socket_queue rnd target seconds expected q Q =
     (if \<not> mh_forks Q then Fork_failed
      else Child (snd (run_queue rnd (mh_pinned Q) q (SocketBackend (mh_socket Q) (ucast (strtoul target)))
        so_backend socket_recv (\<lambda>_. Inr 0) seconds expected (mh_socket_turns Q))))"

definition packet_queue :: "rounding \<Rightarrow> string \<Rightarrow> double \<Rightarrow> u64 \<Rightarrow> nat \<Rightarrow> ('p, 'c) mq_queue \<Rightarrow> child" where
  "packet_queue rnd target seconds expected q Q =
     (if \<not> mh_forks Q then Fork_failed
      else Child (snd (run_queue rnd (mh_pinned Q) q (AfPacketBackend (mh_packet Q) target)
        po_backend ap_recv (\<lambda>_. packet_kernel_drops (mh_packet_stats Q)) seconds expected (mh_packet_turns Q))))"

definition xdp_queue :: "rounding \<Rightarrow> AfXdpMode \<Rightarrow> string \<Rightarrow> double \<Rightarrow> u64 \<Rightarrow> nat \<Rightarrow> ('p, 'c) mq_queue \<Rightarrow> child" where
  "xdp_queue rnd mode target seconds expected q Q =
     (if \<not> mh_forks Q then Fork_failed
      else Child (snd (run_queue rnd (mh_pinned Q) q
        (AfXdpBackend (mh_xsk Q) (mh_xdp Q) target mode False (of_nat q))
        xo_backend (xdp_recv (mh_xsk Q)) (\<lambda>_. xdp_kernel_drops (mh_xdp_stats Q)) seconds expected (mh_xdp_turns Q))))"

definition mq_usage :: "message list" where
  "mq_usage = map Err
     [''usage: falcon-rxbench-mq socket <port> <seconds> <queues>'',
      ''       falcon-rxbench-mq packet <interface> <seconds> <queues>'',
      ''       falcon-rxbench-mq xdp <interface> <seconds> <queues>'',
      ''       falcon-rxbench-mq xdp-zc <interface> <seconds> <queues>'',
      ''       append [expected_packets_per_queue] for controlled finite run'']"

text \<open>The parent's output and exit code; the children print their own errors.\<close>

definition mq_main :: "(string \<Rightarrow> double) \<Rightarrow> floats \<Rightarrow> (nat \<Rightarrow> string option) \<Rightarrow> (nat \<Rightarrow> ('p, 'c) mq_queue) \<Rightarrow> string list \<Rightarrow>
    (message list \<times> int) option" where
  "mq_main atof F pipe_error queues argv =
     (if length argv \<noteq> 5 \<and> length argv \<noteq> 6 then Some (mq_usage, 1)
      else
        (let backend = argv ! 1; target = argv ! 2; seconds = atof (argv ! 3); num_queues = atoi (argv ! 4);
             expected = (if length argv = 6 then strtoull (argv ! 5) else 0);
             multi = (\<lambda>child. run_multi F pipe_error (\<lambda>q. child q (queues q)) expected (nat num_queues))
         in if d_ge (Fin 0) seconds \<or> num_queues \<le> 0 \<or> num_queues > 64
            then Some ([Err ''invalid seconds or queue count''], 1)
            else if backend = ''socket'' then multi (socket_queue (f_rnd F) target seconds expected)
            else if backend = ''packet'' then multi (packet_queue (f_rnd F) target seconds expected)
            else if backend = ''xdp'' then multi (xdp_queue (f_rnd F) kCopy target seconds expected)
            else if backend = ''xdp-zc'' then multi (xdp_queue (f_rnd F) kZeroCopy target seconds expected)
            else Some ([Err (''unknown backend: '' @ backend)], 1)))"

subsection \<open>The CPU percentage\<close>

context ieee_rounding
begin

text \<open>Three roundings of a quotient of rounded numbers cost a relative error of \<open>10 ^ -11\<close> at most.\<close>

lemma rounded_share:
  assumes "0 \<le> u" and "0 < t"
  shows "\<bar>rnd (rnd (100 * rnd u) / rnd t) - 100 * u / t\<bar> \<le> 100 * u / t / 10 ^ 11"
proof -
  let ?e = "1 / 2 ^ 53 :: real"
  have t0: "0 < t * (1 - ?e)" using assms(2) by simp
  have lo_t: "t * (1 - ?e) \<le> rnd t" and hi_t: "rnd t \<le> t * (1 + ?e)"
    using rnd_lower [of t] rnd_upper [of t] assms(2) by simp_all
  have u0: "0 \<le> rnd u" and lo_u: "u * (1 - ?e) \<le> rnd u" and hi_u: "rnd u \<le> u * (1 + ?e)"
    using rnd_nonneg [of u] rnd_lower [of u] rnd_upper [of u] assms(1) by simp_all
  let ?m = "rnd (100 * rnd u)"
  have m0: "0 \<le> ?m" and lo_m: "100 * rnd u * (1 - ?e) \<le> ?m" and hi_m: "?m \<le> 100 * rnd u * (1 + ?e)"
    using rnd_nonneg [of "100 * rnd u"] rnd_lower [of "100 * rnd u"] rnd_upper [of "100 * rnd u"] u0 by simp_all
  have hi: "?m \<le> 100 * u * (1 + ?e) ^ 2" and lo: "100 * u * (1 - ?e) ^ 2 \<le> ?m"
    using order_trans [OF hi_m, of "100 * u * (1 + ?e) ^ 2"] order_trans [OF _ lo_m, of "100 * u * (1 - ?e) ^ 2"] hi_u lo_u
    by (simp_all add: power2_eq_square)
  let ?q = "?m / rnd t"
  have q0: "0 \<le> ?q" using m0 lo_t t0 by simp
  have "?q \<le> (100 * u * (1 + ?e) ^ 2) / (t * (1 - ?e))"
    using hi m0 lo_t t0 by (intro frac_le) simp_all
  then have hi_q: "?q \<le> 100 * u / t * ((1 + ?e) ^ 2 / (1 - ?e))" by simp
  have "(100 * u * (1 - ?e) ^ 2) / (t * (1 + ?e)) \<le> ?q"
    using lo m0 hi_t lo_t t0 assms(1) by (intro frac_le) simp_all
  then have lo_q: "100 * u / t * ((1 - ?e) ^ 2 / (1 + ?e)) \<le> ?q" by simp
  have s0: "0 \<le> 100 * u / t" using assms by simp
  have "rnd ?q \<le> 100 * u / t * ((1 + ?e) ^ 2 / (1 - ?e) * (1 + ?e))"
    using rnd_upper [OF q0] mult_right_mono [OF hi_q, of "1 + ?e"] by (simp add: mult.assoc)
  also have "\<dots> \<le> 100 * u / t * (1 + 1 / 10 ^ 11)"
    by (rule mult_left_mono [OF _ s0]) (simp add: power2_eq_square)
  finally have up: "rnd ?q \<le> 100 * u / t * (1 + 1 / 10 ^ 11)" .
  have "100 * u / t * (1 - 1 / 10 ^ 11) \<le> 100 * u / t * ((1 - ?e) ^ 2 / (1 + ?e) * (1 - ?e))"
    by (rule mult_left_mono [OF _ s0]) (simp add: power2_eq_square)
  also have "\<dots> \<le> rnd ?q"
    using rnd_lower [OF q0] mult_right_mono [OF lo_q, of "1 - ?e"] by (simp add: mult.assoc)
  finally show ?thesis using up by (simp add: abs_le_iff right_diff_distrib distrib_left)
qed

end

subsection \<open>Totals\<close>

lemma add_results:
  "total_packets (fold (add_result rnd) rs t) = total_packets t + sum_list (map q_packets rs)"
  "total_bytes (fold (add_result rnd) rs t) = total_bytes t + sum_list (map q_bytes rs)"
  "total_drops (fold (add_result rnd) rs t) = total_drops t + sum_list (map q_kernel_drops rs)"
  by (induction rs arbitrary: t) (simp_all add: add_result_def add.assoc)

lemma those_map: "those (map f xs) = Some ys \<longleftrightarrow> map f xs = map Some ys"
proof (induction xs arbitrary: ys)
  case (Cons x xs)
  then show ?case by (cases ys) (auto split: option.splits)
qed auto

context packet_io
begin

lemma mq_loop_totals:
  "mq_loop rnd cpu recv kdrops seconds expected turns st s = Some (Inr (r, st')) \<Longrightarrow>
     all_ok (map t_kernel turns) kBatchSize st \<Longrightarrow>
     q_packets r - packets (stats st') = mq_packets s - packets (stats st) \<and>
     q_bytes r - bytes (stats st') = mq_bytes s - bytes (stats st) \<and>
     kdrops st' = Inr (q_kernel_drops r)"
proof (induction turns arbitrary: st s)
  case (Cons turn turns)
  obtain fs st1 where recv: "recv (t_kernel turn) kBatchSize st = Inr (fs, st1)"
    using Cons.prems(1) by (auto split: sum.splits)
  have ok: "ok (t_kernel turn) kBatchSize st" "all_ok (map t_kernel turns) kBatchSize st1"
    using Cons.prems(2) recv by simp_all
  have stats: "packets (stats st1) = packets (stats st) + of_nat (length fs)"
    "bytes (stats st1) = bytes (stats st) + sum_list (map len fs)"
    using recv_counts [OF ok(1) recv] by (simp_all add: count_frames_def)
  let ?start = "if fs \<noteq> [] \<and> mq_start s = None
    then Some (t_first turn, read_cpu_times cpu (t_stat_first turn)) else mq_start s"
  show ?case
  proof (cases ?start)
    case None
    then have "fs = []" by (auto split: if_splits)
    then show ?thesis using Cons.IH [OF _ ok(2), of s] Cons.prems(1) recv stats None by simp
  next
    case (Some sc)
    obtain start cpu_start where sc: "sc = (start, cpu_start)" by fastforce
    let ?s1 = "s\<lparr>mq_start := Some (start, cpu_start), mq_packets := mq_packets s + of_nat (length fs),
      mq_bytes := mq_bytes s + sum_list (map len fs)\<rparr>"
    have loop: "mq_loop rnd cpu recv kdrops seconds expected (turn # turns) st s =
      (if expected \<noteq> 0 \<and> mq_packets ?s1 \<ge> expected \<or> d_ge (d_seconds rnd (t_now turn - start)) seconds then
         (case kdrops st1 of Inl e \<Rightarrow> Some (Inl e)
          | Inr d \<Rightarrow> Some (Inr (queue_result rnd ?s1 (d_seconds rnd (t_now turn - start)) cpu_start
              (read_cpu_times cpu (t_stat_end turn)) d, st1)))
       else mq_loop rnd cpu recv kdrops seconds expected turns st1 ?s1)"
      by (simp only: mq_loop.simps recv Some sc sum.case prod.case option.case Let_def)
    have diff: "mq_packets ?s1 - packets (stats st1) = mq_packets s - packets (stats st)"
      "mq_bytes ?s1 - bytes (stats st1) = mq_bytes s - bytes (stats st)"
      using stats by simp_all
    from Cons.prems(1) [unfolded loop] diff Cons.IH [OF _ ok(2), of ?s1] show ?thesis
      by (auto simp: queue_result_def split: if_split_asm sum.split_asm)
  qed
qed simp

end

end
