(* ===== verification/Validate_Main.thy ===== *)
theory Validate_Main
  imports Validate Rx_Bench
begin

section \<open>falcon-validate on its backends (receive, transmit and main of bench/validate.cpp)\<close>

text \<open>
  The validator around its loop: the receiver that fetches batches of up to 256 frames from a
  backend until its deadline, the sender with its socket, and \<open>main\<close>. A turn is the clock at the
  loop's test, what the kernel does in \<open>recv\<close> and what the caller then reads through the frames.
  Running out of memory is not modelled.

  The lemmas show that the loop over a backend is the loop over the batches it returned, so that
  the verdict of theory \<open>Validate\<close> applies, and which datagrams a sender that succeeds has sent.
\<close>

definition kValidateBatch :: nat where "kValidateBatch = 256"

record ('w, 'st) val_turn =
  v_now :: int
  v_kernel :: 'w
  v_memory :: "'st \<Rightarrow> Frame \<Rightarrow> bytes"

datatype val_end = V_fault | V_running | V_throws string | V_done tally

fun validate_loop :: "FrameLayer \<Rightarrow> ('w, 'st) receiver \<Rightarrow> u64 \<Rightarrow> int \<Rightarrow> ('w, 'st) val_turn list \<Rightarrow> 'st \<Rightarrow> tally \<Rightarrow> val_end" where
  "validate_loop layer recv expected deadline [] st t = V_running"
| "validate_loop layer recv expected deadline (turn # turns) st t =
     (if v_now turn < deadline \<and> valid t < expected then
        (case recv (v_kernel turn) kValidateBatch st of
           Inl e \<Rightarrow> V_throws e
         | Inr (fs, st') \<Rightarrow>
             (case receive_batch layer expected (map (v_memory turn st') fs) t of
                None \<Rightarrow> V_fault
              | Some t' \<Rightarrow> validate_loop layer recv expected deadline turns st' t'))
      else V_done t)"

datatype val_outcome = O_fault | O_running | O_exit int "message list"

text \<open>
  \<open>receive\<close> with its constructor, for a deadline 30 seconds after \<open>t0\<close>. The report of theory
  \<open>Validate\<close> is one string with its newlines.
\<close>

definition validate_receive :: "FrameLayer \<Rightarrow> string + 'obj \<Rightarrow> ('obj \<Rightarrow> 'st) \<Rightarrow> ('w, 'st) receiver \<Rightarrow> u64 \<Rightarrow> int \<Rightarrow>
    ('w, 'st) val_turn list \<Rightarrow> val_outcome" where
  "validate_receive layer made state recv expected t0 turns =
     (case made of
        Inl e \<Rightarrow> O_exit 1 [Err (''falcon-validate: '' @ e)]
      | Inr b \<Rightarrow>
          (case validate_loop layer recv expected (t0 + 30 * 1000000000) turns (state b) (start_tally expected) of
             V_fault \<Rightarrow> O_fault
           | V_running \<Rightarrow> O_running
           | V_throws e \<Rightarrow> O_exit 1 [Err (''falcon-validate: '' @ e)]
           | V_done t \<Rightarrow>
               O_exit (if expected - valid t = 0 \<and> duplicates t = 0 \<and> invalid t = 0 then 0 else 2) [Out (report expected t)]))"

subsection \<open>The sender\<close>

record vtx_env =
  vt_socket :: int
  vt_bind_device :: int
  vt_pton :: "string \<Rightarrow> u32 option"
  vt_bind :: int
  vt_sendto :: "nat \<Rightarrow> int"
  vt_strerror :: string

text \<open>The datagrams that leave before the first failing \<open>sendto\<close>, and whether all did.\<close>

fun send_all :: "(nat \<Rightarrow> int) \<Rightarrow> nat \<Rightarrow> bytes list \<Rightarrow> bytes list \<times> bool" where
  "send_all sendto i [] = ([], True)"
| "send_all sendto i (d # ds) =
     (if sendto i \<noteq> 16 then ([], False) else (case send_all sendto (Suc i) ds of (sent, ok) \<Rightarrow> (d # sent, ok)))"

definition validate_transmit :: "vtx_env \<Rightarrow> string \<Rightarrow> string \<Rightarrow> string \<Rightarrow> u64 \<Rightarrow>
    call list \<times> bytes list \<times> (string + message list)" where
  "validate_transmit E ifname source destination n =
     (let fd = vt_socket E; err = vt_strerror E
      in if fd < 0 then ([], [], Inl (''socket failed: '' @ err))
         else if vt_bind_device E < 0 then ([Open_fd fd], [], Inl (''SO_BINDTODEVICE failed: '' @ err))
         else if vt_pton E source = None \<or> vt_bind E < 0 then ([Open_fd fd], [], Inl (''bind source failed: '' @ err))
         else if vt_pton E destination = None then ([Open_fd fd], [], Inl ''invalid destination address'')
         else (case send_all (vt_sendto E) 0 (transmit n) of
                 (sent, False) \<Rightarrow> ([Open_fd fd], sent, Inl (''sendto failed: '' @ err))
               | (sent, True) \<Rightarrow> ([Open_fd fd, Close_fd fd], sent, Inr [Out (''sent,'' @ dec (unat n))])))"

subsection \<open>main\<close>

record ('p, 'c) val_host =
  vh_t0 :: int
  vh_tx :: vtx_env
  vh_socket :: socket_env
  vh_socket_turns :: "(socket_world, socket_backend) val_turn list"
  vh_packet :: packet_env
  vh_packet_turns :: "(waits, af_packet) val_turn list"
  vh_xsk :: "('p, 'c) xsk_ops"
  vh_xdp :: "('p, 'c) xdp_env"
  vh_xdp_turns :: "(int \<times> ('p \<times> 'c \<Rightarrow> 'p \<times> 'c), ('p, 'c) af_xdp) val_turn list"

definition val_usage :: "message list" where
  "val_usage = map Err
     [''usage: falcon-validate tx <iface> <src-ip> <dst-ip> <count>'',
      ''       falcon-validate socket <port> <count>'',
      ''       falcon-validate packet|xdp|xdp-zc <iface> <count>'']"

definition val_receive_xdp :: "('p, 'c) val_host \<Rightarrow> AfXdpMode \<Rightarrow> string \<Rightarrow> u64 \<Rightarrow> val_outcome" where
  "val_receive_xdp H mode target n =
     validate_receive kL2Ethernet (snd (AfXdpBackend (vh_xsk H) (vh_xdp H) target mode False 0)) xo_backend
       (xdp_recv (vh_xsk H)) n (vh_t0 H) (vh_xdp_turns H)"

definition val_receive_packet :: "('p, 'c) val_host \<Rightarrow> string \<Rightarrow> u64 \<Rightarrow> val_outcome" where
  "val_receive_packet H target n =
     validate_receive kL2Ethernet (snd (AfPacketBackend (vh_packet H) target)) po_backend ap_recv n (vh_t0 H)
       (vh_packet_turns H)"

definition val_receive_socket :: "('p, 'c) val_host \<Rightarrow> string \<Rightarrow> u64 \<Rightarrow> val_outcome" where
  "val_receive_socket H target n =
     validate_receive kL4Payload (snd (SocketBackend (vh_socket H) (ucast (strtoul target)))) so_backend socket_recv n
       (vh_t0 H) (vh_socket_turns H)"

definition val_main :: "('p, 'c) val_host \<Rightarrow> string list \<Rightarrow> val_outcome" where
  "val_main H argv =
     (if length argv = 6 \<and> argv ! 1 = ''tx'' then
        (case validate_transmit (vh_tx H) (argv ! 2) (argv ! 3) (argv ! 4) (strtoull (argv ! 5)) of
           (calls, sent, Inl e) \<Rightarrow> O_exit 1 [Err (''falcon-validate: '' @ e)]
         | (calls, sent, Inr msgs) \<Rightarrow> O_exit 0 msgs)
      else if length argv \<noteq> 4 then O_exit 1 val_usage
      else
        (let backend = argv ! 1; target = argv ! 2; n = strtoull (argv ! 3)
         in if backend = ''socket'' then val_receive_socket H target n
            else if backend = ''packet'' then val_receive_packet H target n
            else if backend = ''xdp'' then val_receive_xdp H kCopy target n
            else if backend = ''xdp-zc'' then val_receive_xdp H kZeroCopy target n
            else O_exit 1 [Err (''unknown backend: '' @ backend)]))"

subsection \<open>The loop over a backend\<close>

text \<open>What the calls of \<open>recv\<close> returned, as the caller reads it.\<close>

fun val_batches :: "('w, 'st) receiver \<Rightarrow> ('w, 'st) val_turn list \<Rightarrow> 'st \<Rightarrow> bytes list list" where
  "val_batches recv [] st = []"
| "val_batches recv (turn # turns) st =
     (case recv (v_kernel turn) kValidateBatch st of
        Inl e \<Rightarrow> []
      | Inr (fs, st') \<Rightarrow> map (v_memory turn st') fs # val_batches recv turns st')"

text \<open>The loop over the backend is the loop over the batches up to where it stopped.\<close>

lemma validate_loop_receive:
  "validate_loop layer recv expected deadline turns st t = V_done t' \<Longrightarrow>
     \<exists>n. receive_loop layer expected (take n (val_batches recv turns st)) t = Some t'"
proof (induction turns arbitrary: st t)
  case (Cons turn turns)
  show ?case
  proof (cases "v_now turn < deadline \<and> valid t < expected")
    case True
    then obtain fs st1 t1 where recv: "recv (v_kernel turn) kValidateBatch st = Inr (fs, st1)"
      and step: "receive_batch layer expected (map (v_memory turn st1) fs) t = Some t1"
      and "validate_loop layer recv expected deadline turns st1 t1 = V_done t'"
      using Cons.prems by (auto split: sum.splits option.splits)
    from Cons.IH [OF this(3)] obtain n where
      "receive_loop layer expected (take n (val_batches recv turns st1)) t1 = Some t'" by blast
    with True recv step show ?thesis by (intro exI [of _ "Suc n"]) simp
  next
    case False
    then have "validate_loop layer recv expected deadline (turn # turns) st t = V_done t" by auto
    then show ?thesis using Cons.prems by (intro exI [of _ 0]) simp
  qed
qed simp

subsection \<open>What a sender that succeeds has sent\<close>

lemma send_all_prefix: "\<exists>k. fst (send_all sendto i ds) = take k ds"
proof (induction ds arbitrary: i)
  case (Cons d ds)
  then obtain k where "fst (send_all sendto (Suc i) ds) = take k ds" by blast
  then show ?case
    by (cases "sendto i \<noteq> 16") (auto simp: case_prod_beta intro: exI [of _ 0] exI [of _ "Suc k"])
qed simp

lemma send_all_ok: "send_all sendto i ds = (sent, True) \<Longrightarrow> sent = ds"
  by (induction ds arbitrary: i sent) (auto split: if_splits prod.splits)

lemma validate_transmit_ok:
  assumes "validate_transmit E ifname source destination n = (calls, sent, Inr msgs)"
  shows "sent = transmit n \<and> held calls = {} \<and> msgs = [Out (''sent,'' @ dec (unat n))]"
  using assms unfolding validate_transmit_def Let_def
  by (auto dest: send_all_ok split: if_split_asm prod.split_asm bool.split_asm)

end
