(* ===== verification/Suite_Properties.thy ===== *)
theory Suite_Properties
  imports Bench_Properties Bench_Main Rx_Bench_Mq Validate_Main
begin

section \<open>Properties of the benchmark programs\<close>

text \<open>
  The theorems about the four programs of \<open>benchmark/bench\<close> and about the life of their backends:
  what they acquire and give back, what they report, when they end.
\<close>

subsection \<open>The backends' resources\<close>

text \<open>C31: a backend's destructor gives back everything its constructor acquired. The AF\_XDP constructor
  that throws has given everything back too, unless it is the fill ring that could not be filled: then
  the program stays attached and the memory, the socket and the BPF object stay allocated. The other
  two leave the socket open whenever they throw after opening it.\<close>

theorem backend_setup_resources:
  "(SocketBackend SE port = (calls, Inr so) \<longrightarrow> held (calls @ destroy_socket so) = {}) \<and>
   (AfPacketBackend PE ifname = (calls, Inr po) \<longrightarrow> held (calls @ destroy_packet po) = {}) \<and>
   (AfXdpBackend X XE ifname mode generic q = (calls, Inr xo) \<longrightarrow> held (calls @ destroy_xdp xo) = {}) \<and>
   (AfXdpBackend X XE ifname mode generic q = (calls, Inl e) \<longrightarrow>
      held calls = {} \<or> fill_all X (xe_fill_ring XE) = None \<and>
        held calls = {Object, Xdp (xe_nametoindex XE ifname) generic, Umem_buffer, Umem, Xsk}) \<and>
   (SocketBackend SE port = (calls, Inl e) \<and> 0 \<le> se_socket SE \<longrightarrow> Fd (se_socket SE) \<in> held calls) \<and>
   (AfPacketBackend PE ifname = (calls, Inl e) \<and> 0 \<le> pe_socket PE \<longrightarrow> Fd (pe_socket PE) \<in> held calls)"
  using socket_lifecycle(2) [of SE port calls so] packet_lifecycle(2) [of PE ifname calls po]
    xdp_lifecycle(2) [of X XE ifname mode generic q calls xo] xdp_throws [of X XE ifname mode generic q calls e]
    socket_throws [of SE port calls e] packet_throws [of PE ifname calls e]
  by auto

definition busy_port :: socket_env where
  "busy_port = \<lparr>se_socket = 3, se_bind = (\<lambda>_. - 1), se_epoll_create = 4, se_epoll_ctl = 0,
     se_strerror = ''Address already in use''\<rparr>"

theorem backend_setup_resources_witness:
  "SocketBackend busy_port 9100 =
     ([Open_fd 3, Set_nonblocking 3], Inl (''bind() failed: '' @ se_strerror busy_port)) \<and>
   Fd 3 \<in> held [Open_fd 3, Set_nonblocking 3]"
proof -
  have run: "SocketBackend busy_port 9100 =
      ([Open_fd 3, Set_nonblocking 3], Inl (''bind() failed: '' @ se_strerror busy_port))"
    by (simp add: SocketBackend_def busy_port_def)
  then show ?thesis
    using backend_setup_resources [of busy_port 9100 "[Open_fd 3, Set_nonblocking 3]"]
    by (auto simp: busy_port_def)
qed

subsection \<open>The throughput benchmark\<close>

lemma run_socket_counters:
  assumes "run_socket H target seconds expected = (calls, msgs, Some (Inr (s, b)))"
    and "\<forall>turn \<in> set (bh_socket_turns H). batches_ok 64 (mmsgs (t_kernel turn))"
  shows "rx_packets s = packets (sock_stats b) \<and> rx_bytes s = bytes (sock_stats b)" and "held calls = {}"
    and "\<exists>pre now. msgs = pre @ rx_report (bh_floats H) expected now 0 s"
proof -
  note run = assms(1) [unfolded run_socket_def]
  show "rx_packets s = packets (sock_stats b) \<and> rx_bytes s = bytes (sock_stats b)"
    using socket_io.rx_run_totals [OF run] socket_lifecycle(4) socket_all_ok [OF assms(2)] by blast
  from run show "held calls = {}" and "\<exists>pre now. msgs = pre @ rx_report (bh_floats H) expected now 0 s"
    by (auto elim!: rx_run_returns dest: socket_lifecycle(2))
qed

lemma run_packet_counters:
  assumes "run_packet H target seconds expected = (calls, msgs, Some (Inr (s, b)))"
  shows "rx_packets s = packets (ap_stats b) \<and> rx_bytes s = bytes (ap_stats b)" and "held calls = {}"
    and "\<exists>pre now d. msgs = pre @ rx_report (bh_floats H) expected now d s \<and>
      packet_kernel_drops (bh_packet_stats H) = Inr d"
proof -
  note run = assms(1) [unfolded run_packet_def]
  show "rx_packets s = packets (ap_stats b) \<and> rx_bytes s = bytes (ap_stats b)"
    using af_packet_io.rx_run_totals [OF run] packet_lifecycle(3) all_ok_True [OF af_packet_io.packet_io_axioms] by blast
  from run show "held calls = {}" and "\<exists>pre now d. msgs = pre @ rx_report (bh_floats H) expected now d s \<and>
      packet_kernel_drops (bh_packet_stats H) = Inr d"
    by (auto elim!: rx_run_returns dest: packet_lifecycle(2))
qed

lemma run_xdp_counters:
  assumes "run_xdp H mode target seconds expected = (calls, msgs, Some (Inr (s, b)))" and "xsk_rings (bh_xsk H) fv rv"
  shows "rx_packets s = packets (xdp_stats b) \<and> rx_bytes s = bytes (xdp_stats b)" and "held calls = {}"
    and "\<exists>pre now d. msgs = pre @ rx_report (bh_floats H) expected now d s \<and> xdp_kernel_drops (bh_xdp_stats H) = Inr d"
proof -
  note run = assms(1) [unfolded run_xdp_def] and io = xsk_rings.xdp_packet_io [OF assms(2)]
  show "rx_packets s = packets (xdp_stats b) \<and> rx_bytes s = bytes (xdp_stats b)"
    using packet_io.rx_run_totals [OF io run] xdp_lifecycle(3) all_ok_True [OF io] by blast
  from run show "held calls = {}" and "\<exists>pre now d. msgs = pre @ rx_report (bh_floats H) expected now d s \<and>
      xdp_kernel_drops (bh_xdp_stats H) = Inr d"
    by (auto elim!: rx_run_returns dest: xdp_lifecycle(2))
qed

text \<open>C32: a run of \<open>falcon-rxbench\<close> that returns reports exactly its backend's counters, for each of
  the three backends: the packets and bytes it counted are those the backend handed out, the report is
  the last thing it prints, and the backend has been destroyed.\<close>

theorem rx_run_reports_counters:
  "(run_socket H target seconds expected = (calls, msgs, Some (Inr (s, sb))) \<and>
    (\<forall>turn \<in> set (bh_socket_turns H). batches_ok 64 (mmsgs (t_kernel turn))) \<longrightarrow>
      rx_packets s = packets (sock_stats sb) \<and> rx_bytes s = bytes (sock_stats sb) \<and> held calls = {} \<and>
      (\<exists>pre now. msgs = pre @ rx_report (bh_floats H) expected now 0 s)) \<and>
   (run_packet H target seconds expected = (calls, msgs, Some (Inr (s, pb))) \<longrightarrow>
      rx_packets s = packets (ap_stats pb) \<and> rx_bytes s = bytes (ap_stats pb) \<and> held calls = {} \<and>
      (\<exists>pre now d. msgs = pre @ rx_report (bh_floats H) expected now d s \<and>
         packet_kernel_drops (bh_packet_stats H) = Inr d)) \<and>
   (run_xdp H mode target seconds expected = (calls, msgs, Some (Inr (s, xb))) \<and> xsk_rings (bh_xsk H) fv rv \<longrightarrow>
      rx_packets s = packets (xdp_stats xb) \<and> rx_bytes s = bytes (xdp_stats xb) \<and> held calls = {} \<and>
      (\<exists>pre now d. msgs = pre @ rx_report (bh_floats H) expected now d s \<and>
         xdp_kernel_drops (bh_xdp_stats H) = Inr d))"
  using run_socket_counters [of H target seconds expected calls msgs s sb]
    run_packet_counters [of H target seconds expected calls msgs s pb]
    run_xdp_counters [of H mode target seconds expected calls msgs s xb fv rv]
  by blast

definition first_batch :: "socket_world turn" where
  "first_batch = \<lparr>t_kernel = \<lparr>epoll_ready = 1, mmsgs = [Got [[1, 2], [3]]]\<rparr>, t_first = 5, t_now = 9\<rparr>"

definition exact_floats :: floats where
  "exact_floats = \<lparr>f_rnd = (\<lambda>x. x), f_show = (\<lambda>_ _. ''0'')\<rparr>"

definition free_port :: socket_env where
  "free_port = \<lparr>se_socket = 3, se_bind = (\<lambda>_. 0), se_epoll_create = 4, se_epoll_ctl = 0, se_strerror = ''''\<rparr>"

definition no_packet :: packet_env where
  "no_packet = \<lparr>pe_socket = - 1, pe_version = 0, pe_nametoindex = (\<lambda>_. 1), pe_bind = (\<lambda>_. 0), pe_filter = 0,
     pe_rx_ring = 0, pe_mmap = None, pe_epoll_create = 4, pe_epoll_ctl = 0, pe_strerror = ''''\<rparr>"

definition no_xdp :: "(u64 list \<times> u64 list, xdp_desc list) xdp_env" where
  "no_xdp = \<lparr>xe_nametoindex = (\<lambda>_. 0), xe_open = 0, xe_load = 0, xe_program = True, xe_map = True,
     xe_attach = (\<lambda>_ _. 0), xe_memalign = 0, xe_umem_create = 0, xe_xsk_create = (\<lambda>_ _ _. 0),
     xe_update_xskmap = 0, xe_errno = 0, xe_strerror = (\<lambda>_. ''''), xe_fill_ring = ([], []), xe_rx_ring = []\<rparr>"

definition socket_host :: "(u64 list \<times> u64 list, xdp_desc list) bench_host" where
  "socket_host = \<lparr>bh_atof = (\<lambda>_. Fin 3), bh_floats = exact_floats, bh_socket = free_port,
     bh_socket_turns = [first_batch], bh_packet = no_packet, bh_packet_turns = [], bh_packet_stats = Inr 0,
     bh_xsk = list_rings, bh_xdp = no_xdp, bh_xdp_turns = [], bh_xdp_stats = Inr (0, 0)\<rparr>"

theorem rx_run_reports_counters_witness:
  "\<exists>calls msgs s sb. run_socket socket_host ''9100'' (Fin 3) 2 = (calls, msgs, Some (Inr (s, sb))) \<and>
     rx_packets s = 2 \<and> rx_packets s = packets (sock_stats sb) \<and> rx_bytes s = bytes (sock_stats sb) \<and> held calls = {}"
proof -
  have "\<exists>calls msgs s sb. run_socket socket_host ''9100'' (Fin 3) 2 = (calls, msgs, Some (Inr (s, sb))) \<and> rx_packets s = 2"
    by (simp add: run_socket_def rx_run_def socket_host_def first_batch_def free_port_def exact_floats_def
        SocketBackend_def socket_recv_def kBATCH_def kBatchSize_def rx_init_def rx_begin_def rx_count_def
        rx_window_def rx_done_def d_seconds_def d_of_int_def Let_def)
  then obtain calls msgs s sb where run: "run_socket socket_host ''9100'' (Fin 3) 2 = (calls, msgs, Some (Inr (s, sb)))"
    and two: "rx_packets s = 2" by blast
  have "\<forall>turn \<in> set (bh_socket_turns socket_host). batches_ok 64 (mmsgs (t_kernel turn))"
    by (simp add: socket_host_def first_batch_def batches_ok_def)
  with run rx_run_reports_counters [of socket_host "''9100''" "Fin 3" 2 calls msgs s sb] two show ?thesis by blast
qed

text \<open>C33: once the first frame has arrived, a run of the throughput benchmark ends at the latest in the
  turn whose clock shows that its duration has passed, whatever the backend returns and whatever the
  arithmetic rounds; but as long as no frame arrives it does not end, however much time passes, and
  prints nothing.\<close>

theorem rx_run_ends:
  assumes "ieee_rounding (f_rnd F)"
  shows "(rx_started s \<and> turn \<in> set turns \<and> f_rnd F secs = secs \<and> \<bar>t_now turn - rx_start s\<bar> < 2 ^ 53 \<and>
      secs * 1000000000 \<le> of_int (t_now turn - rx_start s) \<longrightarrow>
      snd (rx_loop F recv kdrops (Fin secs) expected turns st s) \<noteq> None) \<and>
    ((\<forall>turn \<in> set turns. \<forall>st. \<exists>st'. recv (t_kernel turn) kBatchSize st = Inr ([], st')) \<longrightarrow>
      rx_loop F recv kdrops seconds expected turns st rx_init = ([], None))"
proof (intro conjI impI)
  assume h: "rx_started s \<and> turn \<in> set turns \<and> f_rnd F secs = secs \<and> \<bar>t_now turn - rx_start s\<bar> < 2 ^ 53 \<and>
    secs * 1000000000 \<le> of_int (t_now turn - rx_start s)"
  then have "d_ge (d_seconds (f_rnd F) (t_now turn - rx_start s)) (Fin secs)"
    using ieee_rounding.d_seconds_ge [OF assms, of "t_now turn - rx_start s" secs] by simp
  with h show "snd (rx_loop F recv kdrops (Fin secs) expected turns st s) \<noteq> None"
    by (intro rx_loop_ends) auto
next
  assume "\<forall>turn \<in> set turns. \<forall>st. \<exists>st'. recv (t_kernel turn) kBatchSize st = Inr ([], st')"
  then show "rx_loop F recv kdrops seconds expected turns st rx_init = ([], None)"
    by (intro rx_loop_waits) (simp_all add: rx_init_def)
qed

definition binary_floats :: floats where
  "binary_floats = \<lparr>f_rnd = binary64, f_show = (\<lambda>_ _. ''0'')\<rparr>"

definition idle_turn :: "int \<Rightarrow> socket_world turn" where
  "idle_turn t = \<lparr>t_kernel = \<lparr>epoll_ready = 0, mmsgs = []\<rparr>, t_first = t, t_now = t\<rparr>"

lemma idle_turn_recv: "\<exists>b'. socket_recv (t_kernel (idle_turn t)) kBatchSize b = Inr ([], b')"
  by (simp add: idle_turn_def socket_recv_def)

theorem rx_run_ends_witness:
  "snd (rx_loop binary_floats socket_recv (\<lambda>_. Inr 0) (Fin 3) 0 [idle_turn 1, idle_turn 4000000000] empty_socket
      (rx_init\<lparr>rx_started := True\<rparr>)) \<noteq> None \<and>
   rx_loop binary_floats socket_recv (\<lambda>_. Inr 0) (Fin 3) 0 [idle_turn 1, idle_turn 4000000000] empty_socket rx_init =
     ([], None)"
proof -
  let ?turns = "[idle_turn 1, idle_turn 4000000000]"
  have ieee: "ieee_rounding (f_rnd binary_floats)"
    by (simp add: binary_floats_def binary64.ieee_rounding_axioms)
  have three: "f_rnd binary_floats 3 = 3"
    using binary64.rnd_int [of 3] by (simp add: binary_floats_def)
  have late: "rx_started (rx_init\<lparr>rx_started := True\<rparr>) \<and> idle_turn 4000000000 \<in> set ?turns \<and>
      \<bar>t_now (idle_turn 4000000000) - rx_start (rx_init\<lparr>rx_started := True\<rparr>)\<bar> < 2 ^ 53 \<and>
      3 * 1000000000 \<le> real_of_int (t_now (idle_turn 4000000000) - rx_start (rx_init\<lparr>rx_started := True\<rparr>))"
    by (simp add: idle_turn_def rx_init_def)
  have idle: "\<forall>turn \<in> set ?turns. \<forall>b. \<exists>b'. socket_recv (t_kernel turn) kBatchSize b = Inr ([], b')"
    using idle_turn_recv by simp
  show ?thesis
    using rx_run_ends [OF ieee, of "rx_init\<lparr>rx_started := True\<rparr>" "idle_turn 4000000000" ?turns 3 socket_recv
        "\<lambda>_. Inr 0" 0 empty_socket "Fin 3"] three late idle by blast
qed

subsection \<open>The multi-queue benchmark\<close>

text \<open>The CPU times as numbers that do not wrap.\<close>

definition cpu_ticks :: "CpuTimes \<Rightarrow> nat" where
  "cpu_ticks t = unat (cpu_user t) + unat (cpu_nice t) + unat (cpu_system t) + unat (cpu_idle t) + unat (cpu_iowait t) +
     unat (cpu_irq t) + unat (cpu_softirq t) + unat (cpu_steal t)"

definition idle_ticks :: "CpuTimes \<Rightarrow> nat" where
  "idle_ticks t = unat (cpu_idle t) + unat (cpu_iowait t)"

lemma cpu_total_ticks: "cpu_total t = of_nat (cpu_ticks t)"
  by (simp add: cpu_total_def cpu_ticks_def)

lemma cpu_idle_ticks: "cpu_idle_total t = of_nat (idle_ticks t)"
  by (simp add: cpu_idle_total_def idle_ticks_def)

text \<open>C34: the CPU percentage is right up to a billionth: when the counters have advanced and did not
  overflow, it is 100 times the share of the ticks that were not idle, although the counters are
  subtracted modulo \<open>2 ^ 64\<close> and every step of the quotient is rounded.\<close>

theorem cpu_usage_exact:
  assumes "ieee_rounding rnd"
    and "cpu_ticks before < cpu_ticks after" and "cpu_ticks after < cpu_ticks before + 2 ^ 64"
    and "idle_ticks before \<le> idle_ticks after"
    and "idle_ticks after - idle_ticks before \<le> cpu_ticks after - cpu_ticks before"
  defines "all_ticks \<equiv> cpu_ticks after - cpu_ticks before"
  defines "busy \<equiv> all_ticks - (idle_ticks after - idle_ticks before)"
  shows "\<exists>x. cpu_usage_percent rnd before after = Fin x \<and> \<bar>x - 100 * real busy / real all_ticks\<bar> \<le> 1 / 10 ^ 9"
proof -
  have pos: "0 < all_ticks" "all_ticks < 2 ^ 64" "busy \<le> all_ticks" using assms by simp_all
  have all_delta: "cpu_total after - cpu_total before = of_nat all_ticks"
    using assms(2) by (simp add: cpu_total_ticks all_ticks_def of_nat_diff)
  have idle: "cpu_idle_total after - cpu_idle_total before = of_nat (idle_ticks after - idle_ticks before)"
    using assms(4) by (simp add: cpu_idle_ticks of_nat_diff)
  have busy: "of_nat all_ticks - of_nat (idle_ticks after - idle_ticks before) = (of_nat busy :: u64)"
    using assms(5) by (simp only: busy_def all_ticks_def of_nat_diff)
  have un: "unat (of_nat all_ticks :: u64) = all_ticks" "unat (of_nat busy :: u64) = busy"
    using pos by (simp_all add: unat_of_nat)
  then have nz: "(of_nat all_ticks :: u64) \<noteq> 0" using pos(1) by (metis unat_0 less_irrefl)
  let ?share = "100 * real busy / real all_ticks"
  let ?x = "rnd (rnd (100 * rnd (real busy)) / rnd (real all_ticks))"
  have "rnd (real all_ticks) \<noteq> 0"
    using ieee_rounding.rnd_lower [OF assms(1), of "real all_ticks"] pos(1) by auto
  then have "cpu_usage_percent rnd before after = Fin ?x"
    unfolding cpu_usage_percent_def Let_def all_delta idle busy
    using nz un by (simp add: d_of_u64_def)
  moreover have "\<bar>?x - ?share\<bar> \<le> ?share / 10 ^ 11"
    using ieee_rounding.rounded_share [OF assms(1), of "real busy" "real all_ticks"] pos(1) by simp
  moreover have "?share \<le> 100" using pos by (simp add: field_simps)
  ultimately show ?thesis by (intro exI [of _ ?x]) simp
qed

definition cpu_sample :: "u64 \<Rightarrow> u64 \<Rightarrow> CpuTimes" where
  "cpu_sample user idle = no_times\<lparr>cpu_user := user, cpu_idle := idle\<rparr>"

theorem cpu_usage_exact_witness:
  "\<exists>x. cpu_usage_percent binary64 (cpu_sample 10 90) (cpu_sample 40 160) = Fin x \<and> \<bar>x - 30\<bar> \<le> 1 / 10 ^ 9"
proof -
  have t: "cpu_ticks (cpu_sample 10 90) = 100" "cpu_ticks (cpu_sample 40 160) = 200"
    "idle_ticks (cpu_sample 10 90) = 90" "idle_ticks (cpu_sample 40 160) = 160"
    by (simp_all add: cpu_ticks_def idle_ticks_def cpu_sample_def no_times_def)
  show ?thesis
    using cpu_usage_exact [OF binary64.ieee_rounding_axioms, of "cpu_sample 10 90" "cpu_sample 40 160"]
    unfolding t by simp
qed

text \<open>C35: when no \<open>pipe\<close> fails, the multi-queue benchmark's totals are the sums over its queues, where a
  queue whose process could not be started or threw counts as zero, and its exit code is 0 whatever
  became of the queues.\<close>

theorem mq_totals_add_up:
  assumes "run_multi F pipe_error children expected n = Some (msgs, rc)" and "\<forall>q < n. pipe_error q = None"
  shows "rc = 0 \<and> (\<exists>rs pre. length rs = n \<and>
    (\<forall>q < n. rs ! q = (case children q of Child (Some (Inr r)) \<Rightarrow> r | _ \<Rightarrow> no_result)) \<and>
    msgs = pre @ totals_lines F expected n (fold (add_result (f_rnd F)) rs no_totals) \<and>
    total_packets (fold (add_result (f_rnd F)) rs no_totals) = sum_list (map q_packets rs) \<and>
    total_bytes (fold (add_result (f_rnd F)) rs no_totals) = sum_list (map q_bytes rs) \<and>
    total_drops (fold (add_result (f_rnd F)) rs no_totals) = sum_list (map q_kernel_drops rs))"
proof -
  have none: "List.find (\<lambda>q. pipe_error q \<noteq> None) [0..<n] = None"
    using assms(2) by (simp add: find_None_iff)
  obtain rs where rs: "map (\<lambda>q. read_result (children q)) [0..<n] = map Some rs" and rc: "rc = 0"
    and "\<exists>pre. msgs = pre @ totals_lines F expected n (fold (add_result (f_rnd F)) rs no_totals)"
    using assms(1) none by (auto simp: run_multi_def Let_def bind_eq_Some_conv those_map)
  moreover have len: "length rs = n" using arg_cong [OF rs, of length] by simp
  moreover have "rs ! q = (case children q of Child (Some (Inr r)) \<Rightarrow> r | _ \<Rightarrow> no_result)" if "q < n" for q
  proof -
    have "read_result (children q) = Some (rs ! q)"
      using arg_cong [OF rs, of "\<lambda>l. l ! q"] that len by simp
    then show ?thesis by (cases "children q" rule: read_result.cases) simp_all
  qed
  ultimately show ?thesis by (auto simp: add_results no_totals_def)
qed

theorem mq_totals_add_up_witness:
  "\<exists>msgs rc. run_multi exact_floats (\<lambda>_. None)
      (\<lambda>q. if q = 0 then Child (Some (Inr (no_result\<lparr>q_packets := 7\<rparr>))) else Child (Some (Inl ''bind() failed''))) 10 2 =
     Some (msgs, rc) \<and> rc = 0"
proof -
  let ?children = "\<lambda>q. if q = 0 then Child (Some (Inr (no_result\<lparr>q_packets := 7\<rparr>))) else Child (Some (Inl ''bind() failed''))"
  have upt: "[0..<2] = [0, 1 :: nat]" by (simp add: upt_rec)
  have "\<exists>msgs rc. run_multi exact_floats (\<lambda>_. None) ?children 10 2 = Some (msgs, rc)"
    by (simp add: run_multi_def upt Let_def)
  then obtain msgs rc where run: "run_multi exact_floats (\<lambda>_. None) ?children 10 2 = Some (msgs, rc)" by blast
  with mq_totals_add_up [OF run] show ?thesis by blast
qed

subsection \<open>The latency benchmark\<close>

text \<open>C36: the percentiles are what they claim to be: for every non-empty list of latencies the two
  indices are inside the list, the median and the 99th percentile are latencies that occurred, the
  first is at most the second, at least half of the latencies are at most and at least half are at
  least the median, and about 99 percent are at most the 99th percentile, about one at least it.\<close>

theorem percentiles_correct:
  assumes "ieee_rounding rnd" and "ls \<noteq> []" and "length ls < 2 ^ 48"
  shows "\<exists>p50 p99. percentiles rnd ls = Some (p50, p99) \<and> p50 \<in> set ls \<and> p99 \<in> set ls \<and> p50 \<le> p99 \<and>
    length ls \<le> 2 * length (filter (\<lambda>x. x \<le> p50) ls) \<and> length ls \<le> 2 * length (filter (\<lambda>x. p50 \<le> x) ls) \<and>
    99 / 100 * real (length ls) - 1 / 10 \<le> real (length (filter (\<lambda>x. x \<le> p99) ls)) \<and>
    1 / 100 * real (length ls) - 1 / 10 \<le> real (length (filter (\<lambda>x. p99 \<le> x) ls))"
proof -
  obtain p50 p99 i where perc: "percentiles rnd ls = Some (p50, p99)" "p50 \<le> p99"
    and p50: "p50 = sort ls ! (length ls div 2)" and p99: "p99 = sort ls ! i" and i: "i < length ls"
    and lo: "99 / 100 * real (length ls) - 11 / 10 < real i" and hi: "real i \<le> 99 / 100 * real (length ls) + 1 / 10"
    using ieee_rounding.percentiles_rank [OF assms] by blast
  have half: "length ls div 2 < length ls" using assms(2) by simp
  note rank50 = sort_rank [OF half, folded p50] and rank99 = sort_rank [OF i, folded p99]
  have "sort ls ! k \<in> set ls" if "k < length ls" for k
    using that nth_mem [of k "sort ls"] by simp
  then have "p50 \<in> set ls" "p99 \<in> set ls" using half i p50 p99 by simp_all
  moreover have "length ls \<le> 2 * length (filter (\<lambda>x. x \<le> p50) ls)" "length ls \<le> 2 * length (filter (\<lambda>x. p50 \<le> x) ls)"
    using rank50 by linarith+
  moreover have "99 / 100 * real (length ls) - 1 / 10 \<le> real (length (filter (\<lambda>x. x \<le> p99) ls))"
    using rank99(1) lo by linarith
  moreover have "real (length ls - i) \<le> real (length (filter (\<lambda>x. p99 \<le> x) ls))" using rank99(2) by simp
  then have "1 / 100 * real (length ls) - 1 / 10 \<le> real (length (filter (\<lambda>x. p99 \<le> x) ls))"
    using hi i by (simp add: of_nat_diff)
  ultimately show ?thesis using perc by blast
qed

theorem percentiles_correct_witness:
  "\<exists>p50 p99. percentiles binary64 [30, 10, 20] = Some (p50, p99) \<and> p50 \<in> {10, 20, 30} \<and> p50 \<le> p99"
  using percentiles_correct [OF binary64.ieee_rounding_axioms, of "[30, 10, 20]"] by auto

text \<open>C37: the sender of \<open>falcon-bench\<close> is memory safe in the combined mode. For every command line that
  \<open>main\<close> turns into a benchmark, the sender never writes outside its buffer, what it has sent are the
  well-formed datagrams with the timestamps of its first turns, and when it has ended it has closed
  what it opened.\<close>

theorem bench_sender_safe:
  assumes "bench_args atof netns_exists argv = Bench backend c receiver_only"
    and "tx_thread rnd E c = (calls, stop, r)"
  shows "r_end r \<noteq> Tx_fault \<and> (r_end r = Tx_done \<longrightarrow> held calls = {}) \<and>
    (\<exists>k src_ip dst_ip. r_sent r = map (\<lambda>t.
       if c_raw_tx c then built_frame (c_payload_size c) (x_ts t) (c_port c) src_ip dst_ip
       else udp_content (c_payload_size c) (x_ts t)) (take k (te_turns E)))"
proof -
  have size: "8 \<le> unat (c_payload_size c)" "unat (c_payload_size c) < 2 ^ 32"
    using bench_args_payload [OF assms(1)] by simp_all
  show ?thesis using tx_thread_sends [OF size assms(2)] tx_thread_held [OF assms(2)] by blast
qed

definition two_turns :: "tx_turn list" where
  "two_turns = [\<lparr>x_stop = False, x_ts = 5, x_written = 16, x_now = 1\<rparr>, \<lparr>x_stop = True, x_ts = 6, x_written = 0, x_now = 2\<rparr>]"

definition sender_env :: "tx_turn list \<Rightarrow> tx_env" where
  "sender_env turns = \<lparr>te_open_netns = - 1, te_setns = 0, te_raw_socket = 7, te_nametoindex = (\<lambda>_. 2),
     te_udp_socket = 6, te_bind_device = 0, te_bind = 0, te_pton = (\<lambda>_. Some 0x0100007F), te_garbage = 0,
     te_strerror = '''', te_turns = turns\<rparr>"

theorem bench_sender_safe_witness:
  "\<exists>c calls stop r. bench_args (\<lambda>_. Fin 3) (\<lambda>_. False) [''falcon-bench''] = Bench ''socket'' c False \<and>
     tx_thread binary64 (sender_env two_turns) c = (calls, stop, r) \<and> r_end r \<noteq> Tx_fault"
proof -
  have args: "bench_args (\<lambda>_. Fin 3) (\<lambda>_. False) [''falcon-bench''] = Bench ''socket'' default_cfg False"
    by (simp add: bench_args_def time_args_def sender_args_def known_backend_def check_payload_def default_cfg_def Let_def)
  obtain calls stop r where run: "tx_thread binary64 (sender_env two_turns) default_cfg = (calls, stop, r)"
    by (metis prod_cases3)
  show ?thesis using bench_sender_safe [OF args run] args run by blast
qed

text \<open>C38: the sending mode of \<open>falcon-bench\<close> is not: it takes any payload size, and with raw frames and
  fewer than eight bytes of payload its first frame is written outside the buffer.\<close>

theorem bench_tx_small_payload:
  assumes "n < 8" and "iface \<noteq> []" and "0 \<le> te_raw_socket (ma_tx H)" and "te_nametoindex (ma_tx H) iface \<noteq> 0"
    and "te_turns (ma_tx H) = t # ts" and "\<not> x_stop t"
  shows "snd (snd (bench_main H [prog, ''tx'', ''raw'', port, secs, burst, iface, src, dst, dec n])) = B_fault"
proof -
  have k: "unat (strtoul (dec n)) = n" using assms(1) by (simp add: strtoull_dec unat_of_nat)
  then have size: "unat (14 + 20 + 8 + strtoul (dec n)) = 42 + n"
    using assms(1) by (simp add: unat_add_no_wrap)
  have "build_frame (replicate (42 + n) 0) (strtoul (dec n)) (x_ts t) p a b = None" for p a b
    using build_frame_small_payload [of "strtoul (dec n)" "replicate (42 + n) 0"] assms(1) k by simp
  then show ?thesis
    using assms size
    by (simp add: bench_main_def tx_args_any_payload tx_thread_def tx_raw_def tx_finish_def default_cfg_def Let_def
        del: replicate_add)
qed

definition tx_host :: "(u64 list \<times> u64 list, xdp_desc list) main_host" where
  "tx_host = \<lparr>ma_atof = (\<lambda>_. Fin 3), ma_netns = (\<lambda>_. False), ma_floats = exact_floats,
     ma_times = \<lparr>bt_t0 = 0, bt_t1 = 0, bt_cpu0 = (0, 0), bt_cpu1 = (0, 0), bt_fork = 1, bt_tx_exit_ok = True, bt_strerror = ''''\<rparr>,
     ma_tx = sender_env two_turns, ma_socket = free_port, ma_socket_turns = [], ma_packet = no_packet,
     ma_packet_turns = [], ma_xsk = list_rings, ma_xdp = no_xdp, ma_xdp_turns = []\<rparr>"

theorem bench_tx_small_payload_witness:
  "snd (snd (bench_main tx_host [''falcon-bench'', ''tx'', ''raw'', ''9100'', ''3'', ''1'', ''veth1'', ''10.0.0.2'',
     ''10.0.0.1'', dec 4])) = B_fault"
  by (rule bench_tx_small_payload [where t = "hd two_turns" and ts = "tl two_turns"])
    (simp_all add: tx_host_def sender_env_def two_turns_def)

text \<open>C39: the latencies are those of the sender's timestamps. When the frames of a batch show datagrams
  that the sender of a benchmark has sent (as frames to the backends that read raw frames, as
  payloads to the socket), the receiver never reads outside them, and the latency of each is its
  clock reading minus the timestamp with which it was sent.\<close>

theorem bench_latencies_exact:
  assumes "bench_args atof netns_exists argv = Bench backend c receiver_only"
    and "tx_thread rnd E c = (calls, stop, r)"
    and "\<forall>f \<in> set fs. mem f \<in> set (r_sent r) \<and> len f = of_nat (length (mem f))"
    and "layer = (if c_raw_tx c then kL2Ethernet else kL4Payload)"
  shows "\<exists>stamp. (\<forall>f \<in> set fs. \<exists>t \<in> set (te_turns E). stamp f = x_ts t \<and> frame_ts layer (mem f) (len f) = Some (x_ts t)) \<and>
    batch_latencies layer mem clock 0 fs =
      Some (map (\<lambda>(j, f). clock j - stamp f) (filter (\<lambda>(j, f). stamp f \<noteq> 0) (enumerate 0 fs)))"
proof -
  have size: "8 \<le> unat (c_payload_size c)" "unat (c_payload_size c) < 2 ^ 32"
    using bench_args_payload [OF assms(1)] by simp_all
  obtain k src_ip dst_ip where sent: "r_sent r = map (\<lambda>t.
      if c_raw_tx c then built_frame (c_payload_size c) (x_ts t) (c_port c) src_ip dst_ip
      else udp_content (c_payload_size c) (x_ts t)) (take k (te_turns E))"
    using tx_thread_sends [OF size assms(2)] by blast
  have "\<exists>t \<in> set (te_turns E). frame_ts layer (mem f) (len f) = Some (x_ts t)" if f: "f \<in> set fs" for f
  proof -
    have "mem f \<in> set (r_sent r)" using assms(3) f by blast
    then obtain t where t: "t \<in> set (take k (te_turns E))"
      and "mem f = (if c_raw_tx c then built_frame (c_payload_size c) (x_ts t) (c_port c) src_ip dst_ip
        else udp_content (c_payload_size c) (x_ts t))"
      unfolding sent set_map by (elim imageE)
    then have "frame_ts layer (mem f) (len f) = Some (x_ts t)"
      using assms(3,4) f built_frame_ts [OF size] udp_content_ts by (cases "c_raw_tx c") auto
    with t show ?thesis by (meson in_set_takeD)
  qed
  then have stamped: "\<forall>f \<in> set fs. \<exists>t \<in> set (te_turns E).
      the (frame_ts layer (mem f) (len f)) = x_ts t \<and> frame_ts layer (mem f) (len f) = Some (x_ts t)"
    by fastforce
  then have "\<forall>f \<in> set fs. frame_ts layer (mem f) (len f) = Some (the (frame_ts layer (mem f) (len f)))"
    by fastforce
  from stamped batch_latencies_stamped [OF this] show ?thesis
    by (intro exI [of _ "\<lambda>f. the (frame_ts layer (mem f) (len f))"] conjI)
qed

theorem bench_latencies_exact_witness:
  "\<exists>c calls stop r stamp. bench_args (\<lambda>_. Fin 3) (\<lambda>_. False) [''falcon-bench''] = Bench ''socket'' c False \<and>
     tx_thread binary64 (sender_env two_turns) c = (calls, stop, r) \<and> r_sent r = [udp_content 16 5] \<and>
     batch_latencies kL4Payload (\<lambda>_. udp_content 16 5) (\<lambda>_. 9) 0 [\<lparr>data = 0, len = 16\<rparr>] =
       Some (map (\<lambda>(j, f). 9 - stamp f) (filter (\<lambda>(j, f). stamp f \<noteq> 0) (enumerate 0 [\<lparr>data = 0, len = 16\<rparr>])))"
proof -
  let ?conf = "default_cfg"
  have args: "bench_args (\<lambda>_. Fin 3) (\<lambda>_. False) [''falcon-bench''] = Bench ''socket'' ?conf False"
    by (simp add: bench_args_def time_args_def sender_args_def known_backend_def check_payload_def default_cfg_def Let_def)
  have build: "build_udp 16 (replicate 16 0) 5 = Some (udp_content 16 5, 16)"
    using build_udp_builds [of 16] by (simp add: builds_def)
  have len16: "length (udp_content 16 5) = 16" by (simp add: udp_content_def)
  have late: "\<not> d_ge (d_seconds binary64 1) (Fin 3)"
  proof -
    have "binary64 (1 / 1000000000) \<le> binary64 1" by (rule binary64_mono) simp
    then show ?thesis
      using binary64.rnd_int [of 1] by (simp add: d_seconds_def d_of_int_def)
  qed
  obtain calls stop r where run: "tx_thread binary64 (sender_env two_turns) ?conf = (calls, stop, r)"
    and sent: "r_sent r = [udp_content 16 5]"
    using build len16 late
    by (simp add: tx_thread_def tx_udp_def tx_finish_def sender_env_def two_turns_def default_cfg_def Let_def)
  let ?f = "\<lparr>data = 0, len = 16\<rparr>"
  have "\<forall>f \<in> set [?f]. udp_content 16 5 \<in> set (r_sent r) \<and> len f = of_nat (length (udp_content 16 5))"
    using sent len16 by simp
  from bench_latencies_exact [OF args run this, of kL4Payload "\<lambda>_. 9"] args run sent show ?thesis
    by (auto simp: default_cfg_def)
qed

text \<open>C40: the validator on the socket backend rejects a transmission that lost nothing. When 128
  datagrams arrive in two full batches of one call, the second batch overwrites the first, and the
  validator exits with 2: it counts numbers as missing and others as duplicates.\<close>

theorem validate_socket_rejects_burst:
  assumes "SocketBackend (vh_socket H) (ucast (strtoul target)) = (calls, Inr so)"
    and "vh_socket_turns H = [t1, t2]" and "v_now t1 < vh_t0 H + 30 * 1000000000"
    and "vh_t0 H + 30 * 1000000000 \<le> v_now t2" and "v_memory t1 = frame_content"
    and "0 < epoll_ready (v_kernel t1)"
    and "mmsgs (v_kernel t1) = [Got (take 64 (transmit 128)), Got (drop 64 (transmit 128))]"
  shows "\<exists>t. val_receive_socket H target 128 = O_exit 2 [Out (report 128 t)] \<and> 0 < duplicates t"
proof -
  let ?as = "take 64 (transmit 128)" and ?bs = "drop 64 (transmit 128)"
  have len: "length ?as = 64" "length ?bs = 64" "\<forall>d \<in> set (?as @ ?bs). length d = 16"
    by (auto simp: transmit_def header_bytes_def)
  obtain out b' where recv: "socket_recv (v_kernel t1) 256 (so_backend so) = Inr (out, b')"
    and cont: "map (frame_content b') out = ?bs @ ?bs"
    using socket_overwrites_batch [of 256 "v_kernel t1" ?as ?bs 16 "so_backend so"] assms(6,7) len
      socket_lifecycle(3) [OF assms(1)] by auto
  have sub: "set ?bs \<subseteq> set (transmit 128)" by (auto dest: in_set_dropD)
  then have "\<forall>f \<in> set (?bs @ ?bs). read_sequence kL4Payload 128 f \<noteq> None"
    by (auto elim!: read_transmitted)
  then obtain t where batch: "receive_batch kL4Payload 128 (?bs @ ?bs) (start_tally 128) = Some t"
    using receive_batch_some by blast
  have run: "val_receive_socket H target 128 =
      O_exit (if 128 - valid t = 0 \<and> duplicates t = 0 \<and> invalid t = 0 then 0 else 2) [Out (report 128 t)]"
    using assms(1-5) recv cont batch
    by (simp add: val_receive_socket_def validate_receive_def kValidateBatch_def start_tally_def)
  have "duplicates t = 64"
    using repeated_batch [OF sub _ batch] transmit_distinct len(2) by simp
  with run show ?thesis by auto
qed

definition burst_turn :: "int \<Rightarrow> (socket_world, socket_backend) val_turn" where
  "burst_turn now = \<lparr>v_now = now,
     v_kernel = \<lparr>epoll_ready = 1, mmsgs = [Got (take 64 (transmit 128)), Got (drop 64 (transmit 128))]\<rparr>,
     v_memory = frame_content\<rparr>"

definition burst_host :: "(u64 list \<times> u64 list, xdp_desc list) val_host" where
  "burst_host = \<lparr>vh_t0 = 0,
     vh_tx = \<lparr>vt_socket = - 1, vt_bind_device = 0, vt_pton = (\<lambda>_. None), vt_bind = 0, vt_sendto = (\<lambda>_. 16), vt_strerror = ''''\<rparr>,
     vh_socket = free_port, vh_socket_turns = [burst_turn 1, burst_turn 30000000000], vh_packet = no_packet,
     vh_packet_turns = [], vh_xsk = list_rings, vh_xdp = no_xdp, vh_xdp_turns = []\<rparr>"

theorem validate_socket_rejects_burst_witness:
  "\<exists>t. val_receive_socket burst_host ''9100'' 128 = O_exit 2 [Out (report 128 t)] \<and> 0 < duplicates t"
proof -
  obtain calls so where "SocketBackend (vh_socket burst_host) (ucast (strtoul ''9100'')) = (calls, Inr so)"
    by (simp add: SocketBackend_def burst_host_def free_port_def)
  from validate_socket_rejects_burst [OF this, of "burst_turn 1" "burst_turn 30000000000"]
  show ?thesis by (simp add: burst_host_def burst_turn_def)
qed

end
