(* ===== verification/Spec2Isabelle.thy ===== *)
theory Spec2Isabelle
  imports Command_Properties Suite_Properties
begin

text \<open>
  \<^bold>\<open>FalconWall: a verification library.\<close>

  FalconWall is an XDP firewall against floods (\<open>src/wall\<close>) with a suite of programs that measure
  packet reception (\<open>src/benchmark\<close>). This library models both as HOL functions that compute, one
  theory per component, and proves what makes them correct.

  \<^bold>\<open>The firewall\<close> has two halves that share five BPF maps. The data plane is a BPF program that the
  kernel runs on every frame: it drops frames of banned addresses, of dropped prefixes and of
  sources over a rate limit, and keeps statistics per source. The control plane is a command line
  program that loads it, edits the maps, and in its \<open>watch\<close> mode scans the statistics and bans the
  sources that a detector plugin matches.

  \<^item> \<open>Bpf_Maps\<close>: the kernel's maps as records of operations, and their contracts as locales: hash
    maps that may evict (\<open>bpf_hash\<close>), hash maps with room for a number of entries (\<open>bpf_room\<close>),
    arrays, longest-prefix match, enumeration of keys while entries are written. \<open>Ref_Kernel\<close>
    interprets them on concrete maps with the capacities of the source, and \<open>fw_kernel\<close>, the five
    maps together, and \<open>fw_kernel_room\<close>, which adds the room in the blocklist, on a kernel made of
    these.
  \<^item> \<open>Data_Plane\<close>: \<open>fw_prog.c\<close>, statement by statement, with its sliding-window arithmetic on words
    of the source's width. A frame is a list of bytes and a read outside it is \<open>None\<close>. The
    lemmas show that it never is, that the verdict is that of an abstract policy in exact
    arithmetic (\<open>fw_decide\<close>), and what a run does to each map (for the statistics, the entry that
    \<open>stats_after\<close> writes out).
  \<^item> \<open>Detectors\<close>: \<open>detector.hpp\<close> and \<open>detector.cpp\<close>, the registry and the four built-in plugins; the locale
    \<open>detector_set\<close> is what the watch loop needs of them.
  \<^item> \<open>C_Strings\<close>: the C library's conversions between strings and numbers that the programs use.
  \<^item> \<open>Control_Plane\<close>, \<open>Watch\<close>, \<open>Lifecycle\<close>: \<open>fw.cpp\<close>, the map commands with their messages and exit
    codes, the watch loop, \<open>start\<close> as the list of its effects on the host, and \<open>main\<close>. The lemmas
    compute what \<open>start\<close> leaves behind on every path, the abort for an unknown number of CPUs and
    the ignored results of the cleanup included.
  \<^item> \<open>Wall_System\<close>: both halves as a state machine (\<open>wall_reach\<close>) in which frames and commands come
    in any order, and its invariants by rule induction.
  \<^item> \<open>Wall_Properties\<close>, \<open>Command_Properties\<close>: the properties of the firewall.

  \<^bold>\<open>The benchmark suite\<close> has three receive backends behind one interface and four programs.

  \<^item> \<open>Frame_Parser\<close>, \<open>Frame_Build\<close>: the header parsers of \<open>falcon/parser\<close>, the timestamp and payload
    lookup built on them, the frame that the sender crafts and its Internet checksum.
  \<^item> \<open>Packet_Filter\<close>: the classic BPF filter of the AF\_PACKET backend with an interpreter of its
    instructions, and the XDP program \<open>af_xdp.bpf.c\<close>.
  \<^item> \<open>Packet_IO\<close>: \<open>PacketIO\<close>, \<open>Frame\<close> and \<open>PacketStats\<close>; the contract of a backend is the locale
    \<open>packet_io\<close>. \<open>Socket_Backend\<close>, \<open>Af_Packet_Backend\<close>, \<open>Af_Xdp_Backend\<close> model \<open>recvImpl\<close> of the three
    backends and interpret it (for AF\_XDP through \<open>xsk_rings\<close>, the contract of libxdp's rings).
    \<open>Backend_Setup\<close> has their constructors, destructors and \<open>kernelDrops\<close>, as lists of calls.
  \<^item> \<open>Doubles\<close>: double arithmetic with the rounding as an argument; the locale \<open>ieee_rounding\<close> is
    interpreted on rounding to nearest even.
  \<^item> \<open>Rx_Bench\<close>, \<open>Rx_Bench_Mq\<close>: \<open>rx_bench.cpp\<close> and \<open>rx_bench_mq.cpp\<close>. The receive loops are written for
    any backend and proved correct once, inside \<open>packet_io\<close>.
  \<^item> \<open>Bench_Sender\<close>, \<open>Bench_Receiver\<close>, \<open>Bench_Main\<close>: \<open>bench_main.cpp\<close>, \<open>tx_thread\<close>, \<open>run_bench\<close> with its
    percentiles, the arguments and \<open>main\<close>.
  \<^item> \<open>Validate\<close>, \<open>Validate_Main\<close>: \<open>validate.cpp\<close>, the counters and verdict of the receiver, the sender
    and \<open>main\<close> on each backend.
  \<^item> \<open>Bench_Properties\<close>, \<open>Suite_Properties\<close>: the properties of the suite.

  \<^bold>\<open>How state and effects are modelled.\<close> Structs are records, enums datatypes, integers words of
  their width, pointers into a buffer offsets. Exceptions and error returns are values of sum and
  option types. What the kernel or a third-party library (libbpf, libxdp, the socket API) does is
  an argument: a record of results for calls that are made once, a list of turns for calls in a
  loop, a locale where the code relies on laws. Nothing is assumed about it beyond these.

  \<^bold>\<open>Loops and termination.\<close> Loops over data end by construction or by a \<open>termination\<close> proof
  (\<open>fold_sum\<close>, \<open>ap_loop\<close>, \<open>run_filter\<close>). The scan of the statistics map is a
  \<open>partial_function (option)\<close> with a proof that it returns. Loops that end by the clock or by a
  signal run over the list of their turns, and a list that is too short gives a value of its own
  (\<open>None\<close>, \<open>Tx_running\<close>, \<open>B_running\<close>, \<open>V_running\<close>); \<open>rx_run_ends\<close> says how many turns are enough.

  \<^bold>\<open>Bounds.\<close> The policy's exact arithmetic needs window counts below \<open>2 ^ 54\<close>, which every state
  reached by fewer than \<open>2 ^ 53\<close> frames has; the percentiles need fewer than \<open>2 ^ 48\<close> latencies and
  durations \<open>2 ^ 53\<close> nanoseconds, the range in which doubles represent integers.

  The exact statements about a pass of the watch loop need room in the blocklist for the listed and
  the matched addresses together; without room, updates may fail or evict, and the soundness of a
  pass still holds.

  \<^bold>\<open>Not modelled.\<close> Runs of the BPF program on several CPUs at the same instant (its updates of one
  source's statistics are not locked); the interleaving of sender and receiver threads beyond the
  stop flag; the kernel and NIC below the system calls; \<open>atof\<close>, \<open>inet_pton\<close>, \<open>strerror\<close> and
  \<open>printf\<close>'s conversion of doubles, which are arguments; exhaustion of memory; signals that kill a process; what the language's
  runtime prints for an uncaught exception; the pacing of the
  validator's sender; the verifier and the compilation of BPF; \<open>stats.cpp\<close>, an empty placeholder;
  scripts, build files and documentation.
\<close>

end
